(* ===== verification/Sand_Prelude.thy ===== *)
theory Sand_Prelude
  imports Main
begin

text \<open>
  Shared vocabulary of the development: the coordinate type of
  \<^verbatim>\<open>src/day14/task.ts\<close> (a \<^verbatim>\<open>[Depth, Horizontal]\<close> pair of JS numbers, here
  unbounded integers once parsed), the two JS runtime errors the program can
  raise (reading or writing an index of \<^verbatim>\<open>undefined\<close>, and an invalid array
  length), \<^verbatim>\<open>Array(len)\<close>, the collection \<open>grid_simps\<close> of characteristic
  equations of the grid accessors, and generic lemmas on error propagation and
  on counting finite sets under single-point updates.
\<close>

named_theorems grid_simps "characteristic equations of the JS grid accessors"

type_synonym coord = "int \<times> int"

datatype js_error = TypeError | RangeError

text \<open>
  \<^verbatim>\<open>Array(len)\<close> with a number argument allocates \<open>len\<close> empty slots when
  \<open>len\<close> is a valid array length (an integer in \<open>[0, 2^32)\<close>) and raises a
  \<open>RangeError\<close> otherwise.
\<close>

definition new_Array :: "int \<Rightarrow> js_error + nat" where
  "new_Array len = (if 0 \<le> len \<and> len < 2 ^ 32 then Inr (nat len) else Inl RangeError)"

text \<open>
  \<^verbatim>\<open>Number.MAX_SAFE_INTEGER\<close>: up to this magnitude every integer is a double
  and \<open>+ 1\<close> on doubles is exact, so the model's integers are the code's numbers.
\<close>

definition MAX_SAFE_INTEGER :: int where
  "MAX_SAFE_INTEGER = 2 ^ 53 - 1"

subsection \<open>Error propagation\<close>

text \<open>
  A JS exception aborts the enclosing function: a call whose result is
  \<open>Inl e\<close> makes the caller return \<open>Inl e\<close>. Every such propagation in the model
  is a \<^theory_text>\<open>case\<close> of this shape.
\<close>

lemma case_sum_prop_Inr [simp]:
  "((case x of Inl e \<Rightarrow> Inl e | Inr v \<Rightarrow> f v) = Inr r) \<longleftrightarrow> (\<exists>v. x = Inr v \<and> f v = Inr r)"
  by (cases x) auto

lemma case_sum_prop_Inl [simp]:
  "((case x of Inl e \<Rightarrow> Inl e | Inr v \<Rightarrow> f v) = Inl err) \<longleftrightarrow>
     (x = Inl err \<or> (\<exists>v. x = Inr v \<and> f v = Inl err))"
  by (cases x) auto

subsection \<open>Counting under single-point updates\<close>

lemma card_insert_Diff_member:
  assumes "finite A" "q \<in> A" "q \<noteq> p"
  shows "card (insert p A - {q}) = (if p \<in> A then card A - 1 else card A)"
proof (cases "p \<in> A")
  case True
  then have "insert p A - {q} = A - {q}" by blast
  with True assms show ?thesis by simp
next
  case False
  have "card (insert p A - {q}) = card (insert p A) - 1"
    using assms by (simp add: card_Diff_singleton)
  with False assms show ?thesis by simp
qed

subsection \<open>Reading a result out of an evaluated run\<close>

lemma map_sum_id_Inr:
  "map_sum id f x = Inr v \<Longrightarrow> \<exists>y. x = Inr y \<and> f y = v"
  by (cases x) auto

lemma map_option_map_sum_Inr:
  "map_option (map_sum id f) x = Some (Inr v) \<Longrightarrow> \<exists>y. x = Some (Inr y) \<and> f y = v"
  by (cases x) (auto dest: map_sum_id_Inr)

end
