(* ===== verification/Js_Input.thy ===== *)
theory Js_Input
  imports Sand_Prelude
begin

text \<open>
  The input reader of \<^verbatim>\<open>generateMap\<close> in \<^verbatim>\<open>src/day14/task.ts\<close> (lines 49--57): the
  file text is split into lines at \<^verbatim>\<open>'\n'\<close>, each line into points at
  \<^verbatim>\<open>' -> '\<close>, each point into fields at \<^verbatim>\<open>','\<close>, and every field is read by
  \<^verbatim>\<open>Number.parseInt\<close>; the destructuring \<^verbatim>\<open>const [horizontal, depth]\<close> yields
  \<^verbatim>\<open>undefined\<close> for a missing field. A JS value the reader produces is a
  \<open>jsnum\<close>: an integer, \<^verbatim>\<open>NaN\<close> or \<^verbatim>\<open>undefined\<close>. \<open>js_split\<close> is
  \<^verbatim>\<open>String.prototype.split\<close> with a string separator and \<open>parseInt\<close> is
  \<^verbatim>\<open>Number.parseInt\<close> without a radix (leading white space, a sign, a
  \<^verbatim>\<open>0x\<close> prefix switching to base 16, the longest prefix of digits, \<^verbatim>\<open>NaN\<close>
  when there is none). The text is a list of code units, each one an Isabelle
  \<open>char\<close> (the Latin-1 range). The theory also holds the printer of the puzzle
  format (\<open>print_paths\<close>, not part of the program) and the roundtrip
  \<open>parse_input (print_paths ps)\<close> that recovers the paths, and the parse of a
  text that ends with a newline: its last line is empty and yields a point
  whose depth is \<^verbatim>\<open>undefined\<close>.
\<close>

datatype jsnum = JNum int | JNaN | JUndefined

definition js_coord :: "coord \<Rightarrow> jsnum \<times> jsnum" where
  "js_coord c = (JNum (fst c), JNum (snd c))"

subsection \<open>\<^verbatim>\<open>String.prototype.split\<close>\<close>

function split_acc :: "string \<Rightarrow> string \<Rightarrow> string \<Rightarrow> string list" where
  "split_acc sep [] cur = [rev cur]"
| "split_acc sep (c # cs) cur =
     (if sep \<noteq> [] \<and> take (length sep) (c # cs) = sep
      then rev cur # split_acc sep (drop (length sep) (c # cs)) []
      else split_acc sep cs (c # cur))"
  by pat_completeness auto
termination
  by (relation "measure (\<lambda>(sep, s, cur). length s)") auto

definition js_split :: "string \<Rightarrow> string \<Rightarrow> string list" where
  "js_split sep s = (if sep = [] then map (\<lambda>c. [c]) s else split_acc sep s [])"

subsection \<open>\<^verbatim>\<open>Number.parseInt\<close>\<close>

definition js_whitespace :: "char \<Rightarrow> bool" where
  "js_whitespace c \<longleftrightarrow>
     c \<in> set [CHR 0x09, CHR 0x0A, CHR 0x0B, CHR 0x0C, CHR 0x0D, CHR 0x20, CHR 0xA0]"

definition digit_value :: "char \<Rightarrow> nat option" where
  "digit_value c =
     (let n = (of_char c :: nat)
      in if 48 \<le> n \<and> n \<le> 57 then Some (n - 48)
         else if 97 \<le> n \<and> n \<le> 122 then Some (n - 87)
         else if 65 \<le> n \<and> n \<le> 90 then Some (n - 55)
         else None)"

fun digits_prefix :: "nat \<Rightarrow> string \<Rightarrow> nat list" where
  "digits_prefix R [] = []"
| "digits_prefix R (c # cs) =
     (case digit_value c of
        Some v \<Rightarrow> if v < R then v # digits_prefix R cs else []
      | None \<Rightarrow> [])"

definition digits_to_nat :: "nat \<Rightarrow> nat list \<Rightarrow> nat" where
  "digits_to_nat R ds = foldl (\<lambda>acc d. acc * R + d) 0 ds"

definition parseInt :: "string \<Rightarrow> jsnum" where
  "parseInt str =
     (let s = dropWhile js_whitespace str;
          sign = (if s \<noteq> [] \<and> hd s = CHR ''-'' then -1 else 1 :: int);
          s = (if s \<noteq> [] \<and> (hd s = CHR ''-'' \<or> hd s = CHR ''+'') then tl s else s);
          (R, s) = (if take 2 s = ''0x'' \<or> take 2 s = ''0X'' then (16, drop 2 s) else (10, s));
          ds = digits_prefix R s
      in if ds = [] then JNaN else JNum (sign * int (digits_to_nat R ds)))"

subsection \<open>The reader of \<^verbatim>\<open>generateMap\<close>\<close>

definition js_index :: "jsnum list \<Rightarrow> nat \<Rightarrow> jsnum" where
  "js_index xs i = (if i < length xs then xs ! i else JUndefined)"

definition parse_pair :: "string \<Rightarrow> jsnum \<times> jsnum" where
  "parse_pair pair =
     (let fields = map parseInt (js_split '','' pair) in (js_index fields 1, js_index fields 0))"

definition parse_input :: "string \<Rightarrow> (jsnum \<times> jsnum) list list" where
  "parse_input input = map (\<lambda>line. map parse_pair (js_split '' -> '' line)) (js_split ''\<newline>'' input)"

subsection \<open>The puzzle format\<close>

fun string_of_nat :: "nat \<Rightarrow> string" where
  "string_of_nat n =
     (if n < 10 then [''0123456789'' ! n] else string_of_nat (n div 10) @ [''0123456789'' ! (n mod 10)])"

declare string_of_nat.simps [simp del]

definition string_of_int :: "int \<Rightarrow> string" where
  "string_of_int i = (if i < 0 then ''-'' @ string_of_nat (nat (- i)) else string_of_nat (nat i))"

definition show_coord :: "coord \<Rightarrow> string" where
  "show_coord c = string_of_int (snd c) @ '','' @ string_of_int (fst c)"

fun join_with :: "string \<Rightarrow> string list \<Rightarrow> string" where
  "join_with sep [] = []"
| "join_with sep [x] = x"
| "join_with sep (x # y # ys) = x @ sep @ join_with sep (y # ys)"

definition digit_chars :: "char set" where
  "digit_chars = set ''0123456789''"

definition print_paths :: "coord list list \<Rightarrow> string" where
  "print_paths ps = join_with ''\<newline>'' (map (\<lambda>p. join_with '' -> '' (map show_coord p)) ps)"

subsection \<open>Decimal numerals\<close>

lemma digit_value_digit: "(v::nat) < 10 \<Longrightarrow> digit_value (''0123456789'' ! v) = Some v"
proof -
  assume "v < 10"
  then have "v \<in> {0,1,2,3,4,5,6,7,8,9}" by auto
  then show ?thesis by (auto simp: digit_value_def)
qed

lemma digit_chars_nth: "(k::nat) < 10 \<Longrightarrow> ''0123456789'' ! k \<in> digit_chars"
  unfolding digit_chars_def by (intro nth_mem) simp

lemma string_of_nat_digits: "set (string_of_nat n) \<subseteq> digit_chars"
proof (induction n rule: string_of_nat.induct)
  case (1 n)
  then show ?case
    by (subst string_of_nat.simps) (simp add: digit_chars_nth)
qed

lemma string_of_int_chars: "set (string_of_int i) \<subseteq> insert (CHR ''-'') digit_chars"
  unfolding string_of_int_def using string_of_nat_digits by (simp add: subset_insertI2)

lemma digit_chars_not_special:
  "c \<in> digit_chars \<Longrightarrow> \<not> js_whitespace c \<and> c \<noteq> CHR ''-'' \<and> c \<noteq> CHR ''+'' \<and> c \<noteq> CHR ''x'' \<and>
     c \<noteq> CHR ''X'' \<and> c \<noteq> CHR '','' \<and> c \<noteq> CHR '' '' \<and> c \<noteq> CHR ''\<newline>''"
  by (auto simp: digit_chars_def js_whitespace_def)

lemma digit_chars_value: "c \<in> digit_chars \<Longrightarrow> \<exists>v < 10. digit_value c = Some v"
  by (auto simp: digit_chars_def digit_value_def)

lemma digits_prefix_digits:
  "10 \<le> R \<Longrightarrow> set s \<subseteq> digit_chars \<Longrightarrow>
     digits_prefix R (s @ t) = map (the \<circ> digit_value) s @ digits_prefix R t"
proof (induction s)
  case Nil
  then show ?case by simp
next
  case (Cons c s)
  then obtain v where "v < 10" "digit_value c = Some v"
    using digit_chars_value by auto
  with Cons show ?case by simp
qed

lemma digit_value_below_10: "digit_value c = Some v \<Longrightarrow> v < 10 \<Longrightarrow> c \<in> digit_chars"
proof -
  assume "digit_value c = Some v" "v < 10"
  then have "of_char c \<in> {48..57::nat}"
    by (auto simp: digit_value_def Let_def split: if_splits)
  also have "{48..57::nat} = set [48..<58]"
    unfolding set_upt by auto
  also have "set [48..<58] = (of_char :: char \<Rightarrow> nat) ` digit_chars"
    by (simp add: digit_chars_def upt_rec)
  finally obtain d where "d \<in> digit_chars" "of_char c = (of_char d :: nat)" by blast
  then show ?thesis by (simp add: of_char_eq_iff)
qed

lemma digits_prefix_non_digit: "c \<notin> digit_chars \<Longrightarrow> digits_prefix 10 (c # t) = []"
  using digit_value_below_10 [of c] by (auto split: option.splits)

lemma parseInt_skip_whitespace: "\<forall>a \<in> set w. js_whitespace a \<Longrightarrow> parseInt (w @ s) = parseInt s"
  by (simp add: parseInt_def dropWhile_append2)

lemma take2_not_hex: "set s \<subseteq> digit_chars \<Longrightarrow> take 2 s \<noteq> ''0x'' \<and> take 2 s \<noteq> ''0X''"
proof -
  assume s: "set s \<subseteq> digit_chars"
  have "set (take 2 s) \<subseteq> digit_chars" by (rule order_trans [OF set_take_subset s])
  moreover have "CHR ''x'' \<notin> digit_chars" "CHR ''X'' \<notin> digit_chars"
    by (simp_all add: digit_chars_def)
  ultimately show ?thesis by auto
qed
lemma string_of_nat_ne: "string_of_nat n \<noteq> []"
  by (subst string_of_nat.simps) simp

lemma digits_to_nat_snoc: "digits_to_nat R (ds @ [d]) = digits_to_nat R ds * R + d"
  by (simp add: digits_to_nat_def)

lemma digits_to_nat_string_of_nat:
  "digits_to_nat 10 (map (the \<circ> digit_value) (string_of_nat n)) = n"
proof (induction n rule: string_of_nat.induct)
  case (1 n)
  show ?case
  proof (cases "n < 10")
    case True
    then show ?thesis
      by (subst string_of_nat.simps) (simp add: digits_to_nat_def digit_value_digit)
  next
    case False
    with 1 show ?thesis
      by (subst string_of_nat.simps) (simp add: digits_to_nat_snoc digit_value_digit comp_def)
  qed
qed

lemma take2_digits_then:
  assumes "set s \<subseteq> digit_chars" "s \<noteq> []" "c \<noteq> CHR ''x''" "c \<noteq> CHR ''X''"
  shows "take 2 (s @ c # t) \<noteq> ''0x'' \<and> take 2 (s @ c # t) \<noteq> ''0X''"
proof (cases s)
  case (Cons d s')
  show ?thesis
  proof (cases s')
    case (Cons e s'')
    then have "e \<in> digit_chars" using assms(1) \<open>s = d # s'\<close> by simp
    then show ?thesis using digit_chars_not_special [of e] \<open>s = d # s'\<close> Cons by auto
  qed (use assms \<open>s = d # s'\<close> in simp)
qed (use assms in simp)

text \<open>
  A run of decimal digits, optionally after a minus sign, followed by text \<open>r\<close>
  that does not continue the number: \<^verbatim>\<open>parseInt\<close> reads the digits.
\<close>

lemma parseInt_digits:
  assumes s: "set s \<subseteq> digit_chars" and ne: "s \<noteq> []" and r: "digits_prefix 10 r = []"
    and hex: "take 2 (s @ r) \<noteq> ''0x''" "take 2 (s @ r) \<noteq> ''0X''"
  shows "parseInt (s @ r) = JNum (int (digits_to_nat 10 (map (the \<circ> digit_value) s)))"
    and "parseInt (CHR ''-'' # s @ r) = JNum (- int (digits_to_nat 10 (map (the \<circ> digit_value) s)))"
proof -
  obtain c cs where s_eq: "s = c # cs" using ne by (cases s) auto
  have c: "c \<in> digit_chars" using s s_eq by simp
  have hd: "dropWhile js_whitespace (s @ r) = s @ r" "hd (s @ r) \<noteq> CHR ''-''" "hd (s @ r) \<noteq> CHR ''+''"
    using digit_chars_not_special [OF c] by (simp_all add: s_eq)
  have d2: "\<not> js_whitespace (CHR ''-'')" by (simp add: js_whitespace_def)
  have ds: "digits_prefix 10 (s @ r) = map (the \<circ> digit_value) s"
    using digits_prefix_digits [of 10 s r] s r by simp
  have ne': "map (the \<circ> digit_value) s \<noteq> []" "s @ r \<noteq> []" using ne by simp_all
  show "parseInt (s @ r) = JNum (int (digits_to_nat 10 (map (the \<circ> digit_value) s)))"
    unfolding parseInt_def Let_def using hd hex ds ne' by simp
  show "parseInt (CHR ''-'' # s @ r) = JNum (- int (digits_to_nat 10 (map (the \<circ> digit_value) s)))"
    unfolding parseInt_def Let_def using d2 hex ds ne' by simp
qed

lemma parseInt_string_of_int: "parseInt (string_of_int i) = JNum i"
  using parseInt_digits [OF string_of_nat_digits string_of_nat_ne, of "[]"]
        take2_not_hex [OF string_of_nat_digits]
  by (simp add: string_of_int_def digits_to_nat_string_of_nat)

lemma parseInt_string_of_int_then:
  assumes "c \<notin> digit_chars" "c \<noteq> CHR ''x''" "c \<noteq> CHR ''X''"
  shows "parseInt (string_of_int i @ c # t) = JNum i"
  using parseInt_digits [OF string_of_nat_digits string_of_nat_ne digits_prefix_non_digit [OF assms(1)]]
        take2_digits_then [OF string_of_nat_digits string_of_nat_ne assms(2,3)]
  by (simp add: string_of_int_def digits_to_nat_string_of_nat)

lemma parseInt_hex_digits:
  "parseInt (''0x'' @ string_of_nat n) = JNum (int (digits_to_nat 16 (map (the \<circ> digit_value) (string_of_nat n))))"
proof -
  have ds: "digits_prefix 16 (string_of_nat n) = map (the \<circ> digit_value) (string_of_nat n)"
    using digits_prefix_digits [of 16 "string_of_nat n" "[]"] string_of_nat_digits by simp
  have ne: "map (the \<circ> digit_value) (string_of_nat n) \<noteq> []" using string_of_nat_ne by simp
  show ?thesis
    unfolding parseInt_def Let_def using ds ne by (simp add: js_whitespace_def)
qed

subsection \<open>Splitting a joined list\<close>

lemma split_acc_no_sep:
  assumes "sep \<noteq> []" "hd sep \<notin> set x"
  shows "split_acc sep (x @ rest) cur = split_acc sep rest (rev x @ cur)"
  using assms(2)
proof (induction x arbitrary: cur)
  case Nil
  then show ?case by simp
next
  case (Cons c x)
  have "take (length sep) (c # x @ rest) \<noteq> sep"
    using assms(1) Cons.prems by (cases sep) auto
  with Cons show ?case by simp
qed

lemma split_acc_sep:
  "sep \<noteq> [] \<Longrightarrow> split_acc sep (sep @ rest) cur = rev cur # split_acc sep rest []"
  by (cases sep) simp_all

lemma js_split_join_with:
  assumes "sep \<noteq> []" "xs \<noteq> []" "\<forall>x \<in> set xs. hd sep \<notin> set x"
  shows "js_split sep (join_with sep xs) = xs"
proof -
  have "split_acc sep (join_with sep xs) [] = xs"
    using assms
  proof (induction sep xs rule: join_with.induct)
    case (2 sep x)
    then show ?case
      using split_acc_no_sep [of sep x "[]" "[]"] by simp
  next
    case (3 sep x y ys)
    then have "split_acc sep (x @ sep @ join_with sep (y # ys)) [] =
                 split_acc sep (sep @ join_with sep (y # ys)) (rev x)"
      using split_acc_no_sep [of sep x] by simp
    with 3 show ?case
      using split_acc_sep [of sep] by simp
  qed simp
  with assms(1) show ?thesis by (simp add: js_split_def)
qed

lemma set_join_with: "set (join_with sep xs) \<subseteq> set sep \<union> \<Union> (set ` set xs)"
  by (induction sep xs rule: join_with.induct) auto

subsection \<open>Reading printed paths\<close>

lemma show_coord_chars: "set (show_coord c) \<subseteq> insert (CHR ''-'') (insert (CHR '','') digit_chars)"
  using string_of_int_chars [of "fst c"] string_of_int_chars [of "snd c"]
  by (auto simp: show_coord_def)

lemma parse_pair_show_coord: "parse_pair (show_coord c) = js_coord c"
proof -
  have "js_split '','' (join_with '','' [string_of_int (snd c), string_of_int (fst c)]) =
          [string_of_int (snd c), string_of_int (fst c)]"
    using string_of_int_chars [of "fst c"] string_of_int_chars [of "snd c"] digit_chars_not_special
    by (intro js_split_join_with) auto
  then show ?thesis
    by (simp add: parse_pair_def show_coord_def js_index_def parseInt_string_of_int js_coord_def)
qed

subsection \<open>A text that ends with a newline\<close>

lemma split_acc_ne: "split_acc sep s cur \<noteq> []"
  by (induction sep s cur rule: split_acc.induct) simp_all

lemma split_acc_trailing: "last (split_acc [c] (s @ [c]) cur) = []"
proof (induction s arbitrary: cur)
  case Nil
  then show ?case by simp
next
  case (Cons a s)
  then show ?case
    using split_acc_ne [of "[c]" "s @ [c]" "[]"] by simp
qed

lemma parse_input_trailing_newline:
  "parse_input (s @ ''\<newline>'') \<noteq> [] \<and> last (parse_input (s @ ''\<newline>'')) = [(JUndefined, JNaN)]"
proof -
  have "js_split ''\<newline>'' (s @ ''\<newline>'') \<noteq> [] \<and> last (js_split ''\<newline>'' (s @ ''\<newline>'')) = []"
    using split_acc_ne split_acc_trailing by (simp add: js_split_def)
  then show ?thesis
    by (simp add: parse_input_def last_map js_split_def parse_pair_def parseInt_def js_index_def)
qed

subsection \<open>The shape of a parse\<close>

lemma js_split_ne: "sep \<noteq> [] \<Longrightarrow> js_split sep s \<noteq> []"
  by (simp add: js_split_def split_acc_ne)

lemma parseInt_not_undefined: "parseInt s \<noteq> JUndefined"
  by (simp add: parseInt_def Let_def split: prod.splits)

text \<open>
  C18. Parsing the puzzle text of a list of rock paths recovers the paths, as
  long as every coordinate is a safe integer (beyond \<^verbatim>\<open>MAX_SAFE_INTEGER\<close> JS
  rounds what \<^verbatim>\<open>Number.parseInt\<close> reads to the nearest double, while the model
  reads it exactly): every field \<^verbatim>\<open>Number.parseInt\<close> reads is the decimal
  numeral of an integer, and the three separators occur in no field, so each
  \<^verbatim>\<open>split\<close> undoes one join. The paths and the list must be non-empty: an
  empty line parses as one point with \<^verbatim>\<open>NaN\<close> and \<^verbatim>\<open>undefined\<close> fields.
\<close>

theorem parse_print_roundtrip:
  assumes "ps \<noteq> []" "\<forall>p \<in> set ps. p \<noteq> []"
    and "\<forall>c \<in> set (concat ps). \<bar>fst c\<bar> \<le> MAX_SAFE_INTEGER \<and> \<bar>snd c\<bar> \<le> MAX_SAFE_INTEGER"
  shows "parse_input (print_paths ps) = map (map js_coord) ps"
proof -
  let ?line = "\<lambda>p. join_with '' -> '' (map show_coord p)"
  have pts: "js_split '' -> '' (?line p) = map show_coord p" if "p \<noteq> []" for p
    using that show_coord_chars digit_chars_not_special
    by (intro js_split_join_with) auto
  have "CHR ''\<newline>'' \<notin> set (?line p)" for p
    using set_join_with [of "'' -> ''" "map show_coord p"] show_coord_chars digit_chars_not_special
    by fastforce
  then have lines: "js_split ''\<newline>'' (print_paths ps) = map ?line ps"
    unfolding print_paths_def using assms(1) by (intro js_split_join_with) auto
  show ?thesis
    using assms(2) by (simp add: parse_input_def lines pts parse_pair_show_coord)
qed

theorem parse_print_roundtrip_witness:
  "parse_input (print_paths [[(4, 498), (6, 498), (6, 496)], [(4, -503), (9, -503)]]) =
     [[(JNum 4, JNum 498), (JNum 6, JNum 498), (JNum 6, JNum 496)],
      [(JNum 4, JNum (-503)), (JNum 9, JNum (-503))]]"
  using parse_print_roundtrip [of "[[(4, 498), (6, 498), (6, 496)], [(4, -503), (9, -503)]]"]
  by (simp add: js_coord_def MAX_SAFE_INTEGER_def)

text \<open>
  C25. The reader accepts more than the puzzle format, because
  \<^verbatim>\<open>Number.parseInt\<close> is lenient: a field is read after any leading white space
  and up to its first character that cannot continue the number, so a space after
  the comma, trailing letters and a carriage return (a CRLF line end) are
  silently dropped; and a field starting with \<^verbatim>\<open>0x\<close> is read in base 16, so
  \<^verbatim>\<open>0x10\<close> is 16.
\<close>

theorem parse_lenient_fields:
  assumes "\<forall>a \<in> set w. js_whitespace a" "c \<notin> digit_chars" "c \<noteq> CHR ''x''" "c \<noteq> CHR ''X''"
  shows "parseInt (w @ string_of_int i @ c # t) = JNum i \<and>
         parseInt (''0x'' @ string_of_nat n) = JNum (int (digits_to_nat 16 (map (the \<circ> digit_value) (string_of_nat n))))"
  using parseInt_skip_whitespace [OF assms(1)] parseInt_string_of_int_then [OF assms(2-4)] parseInt_hex_digits
  by simp

theorem parse_lenient_fields_witness:
  "parseInt ('' 498'' @ [CHR 0x0D]) = JNum 498 \<and> parseInt ''0x10'' = JNum 16"
proof -
  have ws: "\<forall>a \<in> set '' ''. js_whitespace a" by (simp add: js_whitespace_def)
  have cr: "CHR 0x0D \<notin> digit_chars" "CHR 0x0D \<noteq> CHR ''x''" "CHR 0x0D \<noteq> CHR ''X''"
    by (simp_all add: digit_chars_def)
  have s498: "string_of_int 498 = ''498''"
    by (simp add: string_of_int_def string_of_nat.simps)
  have s10: "string_of_nat 10 = ''10''"
    by (simp add: string_of_nat.simps)
  show ?thesis
    using parse_lenient_fields [OF ws cr, of 498 "[]" 10] s498 s10
    by (simp add: digits_to_nat_def digit_value_def)
qed

text \<open>
  C26. Whatever the text, the reader returns at least one path, every path has
  at least one point, and every horizontal field is a number or \<^verbatim>\<open>NaN\<close>:
  only a depth can be \<^verbatim>\<open>undefined\<close> (a point without a comma).
\<close>

theorem parse_input_shape:
  "parse_input input \<noteq> [] \<and>
   (\<forall>path \<in> set (parse_input input). path \<noteq> [] \<and> (\<forall>c \<in> set path. snd c \<noteq> JUndefined))"
proof -
  have "snd (parse_pair pair) \<noteq> JUndefined" for pair
    using js_split_ne [of "'',''" pair] parseInt_not_undefined
    by (cases "js_split '','' pair") (simp_all add: parse_pair_def js_index_def)
  then show ?thesis
    using js_split_ne [of "''\<newline>''" input] js_split_ne [of "'' -> ''"]
    by (auto simp: parse_input_def)
qed

theorem parse_input_shape_witness:
  "parse_input ''498,4\<newline>x'' = [[(JNum 4, JNum 498)], [(JUndefined, JNaN)]] \<and>
   parse_input ''498,4\<newline>x'' \<noteq> [] \<and>
   [(JNum 4, JNum 498)] \<noteq> [] \<and> [(JUndefined, JNaN)] \<noteq> [] \<and> JNum 498 \<noteq> JUndefined \<and> JNaN \<noteq> JUndefined"
proof -
  have p: "parse_input ''498,4\<newline>x'' = [[(JNum 4, JNum 498)], [(JUndefined, JNaN)]]"
    by (simp add: parse_input_def js_split_def parse_pair_def parseInt_def js_index_def digits_to_nat_def
                  digit_value_def js_whitespace_def)
  show ?thesis
    using p parse_input_shape [of "''498,4\<newline>x''"] by simp
qed

end
