(* ===== verification/Sand_Grid.thy ===== *)
theory Sand_Grid
  imports Sand_Prelude
begin

text \<open>
  The grid of \<^verbatim>\<open>src/day14/task.ts\<close>: a JS array of rows (\<^verbatim>\<open>string[][]\<close>), each
  row a JS array of one-character strings drawn from \<^verbatim>\<open>CHARS\<close>. A row is
  modelled as a partial map from integer keys to tiles: \<open>None\<close> is JS
  \<^verbatim>\<open>undefined\<close> (a hole, an index past the end, or a negative index), and a write
  at any integer key stores the value under that key, as a JS property write does.
  Indexing the grid by a depth with no row yields \<^verbatim>\<open>undefined\<close>, and indexing that
  raises a \<open>TypeError\<close>: \<open>read_cell\<close> and \<open>write_cell\<close> return it as \<open>Inl\<close>.
  The pure views \<open>cell\<close> and \<open>set_cell\<close> are what the proofs reason with.
\<close>

datatype tile = START | AIR | SAND | ROCK

definition CHARS :: "tile \<Rightarrow> char" where
  "CHARS t = (case t of START \<Rightarrow> CHR ''+'' | AIR \<Rightarrow> CHR ''.''
                      | SAND \<Rightarrow> CHR ''o'' | ROCK \<Rightarrow> CHR ''#'')"

definition SAND_DROP_POINT :: coord where
  "SAND_DROP_POINT = (0, 500)"

type_synonym row = "int \<Rightarrow> tile option"
type_synonym grid = "row list"

definition has_row :: "grid \<Rightarrow> int \<Rightarrow> bool" where
  "has_row g d \<longleftrightarrow> 0 \<le> d \<and> d < int (length g)"

definition row_at :: "grid \<Rightarrow> int \<Rightarrow> row option" where
  "row_at g d = (if has_row g d then Some (g ! nat d) else None)"

text \<open>\<^verbatim>\<open>map[d][h]\<close> as an rvalue and as an assignment target.\<close>

definition read_cell :: "grid \<Rightarrow> int \<Rightarrow> int \<Rightarrow> js_error + tile option" where
  "read_cell g d h = (case row_at g d of None \<Rightarrow> Inl TypeError | Some r \<Rightarrow> Inr (r h))"

definition write_cell :: "grid \<Rightarrow> int \<Rightarrow> int \<Rightarrow> tile \<Rightarrow> js_error + grid" where
  "write_cell g d h v =
     (case row_at g d of None \<Rightarrow> Inl TypeError | Some r \<Rightarrow> Inr (g[nat d := r(h \<mapsto> v)]))"

definition isBlocked :: "grid \<Rightarrow> int \<Rightarrow> int \<Rightarrow> js_error + bool" where
  "isBlocked g d h = (case read_cell g d h of Inl e \<Rightarrow> Inl e | Inr c \<Rightarrow> Inr (c \<noteq> Some AIR))"

subsection \<open>Pure views of the grid\<close>

definition cell :: "grid \<Rightarrow> coord \<Rightarrow> tile option" where
  "cell g p = (if has_row g (fst p) then (g ! nat (fst p)) (snd p) else None)"

definition set_cell :: "grid \<Rightarrow> coord \<Rightarrow> tile \<Rightarrow> grid" where
  "set_cell g p v =
     (if has_row g (fst p) then g[nat (fst p) := (g ! nat (fst p))(snd p \<mapsto> v)] else g)"

definition blocked :: "grid \<Rightarrow> coord \<Rightarrow> bool" where
  "blocked g p \<longleftrightarrow> cell g p \<noteq> Some AIR"

definition cells_with :: "tile \<Rightarrow> grid \<Rightarrow> coord set" where
  "cells_with t g = {p. cell g p = Some t}"

subsection \<open>The JS accessors in terms of the pure views\<close>

lemma read_cell_eq [grid_simps]:
  "read_cell g d h = (if has_row g d then Inr (cell g (d, h)) else Inl TypeError)"
  by (simp add: read_cell_def row_at_def cell_def)

lemma write_cell_eq [grid_simps]:
  "write_cell g d h v = (if has_row g d then Inr (set_cell g (d, h) v) else Inl TypeError)"
  by (simp add: write_cell_def row_at_def set_cell_def)

lemma isBlocked_eq [grid_simps]:
  "isBlocked g d h = (if has_row g d then Inr (blocked g (d, h)) else Inl TypeError)"
  by (simp add: isBlocked_def read_cell_eq blocked_def)

subsection \<open>Single-cell updates\<close>

lemma length_set_cell [simp]: "length (set_cell g p v) = length g"
  by (simp add: set_cell_def)

lemma has_row_set_cell [simp]: "has_row (set_cell g p v) d = has_row g d"
  by (simp add: has_row_def)

lemma cell_set_cell [simp]:
  "cell (set_cell g p v) q = (if q = p \<and> has_row g (fst p) then Some v else cell g q)"
  by (cases p, cases q) (auto simp: cell_def set_cell_def has_row_def nth_list_update)

lemma grid_eqI:
  assumes "length g = length g'" "\<And>p. cell g p = cell g' p"
  shows "g = g'"
proof (rule nth_equalityI)
  show "length g = length g'" by fact
next
  fix i assume i: "i < length g"
  show "g ! i = g' ! i"
  proof
    fix h
    have "cell g (int i, h) = cell g' (int i, h)" by (rule assms(2))
    with i assms(1) show "(g ! i) h = (g' ! i) h"
      by (simp add: cell_def has_row_def)
  qed
qed

lemma cell_Some_has_row: "cell g p = Some v \<Longrightarrow> has_row g (fst p)"
  by (simp add: cell_def split: if_splits)

lemma set_cell_same:
  assumes "cell g p = Some v"
  shows "set_cell g p v = g"
proof (rule grid_eqI)
  fix q
  show "cell (set_cell g p v) q = cell g q"
    using assms cell_Some_has_row [OF assms] by auto
qed simp

lemma set_cell_overwrite [simp]: "set_cell (set_cell g p v) p w = set_cell g p w"
  by (rule grid_eqI) auto

lemma set_cell_commute:
  "p \<noteq> q \<Longrightarrow> set_cell (set_cell g p v) q w = set_cell (set_cell g q w) p v"
  by (rule grid_eqI) auto

lemma mem_cells_with [simp]: "p \<in> cells_with t g \<longleftrightarrow> cell g p = Some t"
  by (simp add: cells_with_def)

lemma cells_with_set_cell:
  "has_row g (fst p) \<Longrightarrow>
     cells_with t (set_cell g p v) = (if v = t then insert p (cells_with t g) else cells_with t g - {p})"
  by (auto simp: cells_with_def)

subsection \<open>The grid invariant\<close>

text \<open>
  Finitely many air and sand cells (every row is \<^verbatim>\<open>1000\<close> cells wide when it is
  built, and sand is only written where air was), and no sand at the source:
  the cell \<^verbatim>\<open>SAND_DROP_POINT\<close> is only ever overwritten with air.
\<close>

definition grid_inv :: "grid \<Rightarrow> bool" where
  "grid_inv g \<longleftrightarrow> finite (cells_with AIR g) \<and> finite (cells_with SAND g)
                  \<and> cell g SAND_DROP_POINT \<noteq> Some SAND"

end
