(* ===== verification/Rock_Raster.thy ===== *)
theory Rock_Raster
  imports Sand_Prelude
begin

text \<open>
  The rock rasterizer of \<^verbatim>\<open>src/day14/task.ts\<close>: \<^verbatim>\<open>getRocksToFill\<close> and
  \<^verbatim>\<open>generateRockCoordinatesFromPath\<close>. The body of the loop over consecutive
  vertices is \<open>segment_fill\<close>; its two \<^verbatim>\<open>for\<close> loops run from \<^verbatim>\<open>start\<close> up to
  and excluding \<^verbatim>\<open>end\<close>, which is the integer interval \<open>[s..e - 1]\<close>. The
  result lists the vertices first, then the filled cells in loop order, so it
  has duplicates; the lemmas describe its set of cells: the axis-aligned segment
  between each pair of consecutive vertices when the path is orthogonal, and only
  the two vertices for a diagonal pair, which the code skips without an error.
\<close>

definition getRocksToFill :: "int \<Rightarrow> int \<Rightarrow> int \<times> int" where
  "getRocksToFill s e = (min s e, max s e)"

fun segment_fill :: "coord \<Rightarrow> coord \<Rightarrow> coord list" where
  "segment_fill (depth1, horizontal1) (depth2, horizontal2) =
     (if horizontal1 = horizontal2 then
        (case getRocksToFill depth1 depth2 of (s, e) \<Rightarrow> map (\<lambda>d. (d, horizontal1)) [s..e - 1])
      else if depth1 = depth2 then
        (case getRocksToFill horizontal1 horizontal2 of (s, e) \<Rightarrow> map (\<lambda>h. (depth1, h)) [s..e - 1])
      else [])"

definition generateRockCoordinatesFromPath :: "coord list \<Rightarrow> coord list" where
  "generateRockCoordinatesFromPath rockPath =
     rockPath @ concat (map (\<lambda>i. segment_fill (rockPath ! i) (rockPath ! (i + 1)))
                            [0..<length rockPath - 1])"

subsection \<open>Specification of a segment\<close>

text \<open>
  The cells between two vertices, both included: the bounding box of the pair,
  which is the segment itself when the pair shares a depth or a horizontal.
\<close>

definition segment_cells :: "coord \<Rightarrow> coord \<Rightarrow> coord set" where
  "segment_cells a b =
     {(d, h). min (fst a) (fst b) \<le> d \<and> d \<le> max (fst a) (fst b)
            \<and> min (snd a) (snd b) \<le> h \<and> h \<le> max (snd a) (snd b)}"

fun orthogonal_path :: "coord list \<Rightarrow> bool" where
  "orthogonal_path (a # b # rest) = ((fst a = fst b \<or> snd a = snd b) \<and> orthogonal_path (b # rest))"
| "orthogonal_path _ = True"

lemma set_segment_fill_vertical:
  "snd a = snd b \<Longrightarrow>
     set (segment_fill a b) = {(d, snd a) | d. min (fst a) (fst b) \<le> d \<and> d < max (fst a) (fst b)}"
  by (cases a, cases b) (auto simp: getRocksToFill_def)

lemma set_segment_fill_horizontal:
  "snd a \<noteq> snd b \<Longrightarrow> fst a = fst b \<Longrightarrow>
     set (segment_fill a b) = {(fst a, h) | h. min (snd a) (snd b) \<le> h \<and> h < max (snd a) (snd b)}"
  by (cases a, cases b) (auto simp: getRocksToFill_def)

lemma segment_fill_diagonal:
  "fst a \<noteq> fst b \<Longrightarrow> snd a \<noteq> snd b \<Longrightarrow> segment_fill a b = []"
  by (cases a, cases b) simp

lemma segment_fill_cells:
  assumes "fst a = fst b \<or> snd a = snd b"
  shows "set (segment_fill a b) \<union> {a, b} = segment_cells a b"
proof (cases "snd a = snd b")
  case True
  then show ?thesis
    by (cases a, cases b) (auto simp: set_segment_fill_vertical segment_cells_def simp del: segment_fill.simps)
next
  case False
  with assms show ?thesis
    by (cases a, cases b) (auto simp: set_segment_fill_horizontal segment_cells_def simp del: segment_fill.simps)
qed

lemma set_generateRockCoordinatesFromPath:
  "set (generateRockCoordinatesFromPath p) =
     set p \<union> (\<Union>i < length p - 1. set (segment_fill (p ! i) (p ! (i + 1))))"
  by (auto simp: generateRockCoordinatesFromPath_def)

lemma orthogonal_path_nth:
  "orthogonal_path p \<Longrightarrow> i < length p - 1 \<Longrightarrow>
     fst (p ! i) = fst (p ! (i + 1)) \<or> snd (p ! i) = snd (p ! (i + 1))"
proof (induction p arbitrary: i rule: orthogonal_path.induct)
  case (1 a b rest)
  then show ?case by (cases i) auto
qed auto

subsection \<open>What the rasterizer places\<close>

lemma vertical_pair_cells:
  "set (generateRockCoordinatesFromPath [(d1, h), (d2, h)]) =
     (\<lambda>d. (d, h)) ` {min d1 d2..max d1 d2}"
proof -
  have "set (generateRockCoordinatesFromPath [(d1, h), (d2, h)]) =
          set (segment_fill (d1, h) (d2, h)) \<union> {(d1, h), (d2, h)}"
    by (auto simp: generateRockCoordinatesFromPath_def simp del: segment_fill.simps)
  also have "\<dots> = segment_cells (d1, h) (d2, h)"
    by (rule segment_fill_cells) simp
  finally show ?thesis
    by (auto simp: segment_cells_def)
qed

subsection \<open>Properties of the rasterizer\<close>

text \<open>
  C9. A path of two vertices that share a horizontal rasterizes to exactly the
  cells of that column from the shallower to the deeper vertex, both included:
  \<open>|depth2 - depth1| + 1\<close> distinct cells (the list itself repeats the vertices).
\<close>

theorem vertical_pair_count:
  "set (generateRockCoordinatesFromPath [(d1, h), (d2, h)]) = (\<lambda>d. (d, h)) ` {min d1 d2..max d1 d2} \<and>
   card (set (generateRockCoordinatesFromPath [(d1, h), (d2, h)])) = nat \<bar>d2 - d1\<bar> + 1"
proof -
  have "card ((\<lambda>d. (d, h)) ` {min d1 d2..max d1 d2}) = card {min d1 d2..max d1 d2}"
    by (rule card_image) (simp add: inj_on_def)
  also have "\<dots> = nat \<bar>d2 - d1\<bar> + 1"
    by (simp add: min_def max_def) arith
  finally show ?thesis
    using vertical_pair_cells by simp
qed

text \<open>
  C10. For a path whose consecutive vertices share a depth or a horizontal, the
  rasterized cells are exactly the vertices and the closed segments between
  consecutive vertices.
\<close>

theorem rasterize_orthogonal_path:
  assumes "orthogonal_path p"
  shows "set (generateRockCoordinatesFromPath p) =
           set p \<union> (\<Union>i < length p - 1. segment_cells (p ! i) (p ! (i + 1)))"
proof -
  have seg: "set (segment_fill (p ! i) (p ! (i + 1))) \<union> {p ! i, p ! (i + 1)} =
               segment_cells (p ! i) (p ! (i + 1))" if "i < length p - 1" for i
    using orthogonal_path_nth [OF assms that] by (rule segment_fill_cells)
  have mem: "p ! i \<in> set p \<and> p ! (i + 1) \<in> set p" if "i < length p - 1" for i
    using that by simp
  show ?thesis
    unfolding set_generateRockCoordinatesFromPath
    using seg mem by blast
qed

theorem rasterize_orthogonal_path_witness:
  "orthogonal_path [(4, 498), (6, 498), (6, 496)] \<and>
   set (generateRockCoordinatesFromPath [(4, 498), (6, 498), (6, 496)]) =
     set [(4, 498), (6, 498), (6, 496)] \<union>
     (\<Union>i < length [(4::int, 498::int), (6, 498), (6, 496)] - 1.
        segment_cells ([(4, 498), (6, 498), (6, 496)] ! i) ([(4, 498), (6, 498), (6, 496)] ! (i + 1)))"
proof -
  have o: "orthogonal_path [(4::int, 498::int), (6, 498), (6, 496)]" by simp
  show ?thesis using o rasterize_orthogonal_path [OF o] by simp
qed

text \<open>
  C11. A diagonal pair of consecutive vertices is not rejected, as the spec's
  \<open>InvalidPath\<close> condition requires: the code places the two vertices and fills
  nothing between them.
\<close>

theorem diagonal_segment_skipped:
  assumes "d1 \<noteq> d2" and "h1 \<noteq> h2"
  shows "generateRockCoordinatesFromPath [(d1, h1), (d2, h2)] = [(d1, h1), (d2, h2)]"
  using assms by (simp add: generateRockCoordinatesFromPath_def)

theorem diagonal_segment_skipped_witness:
  "(4::int) \<noteq> 6 \<and> (498::int) \<noteq> 496 \<and>
   generateRockCoordinatesFromPath [(4, 498), (6, 496)] = [(4, 498), (6, 496)]"
  using diagonal_segment_skipped [of 4 6 498 496] by simp

end
