(* ===== verification/Grid_Builder.thy ===== *)
theory Grid_Builder
  imports Sand_Grid Rock_Raster
begin

text \<open>
  The grid builder of \<^verbatim>\<open>src/day14/task.ts\<close>: \<^verbatim>\<open>generateMap\<close> after parsing (it
  takes the rock paths already as \<^verbatim>\<open>[depth, horizontal]\<close> pairs; the
  \<^verbatim>\<open>maxDepth\<close> accumulation done inside the parsing callback is \<open>maxDepth_of\<close>),
  the \<^verbatim>\<open>forEach\<close> that writes the rock cells (\<open>place_rocks\<close>), and
  \<^verbatim>\<open>addFloorToMap\<close>. The grid has \<^verbatim>\<open>maxDepth + 5\<close> rows of \<^verbatim>\<open>1000\<close> air cells;
  the source cell is written before the rocks, so a rock there overwrites it.
  \<^verbatim>\<open>Array.prototype.map\<close> in \<^verbatim>\<open>addFloorToMap\<close> visits the present non-negative
  indices of the row and drops every other key, which is what \<open>addFloorToMap\<close>
  computes. \<^verbatim>\<open>Array(maxDepth + 5)\<close> raises a \<open>RangeError\<close> when the length
  reaches \<open>2^32\<close> (\<open>map_fits\<close> fails); otherwise a rock with a negative depth
  makes \<^verbatim>\<open>map[depth]\<close> undefined and the write raises a \<open>TypeError\<close>. These are
  the only errors of the builder.
\<close>

definition MAP_WIDTH :: int where
  "MAP_WIDTH = 1000"

definition air_row :: row where
  "air_row h = (if 0 \<le> h \<and> h < MAP_WIDTH then Some AIR else None)"

definition maxDepth_of :: "coord list list \<Rightarrow> int" where
  "maxDepth_of rockPaths = foldl (\<lambda>m c. max m (fst c)) 0 (concat rockPaths)"

fun place_rocks :: "grid \<Rightarrow> coord list \<Rightarrow> js_error + grid" where
  "place_rocks g [] = Inr g"
| "place_rocks g ((depth, horizontal) # cs) =
     (case write_cell g depth horizontal ROCK of Inl e \<Rightarrow> Inl e | Inr g' \<Rightarrow> place_rocks g' cs)"

definition generateMap :: "coord list list \<Rightarrow> js_error + grid \<times> int" where
  "generateMap rockPaths =
     (let maxDepth = maxDepth_of rockPaths
      in case new_Array (maxDepth + 5) of
           Inl e \<Rightarrow> Inl e
         | Inr n \<Rightarrow>
             (let g0 = replicate n air_row
              in case write_cell g0 (fst SAND_DROP_POINT) (snd SAND_DROP_POINT) START of
                   Inl e \<Rightarrow> Inl e
                 | Inr g1 \<Rightarrow>
                     (case place_rocks g1 (concat (map generateRockCoordinatesFromPath rockPaths)) of
                        Inl e \<Rightarrow> Inl e
                      | Inr g2 \<Rightarrow> Inr (g2, maxDepth))))"

definition addFloorToMap :: "grid \<Rightarrow> int \<Rightarrow> js_error + grid" where
  "addFloorToMap g floorDepth =
     (case row_at g floorDepth of
        None \<Rightarrow> Inl TypeError
      | Some r \<Rightarrow> Inr (g[nat floorDepth := (\<lambda>h. if 0 \<le> h \<and> r h \<noteq> None then Some ROCK else None)]))"

definition map_fits :: "coord list list \<Rightarrow> bool" where
  "map_fits rockPaths \<longleftrightarrow> maxDepth_of rockPaths + 5 < 2 ^ 32"

definition rock_cells :: "coord list list \<Rightarrow> coord set" where
  "rock_cells rockPaths = set (concat (map generateRockCoordinatesFromPath rockPaths))"

text \<open>A one-segment path used by the witnesses of this theory.\<close>

definition ledge_paths' :: "coord list list" where
  "ledge_paths' = [[(2, 499), (2, 501)]]"

subsection \<open>Placing rocks\<close>

lemma place_rocks_eq:
  "place_rocks g cs =
     (if \<forall>c \<in> set cs. has_row g (fst c) then Inr (fold (\<lambda>c g. set_cell g c ROCK) cs g)
      else Inl TypeError)"
proof (induction cs arbitrary: g)
  case Nil
  then show ?case by simp
next
  case (Cons c cs)
  then show ?case
    by (cases c) (simp add: write_cell_eq)
qed

lemma cell_fold_set_cell:
  "cell (fold (\<lambda>c g. set_cell g c v) cs g) p =
     (if p \<in> set cs \<and> has_row g (fst p) then Some v else cell g p)"
  by (induction cs arbitrary: g) auto

lemma length_fold_set_cell [simp]:
  "length (fold (\<lambda>c g. set_cell g c v) cs g) = length g"
  by (induction cs arbitrary: g) auto

lemma has_row_fold_set_cell [simp]:
  "has_row (fold (\<lambda>c g. set_cell g c v) cs g) d = has_row g d"
  by (simp add: has_row_def)

subsection \<open>Depths of the rasterized cells\<close>

lemma segment_fill_depth:
  "c \<in> set (segment_fill a b) \<Longrightarrow> min (fst a) (fst b) \<le> fst c \<and> fst c \<le> max (fst a) (fst b)"
proof (cases "snd a = snd b")
  case True
  assume "c \<in> set (segment_fill a b)"
  with True show ?thesis by (auto simp: set_segment_fill_vertical)
next
  case False
  assume c: "c \<in> set (segment_fill a b)"
  show ?thesis
  proof (cases "fst a = fst b")
    case True
    with False c show ?thesis by (auto simp: set_segment_fill_horizontal)
  next
    case False
    with \<open>snd a \<noteq> snd b\<close> c show ?thesis by (simp add: segment_fill_diagonal)
  qed
qed

lemma rasterized_depth_between_vertices:
  assumes "c \<in> set (generateRockCoordinatesFromPath p)"
  shows "\<exists>v \<in> set p. \<exists>w \<in> set p. fst v \<le> fst c \<and> fst c \<le> fst w"
proof -
  from assms consider "c \<in> set p"
    | i where "i < length p - 1" "c \<in> set (segment_fill (p ! i) (p ! (i + 1)))"
    unfolding set_generateRockCoordinatesFromPath by blast
  then show ?thesis
  proof cases
    case 1
    then show ?thesis by blast
  next
    case 2
    then have "p ! i \<in> set p" "p ! (i + 1) \<in> set p" by simp_all
    with segment_fill_depth [OF 2(2)] show ?thesis
      by (metis max_def min_def)
  qed
qed

subsection \<open>The deepest rock\<close>

lemma foldl_max_fst:
  "foldl (\<lambda>m c. max m (fst c)) a cs = Max (insert a (fst ` set cs))"
proof (induction cs arbitrary: a)
  case Nil
  then show ?case by simp
next
  case (Cons c cs)
  then show ?case
    by (cases "cs = []") (simp_all add: max.assoc)
qed

lemma maxDepth_of_eq:
  "maxDepth_of rockPaths = Max (insert 0 (fst ` set (concat rockPaths)))"
  by (simp add: maxDepth_of_def foldl_max_fst)

lemma maxDepth_of_nonneg: "0 \<le> maxDepth_of rockPaths"
  by (simp add: maxDepth_of_eq)

lemma vertex_depth_le_maxDepth:
  "c \<in> set (concat rockPaths) \<Longrightarrow> fst c \<le> maxDepth_of rockPaths"
  by (simp add: maxDepth_of_eq)

lemma rock_cell_depth_bounds:
  assumes "c \<in> rock_cells rockPaths"
  shows "\<exists>v \<in> set (concat rockPaths). fst v \<le> fst c" and "fst c \<le> maxDepth_of rockPaths"
proof -
  from assms obtain p where p: "p \<in> set rockPaths" "c \<in> set (generateRockCoordinatesFromPath p)"
    by (auto simp: rock_cells_def)
  from rasterized_depth_between_vertices [OF p(2)] obtain v w
    where "v \<in> set p" "w \<in> set p" "fst v \<le> fst c" "fst c \<le> fst w" by blast
  moreover from p(1) \<open>w \<in> set p\<close> have "w \<in> set (concat rockPaths)" by auto
  ultimately show "\<exists>v \<in> set (concat rockPaths). fst v \<le> fst c"
    and "fst c \<le> maxDepth_of rockPaths"
    using p(1) vertex_depth_le_maxDepth [of w rockPaths] by auto
qed

lemma vertices_in_rock_cells: "set (concat rockPaths) \<subseteq> rock_cells rockPaths"
  by (auto simp: rock_cells_def set_generateRockCoordinatesFromPath)

lemma rock_depths_nonneg_iff:
  "(\<forall>c \<in> rock_cells rockPaths. 0 \<le> fst c) \<longleftrightarrow> (\<forall>c \<in> set (concat rockPaths). 0 \<le> fst c)"
  using rock_cell_depth_bounds(1) vertices_in_rock_cells by fastforce

subsection \<open>The built grid\<close>

definition built_grid :: "coord list list \<Rightarrow> grid" where
  "built_grid rockPaths =
     fold (\<lambda>c g. set_cell g c ROCK) (concat (map generateRockCoordinatesFromPath rockPaths))
       (set_cell (replicate (nat (maxDepth_of rockPaths + 5)) air_row) SAND_DROP_POINT START)"

lemma generateMap_eq:
  "generateMap rockPaths =
     (if \<not> map_fits rockPaths then Inl RangeError
      else if \<forall>c \<in> rock_cells rockPaths. 0 \<le> fst c
      then Inr (built_grid rockPaths, maxDepth_of rockPaths) else Inl TypeError)"
proof -
  let ?m = "maxDepth_of rockPaths"
  let ?g1 = "set_cell (replicate (nat (?m + 5)) air_row) SAND_DROP_POINT START"
  have len: "length ?g1 = nat (?m + 5)" by simp
  have rows: "has_row ?g1 (fst c) \<longleftrightarrow> 0 \<le> fst c" if "c \<in> rock_cells rockPaths" for c
    using rock_cell_depth_bounds(2) [OF that] maxDepth_of_nonneg [of rockPaths]
    by (auto simp: has_row_def)
  have src: "has_row (replicate (nat (?m + 5)) air_row) (fst SAND_DROP_POINT)"
    using maxDepth_of_nonneg [of rockPaths] by (simp add: has_row_def SAND_DROP_POINT_def)
  show ?thesis
    using src rows
    using maxDepth_of_nonneg [of rockPaths]
    by (auto simp: generateMap_def Let_def write_cell_eq place_rocks_eq built_grid_def
             rock_cells_def SAND_DROP_POINT_def new_Array_def map_fits_def)
qed

lemma length_built_grid: "length (built_grid rockPaths) = nat (maxDepth_of rockPaths + 5)"
  by (simp add: built_grid_def)

lemma cell_built_grid:
  assumes "\<forall>c \<in> rock_cells rockPaths. 0 \<le> fst c"
  shows "cell (built_grid rockPaths) p =
           (if p \<in> rock_cells rockPaths then Some ROCK
            else if p = SAND_DROP_POINT then Some START
            else if has_row (built_grid rockPaths) (fst p) then air_row (snd p) else None)"
proof -
  let ?g0 = "replicate (nat (maxDepth_of rockPaths + 5)) air_row"
  have src: "has_row ?g0 (fst SAND_DROP_POINT)"
    using maxDepth_of_nonneg [of rockPaths] by (simp add: has_row_def SAND_DROP_POINT_def)
  have rows: "has_row ?g0 (fst p)" if "p \<in> rock_cells rockPaths"
    using rock_cell_depth_bounds(2) [OF that] maxDepth_of_nonneg [of rockPaths] assms that
    by (auto simp: has_row_def)
  have g0: "cell ?g0 p = (if has_row ?g0 (fst p) then air_row (snd p) else None)"
    using maxDepth_of_nonneg [of rockPaths] by (simp add: cell_def has_row_def)
  show ?thesis
    using src rows g0
    by (auto simp: built_grid_def cell_fold_set_cell rock_cells_def)
qed

lemma built_grid_cells_in_columns:
  assumes "\<forall>c \<in> rock_cells rockPaths. 0 \<le> fst c" "cell (built_grid rockPaths) p = Some t"
    "t = AIR \<or> t = SAND"
  shows "0 \<le> fst p \<and> fst p < int (length (built_grid rockPaths)) \<and> 0 \<le> snd p \<and> snd p < MAP_WIDTH"
  using assms cell_Some_has_row [OF assms(2)]
  by (auto simp: cell_built_grid air_row_def has_row_def split: if_splits)

lemma finite_cells_in_columns:
  fixes n :: int
  assumes "\<And>p. p \<in> S \<Longrightarrow> 0 \<le> fst p \<and> fst p < n \<and> 0 \<le> snd p \<and> snd p < MAP_WIDTH"
  shows "finite S"
proof (rule finite_subset)
  show "S \<subseteq> {0..<n} \<times> {0..<MAP_WIDTH}"
    using assms by (auto simp: mem_Times_iff)
qed simp

lemma grid_inv_built_grid:
  assumes "\<forall>c \<in> rock_cells rockPaths. 0 \<le> fst c"
  shows "grid_inv (built_grid rockPaths)"
proof -
  have "finite (cells_with t (built_grid rockPaths))" if "t = AIR \<or> t = SAND" for t
    using built_grid_cells_in_columns [OF assms _ that]
    by (intro finite_cells_in_columns) (auto simp: cells_with_def)
  moreover have "cell (built_grid rockPaths) SAND_DROP_POINT \<noteq> Some SAND"
    using assms by (simp add: cell_built_grid)
  ultimately show ?thesis by (simp add: grid_inv_def)
qed

subsection \<open>The floor\<close>

lemma addFloorToMap_eq:
  "addFloorToMap g floorDepth =
     (if has_row g floorDepth
      then Inr (g[nat floorDepth := (\<lambda>h. if 0 \<le> h \<and> cell g (floorDepth, h) \<noteq> None then Some ROCK else None)])
      else Inl TypeError)"
  by (simp add: addFloorToMap_def row_at_def cell_def)

lemma cell_addFloorToMap:
  assumes "addFloorToMap g floorDepth = Inr g'"
  shows "length g' = length g"
    and "cell g' p = (if fst p = floorDepth then (if 0 \<le> snd p \<and> cell g p \<noteq> None then Some ROCK else None)
                      else cell g p)"
  using assms
  by (auto simp: addFloorToMap_eq cell_def has_row_def nth_list_update split: if_splits)

lemma addFloorToMap_floor_blocked:
  "addFloorToMap g floorDepth = Inr g' \<Longrightarrow> blocked g' (floorDepth, h)"
  by (simp add: blocked_def cell_addFloorToMap)

lemma grid_inv_addFloorToMap:
  assumes "addFloorToMap g floorDepth = Inr g'" "grid_inv g"
  shows "grid_inv g'"
proof -
  have sub: "cells_with t g' \<subseteq> cells_with t g" if "t \<noteq> ROCK" for t
    using that by (auto simp: cells_with_def cell_addFloorToMap [OF assms(1)] split: if_splits)
  have src: "cell g' SAND_DROP_POINT \<noteq> Some SAND"
    using assms by (auto simp: grid_inv_def cell_addFloorToMap [OF assms(1)])
  show ?thesis
    using assms(2) sub [of AIR] sub [of SAND] src
    by (auto simp: grid_inv_def intro: finite_subset)
qed

lemma built_grid_no_sand:
  "\<forall>c \<in> rock_cells rockPaths. 0 \<le> fst c \<Longrightarrow> cells_with SAND (built_grid rockPaths) = {}"
  by (auto simp: cells_with_def cell_built_grid air_row_def split: if_splits)

lemma addFloorToMap_built_grid:
  obtains g' where "addFloorToMap (built_grid rockPaths) (maxDepth_of rockPaths + 2) = Inr g'"
  using maxDepth_of_nonneg [of rockPaths]
  by (simp add: addFloorToMap_eq has_row_def length_built_grid)

lemma addFloorToMap_no_sand:
  "addFloorToMap g floorDepth = Inr g' \<Longrightarrow> cells_with SAND g = {} \<Longrightarrow> cells_with SAND g' = {}"
  by (auto simp: cells_with_def cell_addFloorToMap split: if_splits)

subsection \<open>Properties of the builder\<close>

text \<open>
  C12. When \<^verbatim>\<open>generateMap\<close> succeeds, \<^verbatim>\<open>maxDepth\<close> is the deepest vertex depth
  (0 if there is none deeper), the grid has \<^verbatim>\<open>maxDepth + 5\<close> rows, and each cell
  holds rock if it is rasterized, the source marker at \<^verbatim>\<open>SAND_DROP_POINT\<close>
  otherwise, air inside the 1000 allocated columns, and nothing elsewhere.
\<close>

theorem generateMap_built:
  assumes "generateMap rockPaths = Inr (g, maxDepth)"
  shows "maxDepth = Max (insert 0 (fst ` set (concat rockPaths))) \<and> length g = nat (maxDepth + 5) \<and>
         (\<forall>p. cell g p = (if p \<in> rock_cells rockPaths then Some ROCK
                          else if p = SAND_DROP_POINT then Some START
                          else if 0 \<le> fst p \<and> fst p < maxDepth + 5 \<and> 0 \<le> snd p \<and> snd p < MAP_WIDTH
                          then Some AIR else None))"
proof -
  from assms have ok: "\<forall>c \<in> rock_cells rockPaths. 0 \<le> fst c"
    and g: "g = built_grid rockPaths" and m: "maxDepth = maxDepth_of rockPaths"
    by (auto simp: generateMap_eq split: if_splits)
  have len: "length g = nat (maxDepth + 5)"
    by (simp add: g m length_built_grid)
  have rows: "has_row g d \<longleftrightarrow> 0 \<le> d \<and> d < maxDepth + 5" for d
    using len maxDepth_of_nonneg [of rockPaths] by (auto simp: has_row_def m)
  have mx: "maxDepth = Max (insert 0 (fst ` set (concat rockPaths)))"
    using m by (simp only: maxDepth_of_eq)
  have cells: "cell g p = (if p \<in> rock_cells rockPaths then Some ROCK
                          else if p = SAND_DROP_POINT then Some START
                          else if 0 \<le> fst p \<and> fst p < maxDepth + 5 \<and> 0 \<le> snd p \<and> snd p < MAP_WIDTH
                          then Some AIR else None)" for p
  proof -
    have "cell g p = (if p \<in> rock_cells rockPaths then Some ROCK
                     else if p = SAND_DROP_POINT then Some START
                     else if has_row g (fst p) then air_row (snd p) else None)"
      using cell_built_grid [OF ok, of p] by (simp add: g)
    then show ?thesis by (simp add: rows air_row_def)
  qed
  from mx len cells show ?thesis by blast
qed

theorem generateMap_built_witness:
  "\<exists>g maxDepth. generateMap ledge_paths' = Inr (g, maxDepth) \<and>
     maxDepth = Max (insert 0 (fst ` set (concat ledge_paths'))) \<and> length g = nat (maxDepth + 5) \<and>
     (\<forall>p. cell g p = (if p \<in> rock_cells ledge_paths' then Some ROCK
                      else if p = SAND_DROP_POINT then Some START
                      else if 0 \<le> fst p \<and> fst p < maxDepth + 5 \<and> 0 \<le> snd p \<and> snd p < MAP_WIDTH
                      then Some AIR else None))"
proof -
  have run: "generateMap ledge_paths' = Inr (built_grid ledge_paths', maxDepth_of ledge_paths')"
    by (simp add: generateMap_eq rock_cells_def ledge_paths'_def generateRockCoordinatesFromPath_def
                  map_fits_def maxDepth_of_def
                  getRocksToFill_def)
  show ?thesis
    using run generateMap_built [OF run] by blast
qed

text \<open>
  C13. \<^verbatim>\<open>addFloorToMap\<close> raises exactly when the floor row does not exist;
  otherwise it keeps every other row, turns every present cell of the floor row
  into rock and leaves the rest of that row undefined, so that every cell of the
  floor row is blocked.
\<close>

theorem addFloorToMap_floor:
  "(addFloorToMap g floorDepth = Inl TypeError \<longleftrightarrow> \<not> has_row g floorDepth) \<and>
   (addFloorToMap g floorDepth = Inr g' \<longrightarrow>
      length g' = length g \<and> (\<forall>h. blocked g' (floorDepth, h)) \<and>
      (\<forall>h. 0 \<le> h \<and> cell g (floorDepth, h) \<noteq> None \<longrightarrow> cell g' (floorDepth, h) = Some ROCK) \<and>
      (\<forall>p. fst p \<noteq> floorDepth \<longrightarrow> cell g' p = cell g p))"
proof -
  have err: "addFloorToMap g floorDepth = Inl TypeError \<longleftrightarrow> \<not> has_row g floorDepth"
    by (simp add: addFloorToMap_eq)
  have ok: "length g' = length g \<and> (\<forall>h. blocked g' (floorDepth, h)) \<and>
      (\<forall>h. 0 \<le> h \<and> cell g (floorDepth, h) \<noteq> None \<longrightarrow> cell g' (floorDepth, h) = Some ROCK) \<and>
      (\<forall>p. fst p \<noteq> floorDepth \<longrightarrow> cell g' p = cell g p)"
    if run: "addFloorToMap g floorDepth = Inr g'"
    using cell_addFloorToMap [OF run] addFloorToMap_floor_blocked [OF run] by simp
  from err ok show ?thesis by blast
qed

theorem addFloorToMap_floor_witness:
  "\<exists>g'. addFloorToMap [air_row, air_row] 1 = Inr g' \<and>
     (addFloorToMap [air_row, air_row] 1 = Inl TypeError \<longleftrightarrow> \<not> has_row [air_row, air_row] 1) \<and>
     length g' = length [air_row, air_row] \<and> (\<forall>h. blocked g' (1, h)) \<and>
     (\<forall>h. 0 \<le> h \<and> cell [air_row, air_row] (1, h) \<noteq> None \<longrightarrow> cell g' (1, h) = Some ROCK) \<and>
     (\<forall>p. fst p \<noteq> 1 \<longrightarrow> cell g' p = cell [air_row, air_row] p)"
proof -
  obtain g' where run: "addFloorToMap [air_row, air_row] 1 = Inr g'"
    by (simp add: addFloorToMap_eq has_row_def)
  show ?thesis
    using run addFloorToMap_floor [of "[air_row, air_row]" 1 g'] by auto
qed

end
