(* ===== verification/Sand_Drop.thy ===== *)
theory Sand_Drop
  imports Sand_Grid
begin

text \<open>
  The settling engine of \<^verbatim>\<open>src/day14/task.ts\<close>: \<^verbatim>\<open>sandDrop\<close>, with the two
  writes of each move (\<open>move_unit\<close>: the old cell becomes air, the new one sand),
  its three reads through \<^verbatim>\<open>isBlocked\<close>, its early return at the depth limit and
  its final \<^verbatim>\<open>coordinates !== SAND_DROP_POINT\<close>. That test compares object
  identity: it is false only for the array object \<^verbatim>\<open>SAND_DROP_POINT\<close> itself,
  which is the argument of the outermost call, while every recursive call gets a
  fresh array. The flag \<open>is_drop_point\<close> is that identity.

  The abstract contract is \<open>fall\<close>: the descent of the spec (straight down, then
  down-left, then down-right, escape at the depth limit) over a fixed predicate of
  blocked cells, returning where the unit rests or escapes. \<open>sandDrop_fall\<close>
  shows that \<^verbatim>\<open>sandDrop\<close> computes exactly \<open>fall\<close> on the blocked cells of the
  grid it starts from, together with the net effect \<open>drop_effect\<close> of its writes:
  the start cell becomes air and the final cell sand, whenever the unit moved.
\<close>

definition move_unit :: "grid \<Rightarrow> coord \<Rightarrow> coord \<Rightarrow> js_error + grid" where
  "move_unit g p q =
     (case write_cell g (fst p) (snd p) AIR of
        Inl e \<Rightarrow> Inl e
      | Inr g1 \<Rightarrow> write_cell g1 (fst q) (snd q) SAND)"

function sandDrop :: "grid \<Rightarrow> coord \<Rightarrow> bool \<Rightarrow> int \<Rightarrow> js_error + grid \<times> bool" where
  "sandDrop g (depth, horizontal) is_drop_point maxDepth =
     (if maxDepth \<le> depth then Inr (g, False)
      else case isBlocked g (depth + 1) horizontal of
        Inl e \<Rightarrow> Inl e
      | Inr blockedBottom \<Rightarrow>
          if \<not> blockedBottom then
            (case move_unit g (depth, horizontal) (depth + 1, horizontal) of
               Inl e \<Rightarrow> Inl e
             | Inr g' \<Rightarrow> sandDrop g' (depth + 1, horizontal) False maxDepth)
          else case isBlocked g (depth + 1) (horizontal - 1) of
            Inl e \<Rightarrow> Inl e
          | Inr blockedBottomLeft \<Rightarrow>
              if \<not> blockedBottomLeft then
                (case move_unit g (depth, horizontal) (depth + 1, horizontal - 1) of
                   Inl e \<Rightarrow> Inl e
                 | Inr g' \<Rightarrow> sandDrop g' (depth + 1, horizontal - 1) False maxDepth)
              else case isBlocked g (depth + 1) (horizontal + 1) of
                Inl e \<Rightarrow> Inl e
              | Inr blockBottomRight \<Rightarrow>
                  if \<not> blockBottomRight then
                    (case move_unit g (depth, horizontal) (depth + 1, horizontal + 1) of
                       Inl e \<Rightarrow> Inl e
                     | Inr g' \<Rightarrow> sandDrop g' (depth + 1, horizontal + 1) False maxDepth)
                  else Inr (g, \<not> is_drop_point))"
  by pat_completeness auto
termination
  by (relation "measure (\<lambda>(g, (d, h), b, m). nat (m - d))") auto

declare sandDrop.simps [simp del]

subsection \<open>The abstract descent\<close>

datatype outcome = Rest coord | Escape coord

function fall :: "(coord \<Rightarrow> bool) \<Rightarrow> int \<Rightarrow> coord \<Rightarrow> outcome" where
  "fall B lim (d, h) =
     (if lim \<le> d then Escape (d, h)
      else if \<not> B (d + 1, h) then fall B lim (d + 1, h)
      else if \<not> B (d + 1, h - 1) then fall B lim (d + 1, h - 1)
      else if \<not> B (d + 1, h + 1) then fall B lim (d + 1, h + 1)
      else Rest (d, h))"
  by pat_completeness auto
termination
  by (relation "measure (\<lambda>(B, lim, (d, h)). nat (lim - d))") auto

declare fall.simps [simp del]

fun final_pos :: "outcome \<Rightarrow> coord" where
  "final_pos (Rest p) = p"
| "final_pos (Escape p) = p"

definition drop_effect :: "grid \<Rightarrow> coord \<Rightarrow> bool \<Rightarrow> outcome \<Rightarrow> grid \<times> bool" where
  "drop_effect g p is_drop_point out =
     ((if final_pos out = p then g else set_cell (set_cell g p AIR) (final_pos out) SAND),
      (case out of Rest q \<Rightarrow> q \<noteq> p \<or> \<not> is_drop_point | Escape q \<Rightarrow> False))"

subsection \<open>Properties of the descent\<close>

lemma fall_cong:
  "(\<And>q. fst p < fst q \<Longrightarrow> B q = B' q) \<Longrightarrow> fall B lim p = fall B' lim p"
proof (induction B lim p rule: fall.induct)
  case (1 B lim d h)
  have eq: "B (d + 1, k) = B' (d + 1, k)" for k
    using "1.prems" by simp
  have prems: "fst (d + 1, k) < fst q \<Longrightarrow> B q = B' q" for k q
    using "1.prems" by simp
  show ?case
    using "1.IH" prems
    by (simp add: fall.simps [of B lim d h] fall.simps [of B' lim d h] eq)
qed

lemma fall_depth_mono: "fst p \<le> fst (final_pos (fall B lim p))"
proof (induction B lim p rule: fall.induct)
  case (1 B lim d h)
  then show ?case
    by (simp add: fall.simps [of B lim d h]) fastforce
qed

lemma fall_Rest_stuck:
  "fall B lim p = Rest q \<Longrightarrow>
     fst q < lim \<and> B (fst q + 1, snd q) \<and> B (fst q + 1, snd q - 1) \<and> B (fst q + 1, snd q + 1)"
proof (induction B lim p rule: fall.induct)
  case (1 B lim d h)
  then show ?case
    by (auto simp: fall.simps [of B lim d h] split: if_splits)
qed

lemma fall_Escape_depth:
  "fall B lim p = Escape q \<Longrightarrow> lim \<le> fst q \<and> (q = p \<or> fst q = lim)"
proof (induction B lim p rule: fall.induct)
  case (1 B lim d h)
  show ?case
  proof (cases "lim \<le> d")
    case True
    with "1.prems" show ?thesis by (auto simp: fall.simps [of B lim d h])
  next
    case False
    with "1.prems" "1.IH" show ?thesis
      by (simp add: fall.simps [of B lim d h] split: if_splits) fastforce+
  qed
qed

lemma fall_final_free:
  "final_pos (fall B lim p) \<noteq> p \<Longrightarrow> \<not> B (final_pos (fall B lim p))"
proof (induction B lim p rule: fall.induct)
  case (1 B lim d h)
  then show ?case
    by (simp add: fall.simps [of B lim d h] split: if_splits) (metis fall.simps final_pos.simps)+
qed

lemma fall_spread:
  "\<bar>snd (final_pos (fall B lim p)) - snd p\<bar> \<le> fst (final_pos (fall B lim p)) - fst p"
proof (induction B lim p rule: fall.induct)
  case (1 B lim d h)
  then show ?case
    by (simp add: fall.simps [of B lim d h] split: if_splits) arith+
qed

lemma fall_floor_Rest:
  "(\<And>k. B (lim, k)) \<Longrightarrow> fst p < lim \<Longrightarrow> \<exists>q. fall B lim p = Rest q"
proof (induction B lim p rule: fall.induct)
  case (1 B lim d h)
  show ?case
  proof (cases "d + 1 < lim")
    case True
    with "1.IH" "1.prems" show ?thesis
      by (simp add: fall.simps [of B lim d h])
  next
    case False
    with "1.prems" have "d + 1 = lim" by simp
    with "1.prems" show ?thesis
      by (simp add: fall.simps [of B lim d h])
  qed
qed

subsection \<open>Refinement: \<open>sandDrop\<close> implements \<open>fall\<close>\<close>

lemma move_unit_eq:
  "has_row g (fst p) \<Longrightarrow> has_row g (fst q) \<Longrightarrow>
     move_unit g p q = Inr (set_cell (set_cell g p AIR) q SAND)"
  by (simp add: move_unit_def write_cell_eq)

lemma drop_effect_move:
  assumes "cell g q = Some AIR" "q \<noteq> p" "final_pos out \<noteq> p"
  shows "drop_effect (set_cell (set_cell g p AIR) q SAND) q False out = drop_effect g p is_drop_point out"
proof -
  have same: "set_cell (set_cell g p AIR) q AIR = set_cell g p AIR"
    using assms(1,2) by (intro set_cell_same) simp
  show ?thesis
    using assms(3) by (cases out) (auto simp: drop_effect_def same)
qed

lemma blocked_after_move:
  "fst p < fst r \<Longrightarrow> fst q < fst r \<Longrightarrow> blocked (set_cell (set_cell g p v) q w) r = blocked g r"
  by (auto simp: blocked_def)

theorem sandDrop_fall:
  assumes "0 \<le> d" "lim < int (length g)"
  shows "sandDrop g (d, h) is_drop_point lim =
           Inr (drop_effect g (d, h) is_drop_point (fall (blocked g) lim (d, h)))"
  using assms
proof (induction "nat (lim - d)" arbitrary: g d h is_drop_point rule: less_induct)
  case less
  show ?case
  proof (cases "lim \<le> d")
    case True
    then show ?thesis
      by (simp add: sandDrop.simps [of g d h] fall.simps [of _ lim d h] drop_effect_def)
  next
    case False
    have rows: "has_row g d" "has_row g (d + 1)"
      using less.prems False by (auto simp: has_row_def)
    have step: "sandDrop (set_cell (set_cell g (d, h) AIR) (d + 1, k) SAND) (d + 1, k) False lim =
                  Inr (drop_effect g (d, h) is_drop_point (fall (blocked g) lim (d + 1, k)))"
      if free: "cell g (d + 1, k) = Some AIR" for k
    proof -
      let ?g' = "set_cell (set_cell g (d, h) AIR) (d + 1, k) SAND"
      have "sandDrop ?g' (d + 1, k) False lim =
              Inr (drop_effect ?g' (d + 1, k) False (fall (blocked ?g') lim (d + 1, k)))"
        using less.hyps [of "d + 1" ?g'] less.prems False by simp
      also have "fall (blocked ?g') lim (d + 1, k) = fall (blocked g) lim (d + 1, k)"
        by (rule fall_cong) (simp add: blocked_after_move)
      also have "drop_effect ?g' (d + 1, k) False (fall (blocked g) lim (d + 1, k)) =
                   drop_effect g (d, h) is_drop_point (fall (blocked g) lim (d + 1, k))"
      proof (rule drop_effect_move)
        show "final_pos (fall (blocked g) lim (d + 1, k)) \<noteq> (d, h)"
          using fall_depth_mono [of "(d + 1, k)" "blocked g" lim] by auto
      qed (use free in simp_all)
      finally show ?thesis .
    qed
    show ?thesis
      using False rows step
      by (auto simp: sandDrop.simps [of g d h] fall.simps [of _ lim d h] isBlocked_eq
                     move_unit_eq blocked_def drop_effect_def)
  qed
qed

end
