(* ===== verification/Sand_Driver.thy ===== *)
theory Sand_Driver
  imports Grid_Builder Sand_Drop
begin

text \<open>
  The simulation driver of \<^verbatim>\<open>src/day14/task.ts\<close>: the loop
  \<^verbatim>\<open>while (sandDrop(map, SAND_DROP_POINT, limit)) sandCount += 1\<close> shared by
  \<^verbatim>\<open>task1\<close> (limit \<^verbatim>\<open>maxDepth\<close>) and \<^verbatim>\<open>task2\<close> (limit \<^verbatim>\<open>floorDepth\<close>,
  after \<^verbatim>\<open>addFloorToMap\<close>, and one more unit added to the count). The loop is a
  \<^theory_text>\<open>partial_function (option)\<close>: \<open>None\<close> would be a run that never stops,
  and \<open>drop_loop_terminates\<close> shows that it does not happen. Each task returns the
  final grid (what the program prints, cropped) and the number it reports.
\<close>

partial_function (option) drop_loop :: "grid \<Rightarrow> int \<Rightarrow> nat \<Rightarrow> (js_error + grid \<times> nat) option" where
  "drop_loop g limit sandCount =
     (case sandDrop g SAND_DROP_POINT True limit of
        Inl e \<Rightarrow> Some (Inl e)
      | Inr (g', continue) \<Rightarrow>
          if continue then drop_loop g' limit (sandCount + 1) else Some (Inr (g', sandCount)))"

declare drop_loop.simps [code]

definition task1 :: "coord list list \<Rightarrow> (js_error + grid \<times> nat) option" where
  "task1 rockPaths =
     (case generateMap rockPaths of
        Inl e \<Rightarrow> Some (Inl e)
      | Inr (g, maxDepth) \<Rightarrow> drop_loop g maxDepth 0)"

definition task2 :: "coord list list \<Rightarrow> (js_error + grid \<times> nat) option" where
  "task2 rockPaths =
     (case generateMap rockPaths of
        Inl e \<Rightarrow> Some (Inl e)
      | Inr (g, maxDepth) \<Rightarrow>
          (let floorDepth = maxDepth + 2 in
           case addFloorToMap g floorDepth of
             Inl e \<Rightarrow> Some (Inl e)
           | Inr g' \<Rightarrow> map_option (map_sum id (\<lambda>(g'', sandCount). (g'', sandCount + 1)))
                                   (drop_loop g' floorDepth 0)))"

subsection \<open>One unit from the source\<close>

lemma sandDrop_source:
  "lim < int (length g) \<Longrightarrow>
     sandDrop g SAND_DROP_POINT True lim =
       Inr (drop_effect g SAND_DROP_POINT True (fall (blocked g) lim SAND_DROP_POINT))"
  using sandDrop_fall [of 0 lim g 500 True] by (simp add: SAND_DROP_POINT_def)

lemma sandDrop_source_continue:
  assumes "lim < int (length g)" "sandDrop g SAND_DROP_POINT True lim = Inr (g', True)"
  obtains q where "fall (blocked g) lim SAND_DROP_POINT = Rest q" "q \<noteq> SAND_DROP_POINT"
    "cell g q = Some AIR" "g' = set_cell (set_cell g SAND_DROP_POINT AIR) q SAND"
proof (cases "fall (blocked g) lim SAND_DROP_POINT")
  case (Rest q)
  with assms have "q \<noteq> SAND_DROP_POINT" "g' = set_cell (set_cell g SAND_DROP_POINT AIR) q SAND"
    by (auto simp: sandDrop_source drop_effect_def)
  moreover from this Rest have "cell g q = Some AIR"
    using fall_final_free [of "blocked g" lim SAND_DROP_POINT] by (simp add: blocked_def)
  ultimately show ?thesis using Rest that by blast
next
  case (Escape q)
  with assms show ?thesis by (simp add: sandDrop_source drop_effect_def)
qed

lemma sandDrop_source_stop:
  assumes "lim < int (length g)" "sandDrop g SAND_DROP_POINT True lim = Inr (g', False)"
  shows "(fall (blocked g) lim SAND_DROP_POINT = Rest SAND_DROP_POINT \<and> g' = g) \<or>
         (\<exists>q. fall (blocked g) lim SAND_DROP_POINT = Escape q \<and>
              g' = (if q = SAND_DROP_POINT then g else set_cell (set_cell g SAND_DROP_POINT AIR) q SAND))"
  using assms
  by (cases "fall (blocked g) lim SAND_DROP_POINT") (auto simp: sandDrop_source drop_effect_def)

subsection \<open>The states the loop passes through\<close>

text \<open>
  \<open>settles limit g n g' m\<close>: from grid \<open>g\<close> with count \<open>n\<close>, the loop reaches
  grid \<open>g'\<close> with count \<open>m\<close> by iterations whose \<^verbatim>\<open>sandDrop\<close> returned true.
\<close>

inductive settles :: "int \<Rightarrow> grid \<Rightarrow> nat \<Rightarrow> grid \<Rightarrow> nat \<Rightarrow> bool" for limit where
  settles_refl: "settles limit g n g n"
| settles_step: "sandDrop g SAND_DROP_POINT True limit = Inr (g', True) \<Longrightarrow>
                 settles limit g' (Suc n) g'' m \<Longrightarrow> settles limit g n g'' m"

text \<open>The iteration that ends the loop, from grid \<open>gl\<close> with count \<open>m\<close>.\<close>

definition loop_exit :: "int \<Rightarrow> grid \<Rightarrow> nat \<Rightarrow> js_error + grid \<times> nat \<Rightarrow> bool" where
  "loop_exit limit gl m r \<longleftrightarrow>
     (case sandDrop gl SAND_DROP_POINT True limit of
        Inl e \<Rightarrow> r = Inl e
      | Inr (g', continue) \<Rightarrow> \<not> continue \<and> r = Inr (g', m))"

lemma loop_exit_Inr:
  "loop_exit limit gl m (Inr (g', n)) \<longleftrightarrow> sandDrop gl SAND_DROP_POINT True limit = Inr (g', False) \<and> n = m"
  by (auto simp: loop_exit_def split: sum.splits)

lemma drop_loop_settles:
  assumes "drop_loop g limit n = Some r"
  shows "\<exists>gl m. settles limit g n gl m \<and> loop_exit limit gl m r"
proof (rule drop_loop.raw_induct [OF _ assms])
  fix f :: "grid \<Rightarrow> int \<Rightarrow> nat \<Rightarrow> (js_error + grid \<times> nat) option" and g limit n r
  assume IH: "\<And>g limit n r. f g limit n = Some r \<Longrightarrow> \<exists>gl m. settles limit g n gl m \<and> loop_exit limit gl m r"
    and run: "(case sandDrop g SAND_DROP_POINT True limit of
                 Inl e \<Rightarrow> Some (Inl e)
               | Inr (g', continue) \<Rightarrow>
                   if continue then f g' limit (n + 1) else Some (Inr (g', n))) = Some r"
  show "\<exists>gl m. settles limit g n gl m \<and> loop_exit limit gl m r"
  proof (cases "sandDrop g SAND_DROP_POINT True limit")
    case (Inl e)
    with run show ?thesis
      by (intro exI [of _ g] exI [of _ n]) (auto intro: settles_refl simp: loop_exit_def)
  next
    case (Inr res)
    obtain g' continue where res: "res = (g', continue)" by (cases res)
    show ?thesis
    proof (cases continue)
      case True
      with run Inr res have "f g' limit (Suc n) = Some r" by simp
      from IH [OF this] obtain gl m where "settles limit g' (Suc n) gl m" and last: "loop_exit limit gl m r"
        by blast
      moreover have "sandDrop g SAND_DROP_POINT True limit = Inr (g', True)"
        using Inr res True by simp
      then have "settles limit g n gl m"
        using \<open>settles limit g' (Suc n) gl m\<close> by (rule settles_step)
      ultimately show ?thesis by blast
    next
      case False
      with run Inr res show ?thesis
        by (intro exI [of _ g] exI [of _ n]) (auto intro: settles_refl simp: loop_exit_def)
    qed
  qed
qed

subsection \<open>One settled unit\<close>

lemma cells_with_SAND_settle:
  assumes "grid_inv g" "cell g q = Some AIR" "q \<noteq> SAND_DROP_POINT"
  shows "cells_with SAND (set_cell (set_cell g SAND_DROP_POINT AIR) q SAND) = insert q (cells_with SAND g)"
proof -
  have rq: "has_row g (fst q)" using cell_Some_has_row [OF assms(2)] .
  then have "has_row g (fst SAND_DROP_POINT)"
    by (cases g) (auto simp: has_row_def SAND_DROP_POINT_def)
  with rq assms(1) show ?thesis
    by (auto simp: cells_with_set_cell grid_inv_def)
qed

definition free_measure :: "grid \<Rightarrow> nat" where
  "free_measure g = card (cells_with AIR g) + (if cell g SAND_DROP_POINT = Some AIR then 0 else 1)"

lemma settle_step_facts:
  assumes inv: "grid_inv g" and free: "cell g q = Some AIR" and q: "q \<noteq> SAND_DROP_POINT"
  defines "g' \<equiv> set_cell (set_cell g SAND_DROP_POINT AIR) q SAND"
  shows "grid_inv g'" and "free_measure g' = free_measure g - 1" and "0 < free_measure g"
    and "card (cells_with SAND g') = Suc (card (cells_with SAND g))"
proof -
  have rq: "has_row g (fst q)" using cell_Some_has_row [OF free] .
  then have r0: "has_row g (fst SAND_DROP_POINT)"
    by (cases g) (auto simp: has_row_def SAND_DROP_POINT_def)
  have air: "cells_with AIR g' = insert SAND_DROP_POINT (cells_with AIR g) - {q}"
    using rq r0 by (simp add: g'_def cells_with_set_cell)
  have sand: "cells_with SAND g' = insert q (cells_with SAND g)"
    using rq r0 inv by (auto simp: g'_def cells_with_set_cell grid_inv_def)
  have qA: "q \<in> cells_with AIR g" using free by simp
  have qS: "q \<notin> cells_with SAND g" using free by simp
  have src: "cell g' SAND_DROP_POINT = Some AIR" using q r0 by (simp add: g'_def)
  have fin: "finite (cells_with AIR g)" using inv by (simp add: grid_inv_def)
  show "grid_inv g'"
    using inv src by (simp add: grid_inv_def air sand)
  have "card (cells_with AIR g') =
          (if SAND_DROP_POINT \<in> cells_with AIR g then card (cells_with AIR g) - 1
           else card (cells_with AIR g))"
    unfolding air using fin qA q by (rule card_insert_Diff_member)
  then show "free_measure g' = free_measure g - 1"
    using src by (simp add: free_measure_def)
  show "0 < free_measure g"
    using fin qA by (simp add: free_measure_def card_gt_0_iff, blast)
  show "card (cells_with SAND g') = Suc (card (cells_with SAND g))"
    using inv qS by (simp add: sand grid_inv_def)
qed

lemma settles_inv:
  assumes "settles limit g n g' m" "grid_inv g" "limit < int (length g)"
  shows "grid_inv g' \<and> length g' = length g \<and> n \<le> m \<and>
         card (cells_with SAND g') = card (cells_with SAND g) + (m - n)"
  using assms
proof (induction rule: settles.induct)
  case (settles_refl g n)
  then show ?case by simp
next
  case (settles_step g g1 n g'' m)
  from settles_step.prems(2) settles_step.hyps(1) obtain q where
    "fall (blocked g) limit SAND_DROP_POINT = Rest q" "q \<noteq> SAND_DROP_POINT" "cell g q = Some AIR"
    and g1: "g1 = set_cell (set_cell g SAND_DROP_POINT AIR) q SAND"
    by (rule sandDrop_source_continue)
  with settles_step.prems have "grid_inv g1" "card (cells_with SAND g1) = Suc (card (cells_with SAND g))"
    by (simp_all add: settle_step_facts)
  moreover have "length g1 = length g" by (simp add: g1)
  ultimately show ?case
    using settles_step.IH settles_step.prems by auto
qed

subsection \<open>Termination of the loop\<close>

lemma drop_loop_terminates:
  assumes "grid_inv g" "limit < int (length g)"
  shows "\<exists>g' m. drop_loop g limit n = Some (Inr (g', m))"
  using assms
proof (induction "free_measure g" arbitrary: g n rule: less_induct)
  case less
  obtain g1 continue where run: "sandDrop g SAND_DROP_POINT True limit = Inr (g1, continue)"
    using sandDrop_source [OF less.prems(2)] by (simp add: drop_effect_def)
  show ?case
  proof (cases continue)
    case True
    from run True have "sandDrop g SAND_DROP_POINT True limit = Inr (g1, True)" by simp
    with less.prems(2) obtain q where
      "fall (blocked g) limit SAND_DROP_POINT = Rest q" "q \<noteq> SAND_DROP_POINT" "cell g q = Some AIR"
      and g1: "g1 = set_cell (set_cell g SAND_DROP_POINT AIR) q SAND"
      by (rule sandDrop_source_continue)
    with less.prems have "grid_inv g1" "free_measure g1 < free_measure g"
      using settle_step_facts [of g q] by simp_all
    moreover have "limit < int (length g1)" using less.prems by (simp add: g1)
    ultimately obtain g' m where "drop_loop g1 limit (n + 1) = Some (Inr (g', m))"
      using less.hyps by blast
    with run True show ?thesis by (simp add: drop_loop.simps [of g limit n])
  next
    case False
    with run show ?thesis by (simp add: drop_loop.simps [of g limit n])
  qed
qed

subsection \<open>What settling leaves untouched, and where sand lies\<close>

lemma settles_frame:
  assumes "settles limit g n g' m" "limit < int (length g)"
    "p \<noteq> SAND_DROP_POINT" "cell g p \<noteq> Some AIR"
  shows "cell g' p = cell g p"
  using assms
proof (induction rule: settles.induct)
  case (settles_refl g n)
  then show ?case by simp
next
  case (settles_step g g1 n g'' m)
  from settles_step.prems(1) settles_step.hyps(1) obtain q where
    "fall (blocked g) limit SAND_DROP_POINT = Rest q" "q \<noteq> SAND_DROP_POINT" "cell g q = Some AIR"
    and g1: "g1 = set_cell (set_cell g SAND_DROP_POINT AIR) q SAND"
    by (rule sandDrop_source_continue)
  with settles_step.prems have "cell g1 p = cell g p" "p \<noteq> q"
    by (auto simp: g1)
  with settles_step.IH settles_step.prems show ?case
    by (simp add: g1)
qed

definition sand_ok :: "int \<Rightarrow> grid \<Rightarrow> bool" where
  "sand_ok limit g \<longleftrightarrow>
     (\<forall>p. cell g p = Some SAND \<longrightarrow>
          fst p < limit \<and> \<bar>snd p - snd SAND_DROP_POINT\<bar> \<le> fst p - fst SAND_DROP_POINT)"

lemma settles_sand_ok:
  assumes "settles limit g n g' m" "limit < int (length g)" "sand_ok limit g"
  shows "sand_ok limit g'"
  using assms
proof (induction rule: settles.induct)
  case (settles_refl g n)
  then show ?case by simp
next
  case (settles_step g g1 n g'' m)
  from settles_step.prems(1) settles_step.hyps(1) obtain q where
    rest: "fall (blocked g) limit SAND_DROP_POINT = Rest q" and "q \<noteq> SAND_DROP_POINT"
    and g1: "g1 = set_cell (set_cell g SAND_DROP_POINT AIR) q SAND"
    by (rule sandDrop_source_continue)
  have "fst q < limit" using fall_Rest_stuck [OF rest] by simp
  moreover have "\<bar>snd q - snd SAND_DROP_POINT\<bar> \<le> fst q - fst SAND_DROP_POINT"
    using fall_spread [of "blocked g" limit SAND_DROP_POINT] rest by simp
  ultimately have "sand_ok limit g1"
    using settles_step.prems(2) \<open>q \<noteq> SAND_DROP_POINT\<close> by (auto simp: sand_ok_def g1)
  with settles_step.IH settles_step.prems(1) show ?case by (simp add: g1)
qed

lemma sand_ok_no_sand: "cells_with SAND g = {} \<Longrightarrow> sand_ok limit g"
  by (auto simp: sand_ok_def cells_with_def)

subsection \<open>The two runs\<close>

lemma task1_eq:
  "task1 rockPaths =
     (if \<not> map_fits rockPaths then Some (Inl RangeError)
      else if \<forall>c \<in> rock_cells rockPaths. 0 \<le> fst c
      then drop_loop (built_grid rockPaths) (maxDepth_of rockPaths) 0 else Some (Inl TypeError))"
  by (simp add: task1_def generateMap_eq)

lemma task2_eq:
  "task2 rockPaths =
     (if \<not> map_fits rockPaths then Some (Inl RangeError)
      else if \<forall>c \<in> rock_cells rockPaths. 0 \<le> fst c
      then (case addFloorToMap (built_grid rockPaths) (maxDepth_of rockPaths + 2) of
              Inl e \<Rightarrow> Some (Inl e)
            | Inr g' \<Rightarrow> map_option (map_sum id (\<lambda>(g'', sandCount). (g'', sandCount + 1)))
                          (drop_loop g' (maxDepth_of rockPaths + 2) 0))
      else Some (Inl TypeError))"
  by (simp add: task2_def generateMap_eq Let_def)

lemma task1_run:
  assumes "task1 rockPaths = Some (Inr (g', n))"
  obtains gl where "\<forall>c \<in> rock_cells rockPaths. 0 \<le> fst c"
    "settles (maxDepth_of rockPaths) (built_grid rockPaths) 0 gl n"
    "sandDrop gl SAND_DROP_POINT True (maxDepth_of rockPaths) = Inr (g', False)"
proof -
  have fits: "map_fits rockPaths" and ok: "\<forall>c \<in> rock_cells rockPaths. 0 \<le> fst c"
    using assms by (auto simp: task1_eq split: if_splits)
  with assms have "drop_loop (built_grid rockPaths) (maxDepth_of rockPaths) 0 = Some (Inr (g', n))"
    by (simp add: task1_eq)
  from drop_loop_settles [OF this] obtain gl m where
    st: "settles (maxDepth_of rockPaths) (built_grid rockPaths) 0 gl m" and
    last: "loop_exit (maxDepth_of rockPaths) gl m (Inr (g', n))"
    by blast
  from last have "sandDrop gl SAND_DROP_POINT True (maxDepth_of rockPaths) = Inr (g', False) \<and> m = n"
    by (simp add: loop_exit_Inr)
  with st ok that show ?thesis by blast
qed

lemma task2_run:
  assumes "task2 rockPaths = Some (Inr (g', n))"
  obtains gf gl k where "\<forall>c \<in> rock_cells rockPaths. 0 \<le> fst c"
    "addFloorToMap (built_grid rockPaths) (maxDepth_of rockPaths + 2) = Inr gf"
    "settles (maxDepth_of rockPaths + 2) gf 0 gl k" "n = k + 1"
    "sandDrop gl SAND_DROP_POINT True (maxDepth_of rockPaths + 2) = Inr (g', False)"
proof -
  have fits: "map_fits rockPaths" and ok: "\<forall>c \<in> rock_cells rockPaths. 0 \<le> fst c"
    using assms by (auto simp: task2_eq split: if_splits)
  obtain gf where gf: "addFloorToMap (built_grid rockPaths) (maxDepth_of rockPaths + 2) = Inr gf"
    by (rule addFloorToMap_built_grid)
  with assms fits ok have "map_option (map_sum id (\<lambda>(g'', sandCount). (g'', sandCount + 1)))
                        (drop_loop gf (maxDepth_of rockPaths + 2) 0) = Some (Inr (g', n))"
    by (simp add: task2_eq)
  then obtain z where z: "drop_loop gf (maxDepth_of rockPaths + 2) 0 = Some z"
    "map_sum id (\<lambda>(g'', sandCount). (g'', sandCount + 1)) z = Inr (g', n)"
    by auto
  from z(2) obtain k where "z = Inr (g', k)" "n = k + 1"
    by (cases z) auto
  with z(1) obtain k where "drop_loop gf (maxDepth_of rockPaths + 2) 0 = Some (Inr (g', k))" "n = k + 1"
    by blast
  note k = this
  from drop_loop_settles [OF k(1)] obtain gl m where
    st: "settles (maxDepth_of rockPaths + 2) gf 0 gl m" and
    last: "loop_exit (maxDepth_of rockPaths + 2) gl m (Inr (g', k))"
    by blast
  from last have "sandDrop gl SAND_DROP_POINT True (maxDepth_of rockPaths + 2) = Inr (g', False) \<and> m = k"
    by (simp add: loop_exit_Inr)
  with st k(2) ok gf that show ?thesis by blast
qed

lemma built_grid_limits:
  "maxDepth_of rockPaths < int (length (built_grid rockPaths))"
  "maxDepth_of rockPaths + 2 < int (length (built_grid rockPaths))"
  using maxDepth_of_nonneg [of rockPaths] by (simp_all add: length_built_grid)

lemma task1_succeeds:
  assumes "map_fits rockPaths" "\<forall>c \<in> rock_cells rockPaths. 0 \<le> fst c"
  shows "\<exists>g' k. task1 rockPaths = Some (Inr (g', k))"
proof -
  obtain g' k where "drop_loop (built_grid rockPaths) (maxDepth_of rockPaths) 0 = Some (Inr (g', k))"
    using drop_loop_terminates grid_inv_built_grid [OF assms(2)] built_grid_limits(1) by blast
  with assms show ?thesis by (simp add: task1_eq)
qed

lemma task2_succeeds:
  assumes "map_fits rockPaths" "\<forall>c \<in> rock_cells rockPaths. 0 \<le> fst c"
  shows "\<exists>g' k. task2 rockPaths = Some (Inr (g', k))"
proof -
  obtain gf where gf: "addFloorToMap (built_grid rockPaths) (maxDepth_of rockPaths + 2) = Inr gf"
    by (rule addFloorToMap_built_grid)
  have "maxDepth_of rockPaths + 2 < int (length gf)"
    using built_grid_limits(2) cell_addFloorToMap(1) [OF gf] by simp
  then obtain g' k where "drop_loop gf (maxDepth_of rockPaths + 2) 0 = Some (Inr (g', k))"
    using drop_loop_terminates grid_inv_addFloorToMap [OF gf grid_inv_built_grid [OF assms(2)]] by blast
  with assms gf show ?thesis by (simp add: task2_eq)
qed

lemma task2_final:
  assumes "task2 rockPaths = Some (Inr (g, n))"
  obtains gf k where "\<forall>c \<in> rock_cells rockPaths. 0 \<le> fst c"
    "addFloorToMap (built_grid rockPaths) (maxDepth_of rockPaths + 2) = Inr gf"
    "settles (maxDepth_of rockPaths + 2) gf 0 g k" "n = k + 1"
    "grid_inv g" "card (cells_with SAND g) = k" "sand_ok (maxDepth_of rockPaths + 2) g"
    "fall (blocked g) (maxDepth_of rockPaths + 2) SAND_DROP_POINT = Rest SAND_DROP_POINT"
proof -
  let ?f = "maxDepth_of rockPaths + 2"
  from assms obtain gf gl k where ok: "\<forall>c \<in> rock_cells rockPaths. 0 \<le> fst c"
    and gf: "addFloorToMap (built_grid rockPaths) ?f = Inr gf"
    and st: "settles ?f gf 0 gl k" and nk: "n = k + 1"
    and last: "sandDrop gl SAND_DROP_POINT True ?f = Inr (g, False)"
    by (rule task2_run)
  have inv0: "grid_inv gf"
    by (rule grid_inv_addFloorToMap [OF gf grid_inv_built_grid [OF ok]])
  have nosand: "cells_with SAND gf = {}"
    by (rule addFloorToMap_no_sand [OF gf built_grid_no_sand [OF ok]])
  have len: "?f < int (length gf)"
    using built_grid_limits(2) cell_addFloorToMap(1) [OF gf] by simp
  from settles_inv [OF st inv0 len] nosand have inv: "grid_inv gl" "length gl = length gf"
    "card (cells_with SAND gl) = k"
    by simp_all
  have sok: "sand_ok ?f gl"
    by (rule settles_sand_ok [OF st len sand_ok_no_sand [OF nosand]])
  have floor: "blocked gl (?f, h)" for h
  proof -
    have "(?f, h) \<noteq> SAND_DROP_POINT"
      using maxDepth_of_nonneg [of rockPaths] by (simp add: SAND_DROP_POINT_def)
    with addFloorToMap_floor_blocked [OF gf, of h] have "cell gl (?f, h) = cell gf (?f, h)"
      by (intro settles_frame [OF st len]) (simp_all add: blocked_def)
    with addFloorToMap_floor_blocked [OF gf, of h] show ?thesis by (simp add: blocked_def)
  qed
  have "\<exists>q. fall (blocked gl) ?f SAND_DROP_POINT = Rest q"
    using fall_floor_Rest [of "blocked gl" ?f SAND_DROP_POINT] floor maxDepth_of_nonneg [of rockPaths]
    by (simp add: SAND_DROP_POINT_def)
  with sandDrop_source_stop [OF _ last] len inv(2)
  have "fall (blocked gl) ?f SAND_DROP_POINT = Rest SAND_DROP_POINT" "g = gl"
    by auto
  with ok gf st nk inv sok that show ?thesis by simp
qed

lemma task1_final:
  assumes "task1 rockPaths = Some (Inr (g, n))"
  obtains gl where "\<forall>c \<in> rock_cells rockPaths. 0 \<le> fst c"
    "settles (maxDepth_of rockPaths) (built_grid rockPaths) 0 gl n"
    "grid_inv gl" "card (cells_with SAND gl) = n" "sand_ok (maxDepth_of rockPaths) gl"
    "g = gl \<or>
     (\<exists>q. q \<noteq> SAND_DROP_POINT \<and> fst q = maxDepth_of rockPaths \<and> cell gl q = Some AIR \<and>
          g = set_cell (set_cell gl SAND_DROP_POINT AIR) q SAND)"
proof -
  let ?m = "maxDepth_of rockPaths"
  from assms obtain gl where ok: "\<forall>c \<in> rock_cells rockPaths. 0 \<le> fst c"
    and st: "settles ?m (built_grid rockPaths) 0 gl n"
    and last: "sandDrop gl SAND_DROP_POINT True ?m = Inr (g, False)"
    by (rule task1_run)
  note inv0 = grid_inv_built_grid [OF ok] and nosand = built_grid_no_sand [OF ok]
  from settles_inv [OF st inv0 built_grid_limits(1)] nosand have inv: "grid_inv gl"
    "length gl = length (built_grid rockPaths)" "card (cells_with SAND gl) = n"
    by simp_all
  have sok: "sand_ok ?m gl"
    by (rule settles_sand_ok [OF st built_grid_limits(1) sand_ok_no_sand [OF nosand]])
  have len: "?m < int (length gl)" using built_grid_limits(1) inv(2) by simp
  have esc: "q \<noteq> SAND_DROP_POINT \<Longrightarrow> fst q = ?m \<and> cell gl q = Some AIR"
    if "fall (blocked gl) ?m SAND_DROP_POINT = Escape q" for q
    using that fall_Escape_depth [OF that] fall_final_free [of "blocked gl" ?m SAND_DROP_POINT]
    by (auto simp: blocked_def)
  have "g = gl \<or>
     (\<exists>q. q \<noteq> SAND_DROP_POINT \<and> fst q = ?m \<and> cell gl q = Some AIR \<and>
          g = set_cell (set_cell gl SAND_DROP_POINT AIR) q SAND)"
  proof -
    from sandDrop_source_stop [OF len last] consider "g = gl"
      | q where "fall (blocked gl) ?m SAND_DROP_POINT = Escape q"
          "g = (if q = SAND_DROP_POINT then gl else set_cell (set_cell gl SAND_DROP_POINT AIR) q SAND)"
      by blast
    then show ?thesis
    proof cases
      case 1
      then show ?thesis ..
    next
      case (2 q)
      show ?thesis
      proof (cases "q = SAND_DROP_POINT")
        case True
        with 2(2) show ?thesis by simp
      next
        case False
        with esc [OF 2(1)] 2(2) show ?thesis
          by (intro disjI2 exI [of _ q]) simp
      qed
    qed
  qed
  with ok st inv sok that show ?thesis by blast
qed

subsection \<open>The source cell during the loop\<close>

lemma fall_leaves_source:
  assumes "0 < lim" "\<not> blocked g (1, 500)"
  shows "final_pos (fall (blocked g) lim SAND_DROP_POINT) \<noteq> SAND_DROP_POINT"
proof -
  have "fall (blocked g) lim SAND_DROP_POINT = fall (blocked g) lim (1, 500)"
    using assms by (simp add: SAND_DROP_POINT_def fall.simps [of _ lim 0 500])
  then have "1 \<le> fst (final_pos (fall (blocked g) lim SAND_DROP_POINT))"
    using fall_depth_mono [of "(1, 500)" "blocked g" lim] by simp
  then show ?thesis by (auto simp: SAND_DROP_POINT_def)
qed

lemma sandDrop_source_air:
  assumes "lim < int (length g)" "sandDrop g SAND_DROP_POINT True lim = Inr (g', c)"
    and "cell g SAND_DROP_POINT = Some AIR \<or> (0 < lim \<and> \<not> blocked g (1, 500))"
  shows "cell g' SAND_DROP_POINT = Some AIR \<and> length g' = length g"
proof -
  let ?q = "final_pos (fall (blocked g) lim SAND_DROP_POINT)"
  have eff: "(g', c) = drop_effect g SAND_DROP_POINT True (fall (blocked g) lim SAND_DROP_POINT)"
    using sandDrop_source [OF assms(1)] assms(2) by simp
  show ?thesis
  proof (cases "?q = SAND_DROP_POINT")
    case True
    then have "cell g SAND_DROP_POINT = Some AIR"
      using assms(3) fall_leaves_source by blast
    with True eff show ?thesis by (simp add: drop_effect_def)
  next
    case False
    have "has_row g 0"
      using assms(1,3) cell_Some_has_row [of g SAND_DROP_POINT AIR]
      by (auto simp: has_row_def SAND_DROP_POINT_def)
    with False eff show ?thesis by (simp add: drop_effect_def SAND_DROP_POINT_def)
  qed
qed

lemma settles_source_air:
  "settles lim g n g' m \<Longrightarrow> lim < int (length g) \<Longrightarrow> cell g SAND_DROP_POINT = Some AIR \<Longrightarrow>
   cell g' SAND_DROP_POINT = Some AIR \<and> length g' = length g"
proof (induction rule: settles.induct)
  case (settles_step g g1 n g2 m)
  from sandDrop_source_air [OF settles_step.prems(1) settles_step.hyps(1)] settles_step.prems(2)
  have "cell g1 SAND_DROP_POINT = Some AIR" "length g1 = length g" by auto
  with settles_step.IH settles_step.prems(1) show ?case by simp
qed simp

lemma drop_loop_source_air:
  assumes "drop_loop g lim n = Some (Inr (g', k))" "0 < lim" "lim < int (length g)" "\<not> blocked g (1, 500)"
  shows "cell g' SAND_DROP_POINT = Some AIR"
proof -
  obtain gl m where st: "settles lim g n gl m" and ex: "sandDrop gl SAND_DROP_POINT True lim = Inr (g', False)"
    using drop_loop_settles [OF assms(1)] by (auto simp: loop_exit_Inr)
  have gl: "length gl = length g \<and> (cell gl SAND_DROP_POINT = Some AIR \<or> gl = g)"
    using st
  proof cases
    case (settles_step g1)
    from sandDrop_source_air [OF assms(3) settles_step(1)] assms(2,4)
    have "cell g1 SAND_DROP_POINT = Some AIR" "length g1 = length g" by auto
    with settles_source_air [OF settles_step(2)] assms(3) show ?thesis by simp
  qed simp
  show ?thesis
    using sandDrop_source_air [OF _ ex] gl assms by auto
qed

end
