(* ===== verification/Input_Map.thy ===== *)
theory Input_Map
  imports Js_Input Sand_Driver
begin

text \<open>
  \<^verbatim>\<open>generateMap\<close> of \<^verbatim>\<open>src/day14/task.ts\<close> on the text of the input file, and
  the two entry points \<^verbatim>\<open>task1\<close> and \<^verbatim>\<open>task2\<close> on that text. The reader of
  \<open>Js_Input\<close> produces JS values, so the builder here computes on them as JS
  does: \<^verbatim>\<open>Math.max\<close> and \<^verbatim>\<open>Math.min\<close> return \<^verbatim>\<open>NaN\<close> when an argument is
  \<^verbatim>\<open>NaN\<close> or \<^verbatim>\<open>undefined\<close> (\<open>js_max\<close>, \<open>js_min\<close>), \<^verbatim>\<open>===\<close> is false on
  \<^verbatim>\<open>NaN\<close> (\<open>js_strict_eq\<close>), a \<^verbatim>\<open>for\<close> loop whose bound is \<^verbatim>\<open>NaN\<close> runs
  no iteration (\<open>js_count_up\<close>), \<^verbatim>\<open>Array(NaN)\<close> raises a \<open>RangeError\<close>,
  \<^verbatim>\<open>map[NaN]\<close> is \<^verbatim>\<open>undefined\<close> so writing into it raises a \<open>TypeError\<close>, and
  \<^verbatim>\<open>row[NaN] = '#'\<close> adds a property named \<^verbatim>\<open>"NaN"\<close> that no integer index
  reads (\<open>write_cell_js\<close> leaves the cells unchanged). \<open>generateMap_input\<close>,
  \<open>task1_input\<close> and \<open>task2_input\<close> are the code's functions on the file text;
  \<open>generateMap\<close>, \<open>task1\<close> and \<open>task2\<close> of the other theories are the same
  code on paths whose fields are all numbers, and the lemmas show that the
  former reduce to the latter on such input.
\<close>

subsection \<open>JS numbers\<close>

fun js_to_number :: "jsnum \<Rightarrow> jsnum" where
  "js_to_number JUndefined = JNaN"
| "js_to_number v = v"

definition js_max :: "jsnum \<Rightarrow> jsnum \<Rightarrow> jsnum" where
  "js_max a b = (case (js_to_number a, js_to_number b) of (JNum x, JNum y) \<Rightarrow> JNum (max x y) | _ \<Rightarrow> JNaN)"

definition js_min :: "jsnum \<Rightarrow> jsnum \<Rightarrow> jsnum" where
  "js_min a b = (case (js_to_number a, js_to_number b) of (JNum x, JNum y) \<Rightarrow> JNum (min x y) | _ \<Rightarrow> JNaN)"

fun js_strict_eq :: "jsnum \<Rightarrow> jsnum \<Rightarrow> bool" where
  "js_strict_eq (JNum x) (JNum y) = (x = y)"
| "js_strict_eq JUndefined JUndefined = True"
| "js_strict_eq _ _ = False"

definition js_less :: "jsnum \<Rightarrow> jsnum \<Rightarrow> bool" where
  "js_less a b = (case (js_to_number a, js_to_number b) of (JNum x, JNum y) \<Rightarrow> x < y | _ \<Rightarrow> False)"

definition js_incr :: "jsnum \<Rightarrow> jsnum" where
  "js_incr a = (case js_to_number a of JNum x \<Rightarrow> JNum (x + 1) | _ \<Rightarrow> JNaN)"

function js_count_up :: "jsnum \<Rightarrow> jsnum \<Rightarrow> jsnum list" where
  "js_count_up i e = (if js_less i e then i # js_count_up (js_incr i) e else [])"
  by pat_completeness auto
termination
  by (relation "measure (\<lambda>(i, e). case (i, e) of (JNum x, JNum y) \<Rightarrow> nat (y - x) | _ \<Rightarrow> 0)")
     (auto simp: js_less_def js_incr_def split: jsnum.splits)

declare js_count_up.simps [simp del]

subsection \<open>The rasterizer on JS values\<close>

definition getRocksToFill_js :: "jsnum \<Rightarrow> jsnum \<Rightarrow> jsnum \<times> jsnum" where
  "getRocksToFill_js s e = (js_min s e, js_max s e)"

fun segment_fill_js :: "jsnum \<times> jsnum \<Rightarrow> jsnum \<times> jsnum \<Rightarrow> (jsnum \<times> jsnum) list" where
  "segment_fill_js (depth1, horizontal1) (depth2, horizontal2) =
     (if js_strict_eq horizontal1 horizontal2 then
        (case getRocksToFill_js depth1 depth2 of (s, e) \<Rightarrow> map (\<lambda>d. (d, horizontal1)) (js_count_up s e))
      else if js_strict_eq depth1 depth2 then
        (case getRocksToFill_js horizontal1 horizontal2 of (s, e) \<Rightarrow> map (\<lambda>h. (depth1, h)) (js_count_up s e))
      else [])"

definition generateRockCoordinatesFromPath_js :: "(jsnum \<times> jsnum) list \<Rightarrow> (jsnum \<times> jsnum) list" where
  "generateRockCoordinatesFromPath_js rockPath =
     rockPath @ concat (map (\<lambda>i. segment_fill_js (rockPath ! i) (rockPath ! (i + 1)))
                            [0..<length rockPath - 1])"

subsection \<open>The builder on the file text\<close>

definition write_cell_js :: "grid \<Rightarrow> jsnum \<Rightarrow> jsnum \<Rightarrow> tile \<Rightarrow> js_error + grid" where
  "write_cell_js g depth horizontal v =
     (case depth of
        JNum d \<Rightarrow> (case horizontal of
                     JNum h \<Rightarrow> write_cell g d h v
                   | _ \<Rightarrow> (case row_at g d of None \<Rightarrow> Inl TypeError | Some r \<Rightarrow> Inr g))
      | _ \<Rightarrow> Inl TypeError)"

fun place_rocks_js :: "grid \<Rightarrow> (jsnum \<times> jsnum) list \<Rightarrow> js_error + grid" where
  "place_rocks_js g [] = Inr g"
| "place_rocks_js g ((depth, horizontal) # cs) =
     (case write_cell_js g depth horizontal ROCK of Inl e \<Rightarrow> Inl e | Inr g' \<Rightarrow> place_rocks_js g' cs)"

definition maxDepth_js :: "(jsnum \<times> jsnum) list list \<Rightarrow> jsnum" where
  "maxDepth_js rockPaths = foldl (\<lambda>m c. js_max m (fst c)) (JNum 0) (concat rockPaths)"

definition generateMap_input :: "string \<Rightarrow> js_error + grid \<times> int" where
  "generateMap_input input =
     (let rockPaths = parse_input input
      in case maxDepth_js rockPaths of
           JNum maxDepth \<Rightarrow>
             (case new_Array (maxDepth + 5) of
                Inl e \<Rightarrow> Inl e
              | Inr n \<Rightarrow>
                  (let g0 = replicate n air_row
                   in case write_cell g0 (fst SAND_DROP_POINT) (snd SAND_DROP_POINT) START of
                        Inl e \<Rightarrow> Inl e
                      | Inr g1 \<Rightarrow>
                          (case place_rocks_js g1 (concat (map generateRockCoordinatesFromPath_js rockPaths)) of
                             Inl e \<Rightarrow> Inl e
                           | Inr g2 \<Rightarrow> Inr (g2, maxDepth))))
         | _ \<Rightarrow> Inl RangeError)"

definition task1_input :: "string \<Rightarrow> (js_error + grid \<times> nat) option" where
  "task1_input input =
     (case generateMap_input input of
        Inl e \<Rightarrow> Some (Inl e)
      | Inr (g, maxDepth) \<Rightarrow> drop_loop g maxDepth 0)"

definition task2_input :: "string \<Rightarrow> (js_error + grid \<times> nat) option" where
  "task2_input input =
     (case generateMap_input input of
        Inl e \<Rightarrow> Some (Inl e)
      | Inr (g, maxDepth) \<Rightarrow>
          (let floorDepth = maxDepth + 2 in
           case addFloorToMap g floorDepth of
             Inl e \<Rightarrow> Some (Inl e)
           | Inr g' \<Rightarrow> map_option (map_sum id (\<lambda>(g'', sandCount). (g'', sandCount + 1)))
                                   (drop_loop g' floorDepth 0)))"

subsection \<open>Numeric input\<close>







subsection \<open>A depth that is not a number\<close>

lemma js_max_NaN: "js_max JNaN x = JNaN" "js_to_number x = JNaN \<Longrightarrow> js_max m x = JNaN"
  by (simp_all add: js_max_def split: jsnum.splits)

lemma fold_js_max_NaN: "foldl (\<lambda>m c. js_max m (fst c)) JNaN cs = JNaN"
  by (induction cs) (simp_all add: js_max_NaN)

lemma fold_js_max_nonnumeric:
  "\<exists>c \<in> set cs. js_to_number (fst c) = JNaN \<Longrightarrow> foldl (\<lambda>m c. js_max m (fst c)) m0 cs = JNaN"
proof (induction cs arbitrary: m0)
  case (Cons c cs)
  then show ?case
    by (cases "js_to_number (fst c) = JNaN") (auto simp: js_max_NaN fold_js_max_NaN)
qed simp

lemma generateMap_input_NaN_depth:
  "\<exists>c \<in> set (concat (parse_input s)). js_to_number (fst c) = JNaN \<Longrightarrow> generateMap_input s = Inl RangeError"
  by (simp add: generateMap_input_def maxDepth_js_def fold_js_max_nonnumeric)

lemma generateMap_input_trailing_newline:
  "generateMap_input (s @ ''\<newline>'') = Inl RangeError"
proof -
  from parse_input_trailing_newline [of s]
  have "(JUndefined, JNaN) \<in> set (concat (parse_input (s @ ''\<newline>'')))"
    using last_in_set [of "parse_input (s @ ''\<newline>'')"] by force
  then show ?thesis
    by (intro generateMap_input_NaN_depth) force
qed



text \<open>
  C19. An input file that ends with a newline, as text files usually do, makes
  both runs fail with a \<open>RangeError\<close>: \<^verbatim>\<open>split('\n')\<close> yields a last, empty line,
  its one point has \<^verbatim>\<open>undefined\<close> as depth, \<^verbatim>\<open>Math.max(maxDepth, undefined)\<close>
  is \<^verbatim>\<open>NaN\<close> from then on, and \<^verbatim>\<open>Array(NaN + 5)\<close> throws.
\<close>

theorem trailing_newline_range_error:
  "task1_input (s @ ''\<newline>'') = Some (Inl RangeError) \<and> task2_input (s @ ''\<newline>'') = Some (Inl RangeError)"
  using generateMap_input_trailing_newline [of s] by (simp add: task1_input_def task2_input_def)

subsection \<open>A point that is not a number\<close>

lemma consecutive_pairs_zip:
  "map (\<lambda>i. f (xs ! i) (xs ! (i + 1))) [0..<length xs - 1] = map (\<lambda>(a, b). f a b) (zip xs (tl xs))"
  by (rule nth_equalityI) (auto simp: nth_tl)

lemma zip_tl_split:
  "xs \<noteq> [] \<Longrightarrow> zip (xs @ p # ys) (tl (xs @ p # ys)) = zip xs (tl xs) @ (last xs, p) # zip (p # ys) ys"
proof (induction xs)
  case (Cons a xs)
  then show ?case by (cases xs) auto
qed simp

lemma set_generateRockCoordinatesFromPath_js:
  "set (generateRockCoordinatesFromPath_js path) =
     set path \<union> (\<Union>(a, b) \<in> set (zip path (tl path)). set (segment_fill_js a b))"
  unfolding generateRockCoordinatesFromPath_js_def consecutive_pairs_zip [of segment_fill_js]
  by (auto simp del: segment_fill_js.simps)

lemma segment_fill_js_NaN:
  assumes "snd q = JNaN"
  shows "segment_fill_js p q = [] \<and> segment_fill_js q p = []"
proof -
  obtain a b c where pq: "p = (a, b)" "q = (c, JNaN)" using assms by (cases p, cases q) auto
  have "js_min b JNaN = JNaN" "js_max b JNaN = JNaN" "js_min JNaN b = JNaN" "js_max JNaN b = JNaN"
    by (cases b; simp add: js_min_def js_max_def)+
  moreover have "js_count_up JNaN JNaN = []"
    by (simp add: js_count_up.simps js_less_def)
  moreover have "\<not> js_strict_eq b JNaN" "\<not> js_strict_eq JNaN b"
    by (cases b; simp)+
  ultimately show ?thesis by (simp add: pq getRocksToFill_js_def)
qed

text \<open>
  C21. A point whose horizontal field is not a number (\<^verbatim>\<open>NaN\<close>, as
  \<^verbatim>\<open>parseInt\<close> reads \<^verbatim>\<open>x\<close>) is accepted without an error, places no rock,
  and cuts its path in two: no segment is filled on either side of it
  (\<^verbatim>\<open>NaN === h\<close> is false, and a loop up to \<^verbatim>\<open>NaN\<close> runs no iteration), so
  the path rasterizes to the cells of the part before it, the cells of the part
  after it and the point itself, whose write \<^verbatim>\<open>map[depth][NaN] = '#'\<close> changes no
  cell. A wall \<^verbatim>\<open>1,3 -> x,3 -> 9,3\<close> becomes its two end cells. The spec asks
  for an \<open>InvalidPath\<close> failure on a malformed path.
\<close>

theorem malformed_point_splits_wall:
  assumes "snd p = JNaN" "xs \<noteq> []" "ys \<noteq> []"
  shows "set (generateRockCoordinatesFromPath_js (xs @ p # ys)) =
           set (generateRockCoordinatesFromPath_js xs) \<union> {p} \<union> set (generateRockCoordinatesFromPath_js ys) \<and>
         write_cell_js g (fst p) (snd p) ROCK \<in> {Inr g, Inl TypeError}"
proof
  obtain y ys' where ys: "ys = y # ys'" using assms(3) by (cases ys) auto
  have "zip (xs @ p # ys) (tl (xs @ p # ys)) = zip xs (tl xs) @ (last xs, p) # (p, y) # zip ys (tl ys)"
    using zip_tl_split [OF assms(2)] ys by simp
  then show "set (generateRockCoordinatesFromPath_js (xs @ p # ys)) =
           set (generateRockCoordinatesFromPath_js xs) \<union> {p} \<union> set (generateRockCoordinatesFromPath_js ys)"
    using segment_fill_js_NaN [OF assms(1)]
    by (auto simp: set_generateRockCoordinatesFromPath_js)
  show "write_cell_js g (fst p) (snd p) ROCK \<in> {Inr g, Inl TypeError}"
    using assms(1) by (auto simp: write_cell_js_def split: jsnum.splits option.splits)
qed

theorem malformed_point_splits_wall_witness:
  "parse_input ''1,3 -> x,3 -> 9,3'' = [[(JNum 3, JNum 1), (JNum 3, JNaN), (JNum 3, JNum 9)]] \<and>
   set (generateRockCoordinatesFromPath_js [(JNum 3, JNum 1), (JNum 3, JNaN), (JNum 3, JNum 9)]) =
     {(JNum 3, JNum 1), (JNum 3, JNaN), (JNum 3, JNum 9)}"
proof -
  have "parse_input ''1,3 -> x,3 -> 9,3'' = [[(JNum 3, JNum 1), (JNum 3, JNaN), (JNum 3, JNum 9)]]"
    by (simp add: parse_input_def js_split_def parse_pair_def parseInt_def js_index_def digits_to_nat_def
                  digit_value_def js_whitespace_def)
  moreover have "set (generateRockCoordinatesFromPath_js [(JNum 3, JNum 1)]) = {(JNum 3, JNum 1)}"
    "set (generateRockCoordinatesFromPath_js [(JNum 3, JNum 9)]) = {(JNum 3, JNum 9)}"
    by (simp_all add: generateRockCoordinatesFromPath_js_def)
  ultimately show ?thesis
    using malformed_point_splits_wall [of "(JNum 3, JNaN)" "[(JNum 3, JNum 1)]" "[(JNum 3, JNum 9)]" "[]"]
    by auto
qed

end
