(* ===== verification/Render.thy ===== *)
theory Render
  imports Sand_Driver
begin

text \<open>
  The rendering of \<^verbatim>\<open>src/day14/task.ts\<close>: \<^verbatim>\<open>scaleDownMapAfterResult\<close> crops
  every row of the final grid to the columns between the leftmost and the
  rightmost non-air cell of the rows that are not the floor, widened by
  \<^verbatim>\<open>PADDING = 5\<close> on both sides, and \<^verbatim>\<open>task1\<close> and \<^verbatim>\<open>task2\<close> print each
  cropped row with \<^verbatim>\<open>line.join('')\<close>. The renderer works on the rows as JS
  arrays: a row is a list of slots, \<open>None\<close> for a hole (\<^verbatim>\<open>undefined\<close>), and
  \<open>js_findIndex\<close>, \<open>js_findLastIndex\<close> and \<open>js_slice\<close> are the
  \<^verbatim>\<open>Array.prototype\<close> methods (\<^verbatim>\<open>slice\<close> counts a negative bound from the
  end). The \<^verbatim>\<open>forEach\<close> with its early returns is a left fold of
  \<open>scale_step\<close> over the rows, from \<open>(MAX_SAFE_INTEGER, 0)\<close>. \<open>row_array w r\<close>
  reads a row of the grid model as a JS array of length \<open>w\<close>, and
  \<open>render_grid lens g\<close> prints the grid whose rows have the lengths
  \<open>lens\<close>; the theory \<open>Program\<close> computes those lengths.
\<close>

definition PADDING :: int where
  "PADDING = 5"

fun js_findIndex :: "('a \<Rightarrow> bool) \<Rightarrow> 'a list \<Rightarrow> int" where
  "js_findIndex p [] = -1"
| "js_findIndex p (x # xs) =
     (if p x then 0 else (let i = js_findIndex p xs in if i = -1 then -1 else i + 1))"

fun js_findLastIndex :: "('a \<Rightarrow> bool) \<Rightarrow> 'a list \<Rightarrow> int" where
  "js_findLastIndex p [] = -1"
| "js_findLastIndex p (x # xs) =
     (let i = js_findLastIndex p xs in if i \<noteq> -1 then i + 1 else if p x then 0 else -1)"

definition js_slice :: "'a list \<Rightarrow> int \<Rightarrow> int \<Rightarrow> 'a list" where
  "js_slice xs s e =
     (let len = int (length xs);
          from = (if s < 0 then max (len + s) 0 else min s len);
          to = (if e < 0 then max (len + e) 0 else min e len)
      in take (nat (to - from)) (drop (nat from) xs))"

definition scale_step :: "int \<times> int \<Rightarrow> tile option list \<Rightarrow> int \<times> int" where
  "scale_step acc line =
     (let (newStart, newEnd) = acc
      in if line \<noteq> [] \<and> hd line = Some ROCK then (newStart, newEnd)
         else
           (let startIndex = js_findIndex (\<lambda>c. c \<noteq> Some AIR) line
            in if startIndex = -1 then (newStart, newEnd)
               else
                 (let newStart = min newStart startIndex;
                      endIndex = js_findLastIndex (\<lambda>c. c \<noteq> Some AIR) line
                  in if endIndex = -1 then (newStart, newEnd)
                     else (newStart, max newEnd endIndex))))"

definition crop_bounds :: "tile option list list \<Rightarrow> int \<times> int" where
  "crop_bounds m = foldl scale_step (MAX_SAFE_INTEGER, 0) m"

definition scaleDownMapAfterResult :: "tile option list list \<Rightarrow> tile option list list" where
  "scaleDownMapAfterResult m =
     (let (newStart, newEnd) = crop_bounds m
      in map (\<lambda>line. js_slice line (newStart - PADDING) (newEnd + PADDING)) m)"

definition join_line :: "tile option list \<Rightarrow> string" where
  "join_line line = concat (map (\<lambda>c. case c of None \<Rightarrow> [] | Some t \<Rightarrow> [CHARS t]) line)"

definition row_array :: "nat \<Rightarrow> row \<Rightarrow> tile option list" where
  "row_array w r = map (\<lambda>i. r (int i)) [0..<w]"

definition render_grid :: "nat list \<Rightarrow> grid \<Rightarrow> string list" where
  "render_grid lens g = map join_line (scaleDownMapAfterResult (map2 row_array lens g))"

text \<open>Two one-row arrays and a one-row grid used by the witnesses of this theory.\<close>

definition crop_example :: "tile option list list" where
  "crop_example = [[Some AIR, Some AIR, Some AIR, Some AIR, Some AIR, Some AIR, Some ROCK, Some AIR, Some AIR, Some AIR, Some AIR, Some AIR, Some AIR, Some AIR, Some AIR]]"

definition wrap_example :: "tile option list list" where
  "wrap_example = [[Some AIR, Some AIR, Some ROCK, Some AIR, Some AIR, Some AIR, Some AIR, Some AIR, Some AIR, Some AIR, Some AIR, Some AIR, Some AIR, Some AIR, Some AIR, Some AIR, Some AIR, Some AIR, Some AIR, Some AIR]]"

definition window_example :: grid where
  "window_example = [\<lambda>h. if 0 \<le> h \<and> h < 15 then Some (if h = 6 then ROCK else AIR) else None]"

subsection \<open>The array methods\<close>

lemma js_findIndex_range: "-1 \<le> js_findIndex p xs \<and> js_findIndex p xs < int (length xs)"
  by (induction xs) (auto simp: Let_def)

lemma js_findLastIndex_range: "-1 \<le> js_findLastIndex p xs \<and> js_findLastIndex p xs < int (length xs)"
  by (induction xs) (auto simp: Let_def)

lemma js_findIndex_none: "js_findIndex p xs = -1 \<longleftrightarrow> (\<forall>x \<in> set xs. \<not> p x)"
proof (induction xs)
  case (Cons x xs)
  then show ?case using js_findIndex_range [of p xs] by (auto simp: Let_def)
qed simp

lemma js_findLastIndex_none: "js_findLastIndex p xs = -1 \<longleftrightarrow> (\<forall>x \<in> set xs. \<not> p x)"
proof (induction xs)
  case (Cons x xs)
  then show ?case using js_findLastIndex_range [of p xs] by (auto simp: Let_def)
qed simp

lemma js_findIndex_nonneg: "js_findIndex p xs \<noteq> -1 \<Longrightarrow> 0 \<le> js_findIndex p xs"
  by (induction xs) (auto simp: Let_def split: if_splits)

lemma js_findIndex_le: "i < length xs \<Longrightarrow> p (xs ! i) \<Longrightarrow> js_findIndex p xs \<le> int i"
proof (induction xs arbitrary: i)
  case (Cons x xs)
  show ?case
  proof (cases i)
    case (Suc j)
    with Cons have "js_findIndex p xs \<le> int j" by simp
    moreover have "p (xs ! j)" "j < length xs" using Cons.prems Suc by simp_all
    then have "js_findIndex p xs \<noteq> -1" unfolding js_findIndex_none by (metis nth_mem)
    ultimately show ?thesis using Suc by (simp add: Let_def)
  qed (use Cons.prems in simp)
qed simp

lemma js_findLastIndex_ge: "i < length xs \<Longrightarrow> p (xs ! i) \<Longrightarrow> int i \<le> js_findLastIndex p xs"
proof (induction xs arbitrary: i)
  case (Cons x xs)
  show ?case
  proof (cases i)
    case 0
    then show ?thesis
      using Cons.prems js_findLastIndex_range [of p xs]
      by (auto simp: Let_def js_findLastIndex_none)
  next
    case (Suc j)
    with Cons have "int j \<le> js_findLastIndex p xs" by simp
    moreover have "p (xs ! j)" "j < length xs" using Cons.prems Suc by simp_all
    then have "js_findLastIndex p xs \<noteq> -1" unfolding js_findLastIndex_none by (metis nth_mem)
    ultimately show ?thesis using Suc by (simp add: Let_def)
  qed
qed simp


subsection \<open>Printing\<close>

lemma join_line_no_holes: "\<forall>c \<in> set line. c \<noteq> None \<Longrightarrow> join_line line = map (CHARS \<circ> the) line"
  by (induction line) (auto simp: join_line_def)

lemma row_array_nth: "i < w \<Longrightarrow> row_array w r ! i = r (int i)"
  by (simp add: row_array_def)

lemma js_slice_length:
  assumes "0 \<le> s" "s \<le> e" "e \<le> int (length xs)"
  shows "length (js_slice xs s e) = nat (e - s)"
  using assms by (simp add: js_slice_def Let_def)

subsection \<open>The crop window\<close>

text \<open>
  The second early return of the \<^verbatim>\<open>forEach\<close> body (\<^verbatim>\<open>endIndex === -1\<close>) never
  fires: a row with a non-air slot has a last one too.
\<close>

lemma scale_step_eq:
  "scale_step acc line =
     (if (line \<noteq> [] \<and> hd line = Some ROCK) \<or> (\<forall>c \<in> set line. c = Some AIR) then acc
      else (min (fst acc) (js_findIndex (\<lambda>c. c \<noteq> Some AIR) line),
            max (snd acc) (js_findLastIndex (\<lambda>c. c \<noteq> Some AIR) line)))"
  by (cases acc) (auto simp: scale_step_def Let_def js_findIndex_none js_findLastIndex_none)

lemma scale_step_mono: "fst (scale_step acc line) \<le> fst acc \<and> snd acc \<le> snd (scale_step acc line)"
  by (simp add: scale_step_eq)

lemma foldl_scale_step_mono:
  "fst (foldl scale_step acc m) \<le> fst acc \<and> snd acc \<le> snd (foldl scale_step acc m)"
proof (induction m arbitrary: acc)
  case (Cons line m)
  have "fst (foldl scale_step (scale_step acc line) m) \<le> fst (scale_step acc line) \<and>
        snd (scale_step acc line) \<le> snd (foldl scale_step (scale_step acc line) m)"
    by (rule Cons.IH)
  with scale_step_mono [of acc line] show ?case by auto
qed simp

lemma scale_step_covers:
  assumes "\<not> (line \<noteq> [] \<and> hd line = Some ROCK)" "i < length line" "line ! i \<noteq> Some AIR"
  shows "fst (scale_step acc line) \<le> int i \<and> int i \<le> snd (scale_step acc line)"
proof -
  have "\<not> (\<forall>c \<in> set line. c = Some AIR)" using assms(2,3) nth_mem by blast
  with assms(1) have c: "\<not> ((line \<noteq> [] \<and> hd line = Some ROCK) \<or> (\<forall>c \<in> set line. c = Some AIR))"
    by blast
  show ?thesis
    unfolding scale_step_eq if_not_P [OF c]
    using js_findIndex_le [of i line "\<lambda>c. c \<noteq> Some AIR"] js_findLastIndex_ge [of i line "\<lambda>c. c \<noteq> Some AIR"]
      assms(2,3)
    by (simp add: min_le_iff_disj le_max_iff_disj)
qed

lemma crop_bounds_cover:
  assumes "line \<in> set m" "\<not> (line \<noteq> [] \<and> hd line = Some ROCK)" "i < length line" "line ! i \<noteq> Some AIR"
  shows "fst (crop_bounds m) \<le> int i \<and> int i \<le> snd (crop_bounds m)"
proof -
  obtain m1 m2 where m: "m = m1 @ line # m2" using split_list [OF assms(1)] by blast
  let ?acc = "scale_step (foldl scale_step (MAX_SAFE_INTEGER, 0) m1) line"
  have "crop_bounds m = foldl scale_step ?acc m2" by (simp add: crop_bounds_def m)
  then show ?thesis
    using scale_step_covers [OF assms(2-4), of "foldl scale_step (MAX_SAFE_INTEGER, 0) m1"]
          foldl_scale_step_mono [of ?acc m2]
    by auto
qed

lemma js_slice_nth:
  assumes "0 \<le> s" "s \<le> e" "e \<le> int (length xs)" "int j < e - s"
  shows "js_slice xs s e ! j = xs ! (nat s + j)"
  using assms by (simp add: js_slice_def Let_def)

text \<open>
  C22. Cropping loses no cell that matters: when the window
  \<^verbatim>\<open>[newStart - 5, newEnd + 5)\<close> lies inside a row that is not the floor, the
  cropped row holds each of its non-air slots, shifted left by
  \<^verbatim>\<open>newStart - 5\<close>. \<^verbatim>\<open>newStart\<close> and \<^verbatim>\<open>newEnd\<close> are the extreme non-air
  columns of all rows whose first slot is not rock.
\<close>

theorem crop_keeps_non_air:
  assumes "k < length m" "\<not> (m ! k \<noteq> [] \<and> hd (m ! k) = Some ROCK)"
    and "i < length (m ! k)" "m ! k ! i \<noteq> Some AIR"
    and "PADDING \<le> fst (crop_bounds m)" "snd (crop_bounds m) + PADDING \<le> int (length (m ! k))"
  shows "scaleDownMapAfterResult m ! k ! nat (int i - (fst (crop_bounds m) - PADDING)) = m ! k ! i"
proof -
  obtain s e where se: "crop_bounds m = (s, e)" by (cases "crop_bounds m")
  have cov: "s \<le> int i \<and> int i \<le> e"
    using crop_bounds_cover [OF nth_mem [OF assms(1)] assms(2-4)] se by simp
  have "int (nat (s - PADDING) + nat (int i - (s - PADDING))) = int i"
    using cov assms(5) se by (simp add: PADDING_def)
  then have idx: "nat (s - PADDING) + nat (int i - (s - PADDING)) = i"
    by (simp only: of_nat_eq_iff)
  have "js_slice (m ! k) (s - PADDING) (e + PADDING) ! nat (int i - (s - PADDING)) = m ! k ! i"
    using cov assms(5,6) se by (subst js_slice_nth) (auto simp: PADDING_def idx [unfolded PADDING_def])
  then show ?thesis
    using assms(1) se by (simp add: scaleDownMapAfterResult_def)
qed

theorem crop_keeps_non_air_witness:
  "0 < length crop_example \<and> hd (crop_example ! 0) = Some AIR \<and>
   6 < length (crop_example ! 0) \<and> crop_example ! 0 ! 6 \<noteq> Some AIR \<and>
   PADDING \<le> fst (crop_bounds crop_example) \<and>
   snd (crop_bounds crop_example) + PADDING \<le> int (length (crop_example ! 0)) \<and>
   scaleDownMapAfterResult crop_example ! 0 ! nat (int 6 - (fst (crop_bounds crop_example) - PADDING)) =
     crop_example ! 0 ! 6"
proof -
  have b: "crop_bounds crop_example = (6, 6)"
    by (simp add: crop_bounds_def crop_example_def scale_step_def MAX_SAFE_INTEGER_def)
  have h: "0 < length crop_example" "\<not> (crop_example ! 0 \<noteq> [] \<and> hd (crop_example ! 0) = Some ROCK)"
    "6 < length (crop_example ! 0)" "crop_example ! 0 ! 6 \<noteq> Some AIR"
    "PADDING \<le> fst (crop_bounds crop_example)"
    "snd (crop_bounds crop_example) + PADDING \<le> int (length (crop_example ! 0))"
    unfolding b by (simp_all add: crop_example_def PADDING_def)
  show ?thesis
    using h crop_keeps_non_air [OF h] by (simp add: crop_example_def)
qed

text \<open>
  C24. The crop window wraps around near the left edge: when the leftmost
  non-air column is below \<^verbatim>\<open>PADDING\<close>, \<^verbatim>\<open>newStart - 5\<close> is negative and
  \<^verbatim>\<open>slice\<close> counts it from the end of the row, so every printed row is empty
  once the window's end lies before that wrapped start.
\<close>

theorem crop_wraps_near_left_edge:
  assumes "crop_bounds m = (s, e)" "0 \<le> s" "s < PADDING"
    and "\<forall>line \<in> set m. e + PADDING \<le> int (length line) + s - PADDING"
  shows "\<forall>line \<in> set (scaleDownMapAfterResult m). line = []"
proof -
  have "0 \<le> e"
    using foldl_scale_step_mono [of "(MAX_SAFE_INTEGER, 0)" m] assms(1) by (simp add: crop_bounds_def)
  with assms show ?thesis
    by (auto simp: scaleDownMapAfterResult_def js_slice_def Let_def PADDING_def)
qed

theorem crop_wraps_near_left_edge_witness:
  "crop_bounds wrap_example = (2, 2) \<and> 0 \<le> (2::int) \<and> (2::int) < PADDING \<and>
   length wrap_example = 1 \<and> 2 + PADDING \<le> int (length (wrap_example ! 0)) + 2 - PADDING \<and>
   scaleDownMapAfterResult wrap_example = [[]]"
proof -
  have b: "crop_bounds wrap_example = (2, 2)"
    by (simp add: crop_bounds_def wrap_example_def scale_step_def MAX_SAFE_INTEGER_def)
  have h: "0 \<le> (2::int)" "(2::int) < PADDING"
    "\<forall>line \<in> set wrap_example. 2 + PADDING \<le> int (length line) + 2 - PADDING"
    by (simp_all add: wrap_example_def PADDING_def)
  have "\<forall>line \<in> set (scaleDownMapAfterResult wrap_example). line = []"
    by (rule crop_wraps_near_left_edge [OF b h])
  moreover have "length (scaleDownMapAfterResult wrap_example) = 1"
    unfolding scaleDownMapAfterResult_def b by (simp add: wrap_example_def)
  ultimately have "scaleDownMapAfterResult wrap_example = [[]]"
    by (cases "scaleDownMapAfterResult wrap_example") auto
  then show ?thesis
    using b h by (simp add: wrap_example_def PADDING_def)
qed

text \<open>
  C23. The printed picture is the window of the grid: when the rows are
  hole-free arrays of their lengths \<open>lens\<close> and the padded window lies inside them,
  character \<open>j\<close> of printed row \<open>k\<close> is the character of the cell at depth
  \<open>k\<close> and column \<open>newStart - 5 + j\<close>.
\<close>

theorem render_grid_window:
  assumes "k < length g" "length lens = length g" "\<forall>i < lens ! k. (g ! k) (int i) \<noteq> None"
    and "crop_bounds (map2 row_array lens g) = (s, e)" "PADDING \<le> s" "e + PADDING \<le> int (lens ! k)"
    and "int j < e - s + 2 * PADDING"
  shows "render_grid lens g ! k ! j = CHARS (the (cell g (int k, s - PADDING + int j)))"
proof -
  let ?line = "js_slice (row_array (lens ! k) (g ! k)) (s - PADDING) (e + PADDING)"
  have len: "length ?line = nat (e - s + 2 * PADDING)"
    using assms(5-7) by (subst js_slice_length) (auto simp: row_array_def PADDING_def)
  have nth: "?line ! i = (g ! k) (s - PADDING + int i)" if "int i < e - s + 2 * PADDING" for i
  proof -
    have "?line ! i = row_array (lens ! k) (g ! k) ! (nat (s - PADDING) + i)"
      using that assms(5,6) by (subst js_slice_nth) (auto simp: row_array_def PADDING_def)
    also have "\<dots> = (g ! k) (int (nat (s - PADDING) + i))"
      using that assms(5,6) by (intro row_array_nth) (simp add: PADDING_def)
    finally show ?thesis using assms(5) by (simp add: PADDING_def)
  qed
  have holes: "\<forall>c \<in> set ?line. c \<noteq> None"
  proof
    fix c assume "c \<in> set ?line"
    then obtain i where i: "i < length ?line" "c = ?line ! i" by (auto simp: in_set_conv_nth)
    then have "int i < e - s + 2 * PADDING" using len by simp
    moreover have "nat (s - PADDING + int i) < lens ! k" using calculation assms(5,6) by (simp add: PADDING_def)
    ultimately show "c \<noteq> None"
      using i nth assms(3) assms(5) by (metis PADDING_def add_nonneg_nonneg int_nat_eq nat_int of_nat_0_le_iff zero_le_numeral diff_ge_0_iff_ge order_trans)
  qed
  have row: "has_row g (int k)" using assms(1) by (simp add: has_row_def)
  have "render_grid lens g ! k = join_line ?line"
    using assms(1,2,4) by (simp add: render_grid_def scaleDownMapAfterResult_def)
  then show ?thesis
    using join_line_no_holes [OF holes] len nth [OF assms(7)] assms(7) row
    by (simp add: cell_def)
qed

theorem render_grid_window_witness:
  "0 < length window_example \<and> length [15] = length window_example \<and>
   crop_bounds (map2 row_array [15] window_example) = (6, 6) \<and> PADDING \<le> 6 \<and> 6 + PADDING \<le> int ([15] ! 0) \<and>
   int 5 < 6 - 6 + 2 * PADDING \<and>
   render_grid [15] window_example ! 0 ! 5 = CHARS (the (cell window_example (int 0, 6 - PADDING + int 5)))"
proof -
  have b: "crop_bounds (map2 row_array [15] window_example) = (6, 6)"
    by (simp add: crop_bounds_def window_example_def row_array_def upt_rec scale_step_def MAX_SAFE_INTEGER_def)
  have h: "0 < length window_example" "length [15] = length window_example"
    "\<forall>i < [15] ! 0. (window_example ! 0) (int i) \<noteq> None"
    "PADDING \<le> 6" "6 + PADDING \<le> int ([15] ! 0)" "int 5 < 6 - 6 + 2 * PADDING"
    by (simp_all add: window_example_def PADDING_def)
  show ?thesis
    using b h render_grid_window [OF h(1-3) b h(4-6)] by simp
qed

text \<open>
  C27. A row whose first slot is rock does not move the crop window: the code
  takes it for the floor of \<^verbatim>\<open>task2\<close>, so a rock path through column 0 hides
  its row from the crop as well.
\<close>

theorem floor_rows_ignored:
  assumes "line \<noteq> []" "hd line = Some ROCK"
  shows "crop_bounds (m1 @ line # m2) = crop_bounds (m1 @ m2)"
  using assms by (simp add: crop_bounds_def scale_step_eq)

theorem floor_rows_ignored_witness:
  "[Some ROCK, Some AIR] \<noteq> [] \<and> hd [Some ROCK, Some AIR] = Some ROCK \<and>
   crop_bounds (crop_example @ [[Some ROCK, Some AIR]]) = crop_bounds crop_example"
  using floor_rows_ignored [of "[Some ROCK, Some AIR]" crop_example "[]"] by simp

end
