(* ===== verification/Program.thy ===== *)
theory Program
  imports Input_Map Render
begin

text \<open>
  The whole script \<^verbatim>\<open>src/day14/task.ts\<close> run on the text of its input file:
  \<open>task1_output\<close> and \<open>task2_output\<close> are \<^verbatim>\<open>task1\<close> and \<^verbatim>\<open>task2\<close> with the
  cropped picture each prints and the count each returns, and \<open>main\<close> is the
  top level (lines 157--159 and 175--177): it prints \<^verbatim>\<open>TASK 1\<close>, runs
  \<^verbatim>\<open>task1\<close>, logs its count, and the same for \<^verbatim>\<open>task2\<close>; an exception that
  escapes a task ends the script there (\<open>Uncaught\<close>). Console output is the
  list of printed lines, as \<^verbatim>\<open>console.log\<close> appends one line per call.
  The rows of the grid are JS arrays whose length the grid model does not
  keep; \<open>write_len\<close> and \<open>place_rocks_len\<close> give the effect of the rock writes
  of \<^verbatim>\<open>generateMap\<close> on the row lengths (a write at an index past the end
  makes the length that index plus one), \<open>map_lengths_input\<close> the lengths after
  the builder, and the lemmas show that they are the JS lengths of the final
  rows of both runs (\<open>js_length_ok\<close>: one more than the largest present
  index), since the settling loop and \<^verbatim>\<open>addFloorToMap\<close> only write where a
  slot is already present.
\<close>

definition INDEX_LIMIT :: int where
  "INDEX_LIMIT = 2 ^ 32 - 1"

definition write_len :: "nat list \<Rightarrow> jsnum \<Rightarrow> jsnum \<Rightarrow> nat list" where
  "write_len lens depth horizontal =
     (case (depth, horizontal) of
        (JNum d, JNum h) \<Rightarrow>
          if 0 \<le> d \<and> d < int (length lens) \<and> 0 \<le> h \<and> h < INDEX_LIMIT
          then lens[nat d := max (lens ! nat d) (nat h + 1)] else lens
      | _ \<Rightarrow> lens)"

fun place_rocks_len :: "nat list \<Rightarrow> (jsnum \<times> jsnum) list \<Rightarrow> nat list" where
  "place_rocks_len lens [] = lens"
| "place_rocks_len lens ((depth, horizontal) # cs) = place_rocks_len (write_len lens depth horizontal) cs"

definition map_lengths_input :: "string \<Rightarrow> nat list" where
  "map_lengths_input input =
     (let rockPaths = parse_input input
      in case maxDepth_js rockPaths of
           JNum maxDepth \<Rightarrow>
             place_rocks_len (replicate (nat (maxDepth + 5)) (nat MAP_WIDTH))
               (concat (map generateRockCoordinatesFromPath_js rockPaths))
         | _ \<Rightarrow> [])"

definition task1_output :: "string \<Rightarrow> (js_error + string list \<times> nat) option" where
  "task1_output input =
     map_option (map_sum id (\<lambda>(g, sandCount). (render_grid (map_lengths_input input) g, sandCount)))
       (task1_input input)"

definition task2_output :: "string \<Rightarrow> (js_error + string list \<times> nat) option" where
  "task2_output input =
     map_option (map_sum id (\<lambda>(g, sandCount). (render_grid (map_lengths_input input) g, sandCount)))
       (task2_input input)"

definition log_count :: "string \<Rightarrow> nat \<Rightarrow> string" where
  "log_count name n = ''{ '' @ name @ '': '' @ string_of_nat n @ '' }''"

datatype exit_status = Exit | Uncaught js_error

definition main :: "string \<Rightarrow> (string list \<times> exit_status) option" where
  "main input =
     (let out1 = [''TASK 1'']
      in case task1_output input of
           None \<Rightarrow> None
         | Some (Inl e) \<Rightarrow> Some (out1, Uncaught e)
         | Some (Inr (newMap1, sandCount1)) \<Rightarrow>
             (let out2 = out1 @ newMap1 @ [log_count ''sandCount1'' sandCount1, ''TASK 2'']
              in case task2_output input of
                   None \<Rightarrow> None
                 | Some (Inl e) \<Rightarrow> Some (out2, Uncaught e)
                 | Some (Inr (newMap2, sandCount2)) \<Rightarrow>
                     Some (out2 @ newMap2 @ [log_count ''sandCount2'' sandCount2], Exit)))"

definition row_len_ok :: "row \<Rightarrow> nat \<Rightarrow> bool" where
  "row_len_ok r len \<longleftrightarrow>
     (\<forall>h. 0 \<le> h \<and> h < INDEX_LIMIT \<and> r h \<noteq> None \<longrightarrow> h < int len) \<and> (0 < len \<longrightarrow> r (int len - 1) \<noteq> None)"

definition js_length_ok :: "nat list \<Rightarrow> grid \<Rightarrow> bool" where
  "js_length_ok lens g \<longleftrightarrow> length lens = length g \<and> (\<forall>d < length g. row_len_ok (g ! d) (lens ! d))"

subsection \<open>The builder on the file text\<close>

lemma place_rocks_js_cells:
  assumes "place_rocks_js g cs = Inr g'"
  shows "length g' = length g \<and> (\<forall>p. cell g' p = cell g p \<or> cell g' p = Some ROCK)"
  using assms
proof (induction g cs rule: place_rocks_js.induct)
  case (2 g depth horizontal cs)
  then obtain g1 where w: "write_cell_js g depth horizontal ROCK = Inr g1" and r: "place_rocks_js g1 cs = Inr g'"
    by (auto split: sum.splits)
  have "length g1 = length g \<and> (\<forall>p. cell g1 p = cell g p \<or> cell g1 p = Some ROCK)"
    using w by (auto simp: write_cell_js_def write_cell_eq row_at_def split: jsnum.splits if_splits)
  with 2(1) [OF w r] show ?case by metis
qed simp

lemma fold_js_max_mono:
  "foldl (\<lambda>m c. js_max m (fst c)) (JNum a) cs = JNum b \<Longrightarrow> a \<le> b"
proof (induction cs arbitrary: a)
  case (Cons c cs)
  show ?case
  proof (cases "js_to_number (fst c)")
    case (JNum y)
    then have "js_max (JNum a) (fst c) = JNum (max a y)" by (simp add: js_max_def)
    with Cons.prems have "foldl (\<lambda>m c. js_max m (fst c)) (JNum (max a y)) cs = JNum b" by simp
    then have "max a y \<le> b" by (rule Cons.IH)
    then show ?thesis by simp
  next
    case JNaN
    then have "js_max (JNum a) (fst c) = JNaN" by (simp add: js_max_def)
    with Cons.prems show ?thesis by (simp add: fold_js_max_NaN)
  next
    case JUndefined
    then have "js_max (JNum a) (fst c) = JNaN" by (cases "fst c") (simp_all add: js_max_def)
    with Cons.prems show ?thesis by (simp add: fold_js_max_NaN)
  qed
qed simp

lemma cell_replicate:
  "cell (replicate n r) p = (if 0 \<le> fst p \<and> fst p < int n then r (snd p) else None)"
  by (auto simp: cell_def has_row_def nat_less_iff)

lemma generateMap_input_run:
  assumes "generateMap_input input = Inr (g, m)"
  shows "maxDepth_js (parse_input input) = JNum m \<and> 0 \<le> m \<and>
         place_rocks_js (set_cell (replicate (nat (m + 5)) air_row) SAND_DROP_POINT START)
           (concat (map generateRockCoordinatesFromPath_js (parse_input input))) = Inr g"
proof -
  let ?rp = "parse_input input"
  obtain m' where md: "maxDepth_js ?rp = JNum m'"
    using assms by (cases "maxDepth_js ?rp") (auto simp: generateMap_input_def)
  have m0: "0 \<le> m'" using md fold_js_max_mono by (simp add: maxDepth_js_def)
  then show ?thesis
    using assms md
    by (auto simp: generateMap_input_def new_Array_def write_cell_eq has_row_def SAND_DROP_POINT_def
             split: if_splits sum.splits)
qed

lemma generateMap_input_facts:
  assumes "generateMap_input input = Inr (g, m)"
  shows "0 \<le> m \<and> length g = nat (m + 5) \<and> grid_inv g \<and> cells_with SAND g = {} \<and>
         cell g SAND_DROP_POINT \<noteq> None"
proof -
  let ?g1 = "set_cell (replicate (nat (m + 5)) air_row) SAND_DROP_POINT START"
  have m0: "0 \<le> m"
    and run: "place_rocks_js ?g1 (concat (map generateRockCoordinatesFromPath_js (parse_input input))) = Inr g"
    using generateMap_input_run [OF assms] by auto
  note cells = place_rocks_js_cells [OF run]
  have g1: "cell ?g1 p = (if p = SAND_DROP_POINT then Some START
                         else if 0 \<le> fst p \<and> fst p < m + 5 then air_row (snd p) else None)" for p
    using m0 by (auto simp: cell_replicate has_row_def SAND_DROP_POINT_def)
  have air: "cells_with AIR g \<subseteq> {0..<m + 5} \<times> {0..<MAP_WIDTH}"
  proof
    fix p assume "p \<in> cells_with AIR g"
    then have "cell g p = Some AIR" by simp
    then have "cell ?g1 p = Some AIR" using cells [THEN conjunct2, rule_format, of p] by auto
    then show "p \<in> {0..<m + 5} \<times> {0..<MAP_WIDTH}"
      using g1 [of p] by (cases p) (auto simp: air_row_def split: if_splits)
  qed
  have sand: "cells_with SAND g = {}"
  proof -
    have "cell g p \<noteq> Some SAND" for p
      using cells [THEN conjunct2, rule_format, of p] g1 [of p]
      by (auto simp: air_row_def split: if_splits)
    then show ?thesis by auto
  qed
  have src: "cell g SAND_DROP_POINT \<noteq> None"
    using cells [THEN conjunct2, rule_format, of SAND_DROP_POINT] g1 [of SAND_DROP_POINT] by auto
  have "finite (cells_with AIR g)" using air by (rule finite_subset) simp
  moreover have "length g = nat (m + 5)" using cells [THEN conjunct1] by simp
  moreover have "cell g SAND_DROP_POINT \<noteq> Some SAND" using sand mem_cells_with [of SAND_DROP_POINT SAND g] by blast
  ultimately show ?thesis using sand src m0 by (simp add: grid_inv_def)
qed

subsection \<open>Writes into present slots\<close>

lemma set_cell_present:
  "cell g p \<noteq> None \<Longrightarrow> (cell (set_cell g p v) x \<noteq> None) = (cell g x \<noteq> None)"
  by auto

lemma sandDrop_source_present:
  assumes "lim < int (length g)" "cell g SAND_DROP_POINT \<noteq> None"
    and "sandDrop g SAND_DROP_POINT True lim = Inr (g', c)"
  shows "length g' = length g \<and> (\<forall>x. (cell g' x \<noteq> None) = (cell g x \<noteq> None))"
proof -
  let ?out = "fall (blocked g) lim SAND_DROP_POINT"
  have "(g', c) = drop_effect g SAND_DROP_POINT True ?out"
    using sandDrop_source [OF assms(1)] assms(3) by simp
  then have g': "g' = fst (drop_effect g SAND_DROP_POINT True ?out)"
    by (metis fst_conv)
  show ?thesis
  proof (cases "final_pos ?out = SAND_DROP_POINT")
    case True
    then show ?thesis using g' by (simp add: drop_effect_def)
  next
    case False
    then have "cell g (final_pos ?out) = Some AIR"
      using fall_final_free [OF False] by (simp add: blocked_def)
    moreover have "g' = set_cell (set_cell g SAND_DROP_POINT AIR) (final_pos ?out) SAND"
      using g' False by (simp add: drop_effect_def)
    ultimately show ?thesis
      using assms(2) set_cell_present [of g SAND_DROP_POINT AIR]
            set_cell_present [of "set_cell g SAND_DROP_POINT AIR" "final_pos ?out" SAND]
      by auto
  qed
qed

lemma settles_present:
  assumes "settles lim g n g' m" "lim < int (length g)" "cell g SAND_DROP_POINT \<noteq> None"
  shows "length g' = length g \<and> (\<forall>x. (cell g' x \<noteq> None) = (cell g x \<noteq> None))"
  using assms
proof (induction rule: settles.induct)
  case (settles_step g g1 n g2 m)
  from sandDrop_source_present [OF settles_step.prems(1,2) settles_step.hyps(1)]
  have l: "length g1 = length g" and p: "\<forall>x. (cell g1 x \<noteq> None) = (cell g x \<noteq> None)" by auto
  have "lim < int (length g1)" "cell g1 SAND_DROP_POINT \<noteq> None"
    using l p [rule_format, of SAND_DROP_POINT] settles_step.prems by simp_all
  with settles_step.IH l p show ?case by simp
qed simp

lemma drop_loop_present:
  assumes "drop_loop g lim n = Some (Inr (g', k))" "lim < int (length g)" "cell g SAND_DROP_POINT \<noteq> None"
  shows "length g' = length g \<and> (\<forall>x. (cell g' x \<noteq> None) = (cell g x \<noteq> None))"
proof -
  obtain gl m where st: "settles lim g n gl m" and ex: "loop_exit lim gl m (Inr (g', k))"
    using drop_loop_settles [OF assms(1)] by blast
  have l: "length gl = length g" and p: "\<forall>x. (cell gl x \<noteq> None) = (cell g x \<noteq> None)"
    using settles_present [OF st assms(2,3)] by auto
  have "sandDrop gl SAND_DROP_POINT True lim = Inr (g', False)"
    using ex by (simp add: loop_exit_Inr)
  moreover have "lim < int (length gl)" "cell gl SAND_DROP_POINT \<noteq> None"
    using l p [rule_format, of SAND_DROP_POINT] assms(2,3) by simp_all
  ultimately have "length g' = length gl \<and> (\<forall>x. (cell g' x \<noteq> None) = (cell gl x \<noteq> None))"
    by (rule sandDrop_source_present [rotated 2])
  with l p show ?thesis by simp
qed


subsection \<open>Row lengths\<close>

lemma row_len_ok_write:
  assumes "row_len_ok r len"
  shows "row_len_ok (r(h \<mapsto> v)) (if 0 \<le> h \<and> h < INDEX_LIMIT then max len (nat h + 1) else len)"
  using assms by (auto simp: row_len_ok_def max_def nat_less_iff of_nat_diff)

lemma row_len_ok_same:
  assumes "row_len_ok r len" "\<And>h. 0 \<le> h \<Longrightarrow> (r' h \<noteq> None) = (r h \<noteq> None)"
  shows "row_len_ok r' len"
  using assms unfolding row_len_ok_def by (metis diff_ge_0_iff_ge of_nat_0_less_iff zero_less_imp_eq_int int_one_le_iff_zero_less)

lemma js_length_ok_set_cell:
  assumes "js_length_ok lens g" "has_row g d"
  shows "js_length_ok (if 0 \<le> h \<and> h < INDEX_LIMIT then lens[nat d := max (lens ! nat d) (nat h + 1)] else lens)
                      (set_cell g (d, h) v)"
proof -
  have d: "nat d < length g" using assms(2) by (simp add: has_row_def nat_less_iff)
  have "row_len_ok ((g ! nat d)(h \<mapsto> v))
          (if 0 \<le> h \<and> h < INDEX_LIMIT then max (lens ! nat d) (nat h + 1) else lens ! nat d)"
    using assms(1) d by (simp add: js_length_ok_def row_len_ok_write)
  then show ?thesis
    using assms d by (auto simp: js_length_ok_def set_cell_def nth_list_update)
qed

lemma js_length_ok_nonneg:
  assumes "js_length_ok lens g" "length g' = length g"
    and "\<And>x. 0 \<le> snd x \<Longrightarrow> (cell g' x \<noteq> None) = (cell g x \<noteq> None)"
  shows "js_length_ok lens g'"
proof -
  have "row_len_ok (g' ! d) (lens ! d)" if "d < length g" for d
  proof (rule row_len_ok_same)
    show "row_len_ok (g ! d) (lens ! d)" using assms(1) that by (simp add: js_length_ok_def)
    show "((g' ! d) h \<noteq> None) = ((g ! d) h \<noteq> None)" if "0 \<le> h" for h
      using assms(3) [of "(int d, h)"] assms(2) \<open>d < length g\<close> that by (simp add: cell_def has_row_def)
  qed
  then show ?thesis using assms(1,2) by (simp add: js_length_ok_def)
qed

lemma write_cell_js_len:
  assumes "write_cell_js g depth horizontal ROCK = Inr g1" "js_length_ok lens g"
  shows "js_length_ok (write_len lens depth horizontal) g1"
proof (cases depth)
  case (JNum d)
  show ?thesis
  proof (cases horizontal)
    case (JNum h)
    with \<open>depth = JNum d\<close> assms(1) have row: "has_row g d" and g1: "g1 = set_cell g (d, h) ROCK"
      by (auto simp: write_cell_js_def write_cell_eq split: if_splits)
    have "length lens = length g" using assms(2) by (simp add: js_length_ok_def)
    with row have "0 \<le> d \<and> d < int (length lens)" by (simp add: has_row_def)
    then show ?thesis
      using js_length_ok_set_cell [OF assms(2) row, of h ROCK] g1 \<open>depth = JNum d\<close> JNum
      by (simp add: write_len_def)
  qed (use assms \<open>depth = JNum d\<close> in \<open>auto simp: write_cell_js_def write_len_def split: option.splits\<close>)
qed (use assms in \<open>auto simp: write_cell_js_def\<close>)

lemma place_rocks_len_ok:
  "place_rocks_js g cs = Inr g' \<Longrightarrow> js_length_ok lens g \<Longrightarrow> js_length_ok (place_rocks_len lens cs) g'"
proof (induction g cs arbitrary: lens rule: place_rocks_js.induct)
  case (2 g depth horizontal cs)
  then obtain g1 where w: "write_cell_js g depth horizontal ROCK = Inr g1" and r: "place_rocks_js g1 cs = Inr g'"
    by (auto split: sum.splits)
  from "2.IH" [OF w r write_cell_js_len [OF w "2.prems"(2)]] show ?case by simp
qed simp

lemma generateMap_input_lengths:
  assumes "generateMap_input input = Inr (g, m)"
  shows "js_length_ok (map_lengths_input input) g"
proof -
  let ?n = "nat (m + 5)"
  have md: "maxDepth_js (parse_input input) = JNum m" and m0: "0 \<le> m"
    and run: "place_rocks_js (set_cell (replicate ?n air_row) SAND_DROP_POINT START)
                (concat (map generateRockCoordinatesFromPath_js (parse_input input))) = Inr g"
    using generateMap_input_run [OF assms] by auto
  have "row_len_ok air_row (nat MAP_WIDTH)"
    by (auto simp: row_len_ok_def air_row_def MAP_WIDTH_def INDEX_LIMIT_def)
  then have "js_length_ok (replicate ?n (nat MAP_WIDTH)) (replicate ?n air_row)"
    by (simp add: js_length_ok_def)
  moreover have "has_row (replicate ?n air_row) 0" using m0 by (simp add: has_row_def)
  moreover have "(replicate ?n (nat MAP_WIDTH))[0 := nat MAP_WIDTH] = replicate ?n (nat MAP_WIDTH)"
    by (simp add: list_eq_iff_nth_eq nth_list_update)
  ultimately have "js_length_ok (replicate ?n (nat MAP_WIDTH)) (set_cell (replicate ?n air_row) SAND_DROP_POINT START)"
    using js_length_ok_set_cell [of "replicate ?n (nat MAP_WIDTH)" "replicate ?n air_row" 0 500 START] m0
    by (simp add: SAND_DROP_POINT_def INDEX_LIMIT_def MAP_WIDTH_def)
  from place_rocks_len_ok [OF run this] md show ?thesis
    by (simp add: map_lengths_input_def)
qed


subsection \<open>The two runs after a successful build\<close>

lemma generateMap_input_floor:
  assumes "generateMap_input input = Inr (g, m)"
  obtains gf where "addFloorToMap g (m + 2) = Inr gf" "grid_inv gf" "length gf = length g"
    "cell gf SAND_DROP_POINT \<noteq> None" "\<And>x. 0 \<le> snd x \<Longrightarrow> (cell gf x \<noteq> None) = (cell g x \<noteq> None)"
proof -
  have f: "0 \<le> m" "length g = nat (m + 5)" "grid_inv g" "cell g SAND_DROP_POINT \<noteq> None"
    using generateMap_input_facts [OF assms] by auto
  then have "has_row g (m + 2)" by (simp add: has_row_def)
  then obtain gf where af: "addFloorToMap g (m + 2) = Inr gf" by (simp add: addFloorToMap_eq)
  note c = cell_addFloorToMap [OF af]
  show ?thesis
  proof (rule that [OF af grid_inv_addFloorToMap [OF af f(3)] c(1)])
    show "cell gf SAND_DROP_POINT \<noteq> None" using f c(2) [of SAND_DROP_POINT] by (simp add: SAND_DROP_POINT_def)
    show "(cell gf x \<noteq> None) = (cell g x \<noteq> None)" if "0 \<le> snd x" for x
      using that c(2) [of x] by simp
  qed
qed

lemma task1_input_after_builder:
  assumes "generateMap_input input = Inr (g, m)"
  shows "\<exists>g1 n1. task1_input input = Some (Inr (g1, n1))"
    and "task1_input input = Some (Inr (g1, n1)) \<Longrightarrow> js_length_ok (map_lengths_input input) g1"
proof -
  have f: "0 \<le> m" "length g = nat (m + 5)" "grid_inv g" "cell g SAND_DROP_POINT \<noteq> None"
    using generateMap_input_facts [OF assms] by auto
  then have lim: "m < int (length g)" by simp
  have run: "task1_input input = drop_loop g m 0" using assms by (simp add: task1_input_def)
  show "\<exists>g1 n1. task1_input input = Some (Inr (g1, n1))"
    using drop_loop_terminates [OF f(3) lim, of 0] run by simp
  assume "task1_input input = Some (Inr (g1, n1))"
  then have "drop_loop g m 0 = Some (Inr (g1, n1))" using run by simp
  from drop_loop_present [OF this lim f(4)] have l1: "length g1 = length g"
    and p1: "\<forall>x. (cell g1 x \<noteq> None) = (cell g x \<noteq> None)" by auto
  from js_length_ok_nonneg [OF generateMap_input_lengths [OF assms] l1] p1
  show "js_length_ok (map_lengths_input input) g1" by blast
qed

lemma task2_input_after_builder:
  assumes "generateMap_input input = Inr (g, m)"
  shows "\<exists>g2 n2. task2_input input = Some (Inr (g2, n2))"
    and "task2_input input = Some (Inr (g2, n2)) \<Longrightarrow> js_length_ok (map_lengths_input input) g2"
proof -
  have f: "0 \<le> m" "length g = nat (m + 5)"
    using generateMap_input_facts [OF assms] by auto
  obtain gf where af: "addFloorToMap g (m + 2) = Inr gf" and inv: "grid_inv gf" and len: "length gf = length g"
    and src: "cell gf SAND_DROP_POINT \<noteq> None"
    and pres: "\<And>x. 0 \<le> snd x \<Longrightarrow> (cell gf x \<noteq> None) = (cell g x \<noteq> None)"
    by (rule generateMap_input_floor [OF assms]) blast
  have lim: "m + 2 < int (length gf)" using f len by simp
  have run: "task2_input input = map_option (map_sum id (\<lambda>(g'', sandCount). (g'', sandCount + 1)))
                                   (drop_loop gf (m + 2) 0)"
    using assms af by (simp add: task2_input_def)
  show "\<exists>g2 n2. task2_input input = Some (Inr (g2, n2))"
  proof -
    obtain g' k where "drop_loop gf (m + 2) 0 = Some (Inr (g', k))"
      using drop_loop_terminates [OF inv lim, of 0] by blast
    then show ?thesis using run by simp
  qed
  assume "task2_input input = Some (Inr (g2, n2))"
  then obtain k where "drop_loop gf (m + 2) 0 = Some (Inr (g2, k))"
    using run by (cases "drop_loop gf (m + 2) 0") (auto simp: map_sum_def split: sum.splits)
  from drop_loop_present [OF this lim src] have l2: "length g2 = length g"
    and p2: "\<forall>x. (cell g2 x \<noteq> None) = (cell gf x \<noteq> None)" using len by auto
  have "(cell g2 x \<noteq> None) = (cell g x \<noteq> None)" if "0 \<le> snd x" for x
    using p2 pres [OF that] by blast
  from js_length_ok_nonneg [OF generateMap_input_lengths [OF assms] l2 this]
  show "js_length_ok (map_lengths_input input) g2" .
qed

lemma tasks_on_builder_error:
  "generateMap_input input = Inl e \<Longrightarrow> task1_input input = Some (Inl e) \<and> task2_input input = Some (Inl e)"
  by (simp add: task1_input_def task2_input_def)

lemma main_builder_error:
  "generateMap_input input = Inl e \<Longrightarrow> main input = Some ([''TASK 1''], Uncaught e)"
  by (simp add: main_def task1_output_def task1_input_def)

lemma length_render_grid:
  "length (render_grid lens g) = min (length lens) (length g)"
  by (simp add: render_grid_def scaleDownMapAfterResult_def split: prod.splits)

lemma task_outputs_after_builder:
  assumes "generateMap_input input = Inr (g, m)"
  shows "\<exists>rows1 n1 rows2 n2.
           task1_output input = Some (Inr (rows1, n1)) \<and> task2_output input = Some (Inr (rows2, n2)) \<and>
           length rows1 = length g \<and> length rows2 = length g \<and>
           (\<exists>g1. task1_input input = Some (Inr (g1, n1))) \<and> (\<exists>g2. task2_input input = Some (Inr (g2, n2)))"
proof -
  obtain g1 n1 where t1: "task1_input input = Some (Inr (g1, n1))"
    using task1_input_after_builder(1) [OF assms] by blast
  obtain g2 n2 where t2: "task2_input input = Some (Inr (g2, n2))"
    using task2_input_after_builder(1) [OF assms] by blast
  have l1: "length (map_lengths_input input) = length g1"
    using task1_input_after_builder(2) [OF assms t1] by (simp add: js_length_ok_def)
  have l2: "length (map_lengths_input input) = length g2"
    using task2_input_after_builder(2) [OF assms t2] by (simp add: js_length_ok_def)
  have l: "length (map_lengths_input input) = length g"
    using generateMap_input_lengths [OF assms] by (simp add: js_length_ok_def)
  show ?thesis
    using t1 t2 l1 l2 l
    by (auto simp: task1_output_def task2_output_def length_render_grid)
qed

lemma main_after_outputs:
  "task1_output input = Some (Inr (rows1, n1)) \<Longrightarrow> task2_output input = Some (Inr (rows2, n2)) \<Longrightarrow>
   main input = Some (''TASK 1'' # rows1 @ [log_count ''sandCount1'' n1, ''TASK 2''] @ rows2 @
                      [log_count ''sandCount2'' n2], Exit)"
  by (simp add: main_def)

lemma main_builder_ok:
  assumes "generateMap_input input = Inr (g, m)"
  shows "\<exists>out. main input = Some (out, Exit)"
  using task_outputs_after_builder [OF assms] main_after_outputs by blast

subsection \<open>A rock right of the preallocated columns\<close>

lemma wide_rock_parse:
  "parse_input ''1200,0'' = map (map js_coord) [[(0, 1200)]]"
  by (simp add: parse_input_def js_split_def parse_pair_def parseInt_def js_index_def digits_to_nat_def
                digit_value_def js_whitespace_def js_coord_def)

lemma wide_rock_built:
  "\<exists>g. generateMap_input ''1200,0'' = Inr (g, 0)"
  by (simp add: generateMap_input_def wide_rock_parse maxDepth_js_def js_max_def js_coord_def
                new_Array_def write_cell_eq has_row_def SAND_DROP_POINT_def generateRockCoordinatesFromPath_js_def
                write_cell_js_def)

subsection \<open>Properties of the whole script\<close>

text \<open>
  C28. The script always ends: on every input file it either prints both
  pictures and both counts and exits, or stops at an uncaught exception.
\<close>

theorem program_terminates:
  "\<exists>out st. main input = Some (out, st)"
proof (cases "generateMap_input input")
  case (Inl e)
  then show ?thesis using main_builder_error [OF Inl] by blast
next
  case (Inr gm)
  then obtain g m where "generateMap_input input = Inr (g, m)" by (cases gm) auto
  from main_builder_ok [OF this] show ?thesis by blast
qed

text \<open>
  C29. The lengths \<open>map_lengths_input\<close> computed from the rock writes of the
  builder are the JS lengths of the rows of the final grid of each run: in every
  row, every present index below \<open>2^32 - 1\<close> is below the length and the last
  index is present. The loop and the floor only write where a slot is present,
  so the arrays \<^verbatim>\<open>scaleDownMapAfterResult\<close> slices are as long as the builder
  left them.
\<close>

theorem output_lengths_exact:
  "(task1_input input = Some (Inr (g1, n1)) \<longrightarrow> js_length_ok (map_lengths_input input) g1) \<and>
   (task2_input input = Some (Inr (g2, n2)) \<longrightarrow> js_length_ok (map_lengths_input input) g2)"
proof (cases "generateMap_input input")
  case (Inl e)
  then show ?thesis using tasks_on_builder_error [OF Inl] by simp
next
  case (Inr gm)
  then obtain g m where b: "generateMap_input input = Inr (g, m)" by (cases gm) auto
  show ?thesis
    using task1_input_after_builder(2) [OF b] task2_input_after_builder(2) [OF b] by blast
qed

theorem output_lengths_exact_witness:
  "map_lengths_input ''1200,0'' = [1201, 1000, 1000, 1000, 1000] \<and>
   (\<exists>g1 n1 g2 n2. task1_input ''1200,0'' = Some (Inr (g1, n1)) \<and> task2_input ''1200,0'' = Some (Inr (g2, n2)) \<and>
      js_length_ok [1201, 1000, 1000, 1000, 1000] g1 \<and> js_length_ok [1201, 1000, 1000, 1000, 1000] g2)"
proof -
  have len: "map_lengths_input ''1200,0'' = [1201, 1000, 1000, 1000, 1000]"
    by (simp add: map_lengths_input_def wide_rock_parse maxDepth_js_def js_max_def js_coord_def
                  write_len_def INDEX_LIMIT_def MAP_WIDTH_def generateRockCoordinatesFromPath_js_def
                  numeral_eq_Suc)
  obtain g where b: "generateMap_input ''1200,0'' = Inr (g, 0)"
    using wide_rock_built by blast
  obtain g1 n1 where t1: "task1_input ''1200,0'' = Some (Inr (g1, n1))"
    using task1_input_after_builder(1) [OF b] by blast
  obtain g2 n2 where t2: "task2_input ''1200,0'' = Some (Inr (g2, n2))"
    using task2_input_after_builder(1) [OF b] by blast
  show ?thesis
    using output_lengths_exact [of "''1200,0''" g1 n1 g2 n2] t1 t2 len by auto
qed

text \<open>
  C30. An exception escapes the script exactly when the builder throws: the
  script has then printed only \<^verbatim>\<open>TASK 1\<close>. Once the grid is built neither run
  throws (its depths are inside the grid and the floor row exists), so the
  \<^verbatim>\<open>TypeError\<close> paths of \<^verbatim>\<open>sandDrop\<close> and \<^verbatim>\<open>addFloorToMap\<close> are never taken.
\<close>

theorem main_uncaught_iff:
  "main input = Some (out, Uncaught e) \<longleftrightarrow> out = [''TASK 1''] \<and> generateMap_input input = Inl e"
proof (cases "generateMap_input input")
  case (Inl e')
  then show ?thesis using main_builder_error [OF Inl] by auto
next
  case (Inr gm)
  then obtain g m where b: "generateMap_input input = Inr (g, m)" by (cases gm) auto
  from main_builder_ok [OF b] b show ?thesis by auto
qed

theorem main_uncaught_iff_witness:
  "main ''498,4\<newline>'' = Some ([''TASK 1''], Uncaught RangeError)"
proof -
  have "generateMap_input ''498,4\<newline>'' = Inl RangeError"
    using generateMap_input_trailing_newline [of "''498,4''"] by simp
  then show ?thesis
    using main_uncaught_iff [of "''498,4\<newline>''" "[''TASK 1'']" RangeError] by simp
qed


text \<open>
  C31. Once the grid is built the script prints \<^verbatim>\<open>TASK 1\<close>, one line per row
  of the grid (\<^verbatim>\<open>maxDepth + 5\<close> lines), the count of the first run as
  \<^verbatim>\<open>{ sandCount1: n }\<close>, \<^verbatim>\<open>TASK 2\<close>, the rows of the second run and its
  count, and exits normally: the printed counts are those the two runs return.
\<close>

theorem main_exit_output:
  assumes "generateMap_input input = Inr (g, m)"
  shows "\<exists>rows1 n1 rows2 n2.
           main input = Some (''TASK 1'' # rows1 @ [log_count ''sandCount1'' n1, ''TASK 2''] @ rows2 @
                              [log_count ''sandCount2'' n2], Exit) \<and>
           length rows1 = nat (m + 5) \<and> length rows2 = nat (m + 5) \<and>
           (\<exists>g1. task1_input input = Some (Inr (g1, n1))) \<and> (\<exists>g2. task2_input input = Some (Inr (g2, n2)))"
proof -
  have "length g = nat (m + 5)" using generateMap_input_facts [OF assms] by simp
  with task_outputs_after_builder [OF assms] main_after_outputs show ?thesis by metis
qed

theorem main_exit_output_witness:
  "\<exists>rows1 n1 rows2 n2.
     main ''1200,0'' = Some (''TASK 1'' # rows1 @ [log_count ''sandCount1'' n1, ''TASK 2''] @ rows2 @
                             [log_count ''sandCount2'' n2], Exit) \<and>
     length rows1 = 5 \<and> length rows2 = 5 \<and>
     (\<exists>g1. task1_input ''1200,0'' = Some (Inr (g1, n1))) \<and> (\<exists>g2. task2_input ''1200,0'' = Some (Inr (g2, n2)))"
proof -
  obtain g where b: "generateMap_input ''1200,0'' = Inr (g, 0)"
    using wide_rock_built by blast
  from main_exit_output [OF b] show ?thesis by simp
qed

end
