(* ===== verification/Spec2Isabelle.thy ===== *)
theory Spec2Isabelle
  imports Program
begin

text \<open>
  \<^bold>\<open>Falling sand (src/day14/task.ts) in Isabelle/HOL.\<close>

  \<^emph>\<open>The program.\<close> One TypeScript file. \<^verbatim>\<open>generateMap\<close> reads the input
  file, splits it into lines, points and fields, reads each field with
  \<^verbatim>\<open>Number.parseInt\<close>, rasterizes each rock path with
  \<^verbatim>\<open>generateRockCoordinatesFromPath\<close> (using \<^verbatim>\<open>getRocksToFill\<close>) and builds
  the grid \<^verbatim>\<open>map: string[][]\<close> of \<^verbatim>\<open>maxDepth + 5\<close> rows of 1000 cells,
  marking the source \<^verbatim>\<open>SAND_DROP_POINT = [0, 500]\<close> and the rock cells.
  \<^verbatim>\<open>task1\<close> (open floor) and \<^verbatim>\<open>task2\<close> (closed floor, after
  \<^verbatim>\<open>addFloorToMap\<close> at \<^verbatim>\<open>maxDepth + 2\<close>) run
  \<^verbatim>\<open>while (sandDrop(...)) sandCount += 1\<close>. \<^verbatim>\<open>sandDrop\<close> moves one unit down,
  down-left or down-right through cells that \<^verbatim>\<open>isBlocked\<close> reports free, writing
  air behind it and sand ahead of it, and returns false at the depth limit or when
  the unit rests on the \<^verbatim>\<open>SAND_DROP_POINT\<close> object itself.
  \<^verbatim>\<open>scaleDownMapAfterResult\<close> crops the final grid and the tasks print it.
  The top level (lines 157--177) prints \<^verbatim>\<open>TASK 1\<close>, runs \<^verbatim>\<open>task1\<close>, logs
  \<^verbatim>\<open>{ sandCount1 }\<close>, and the same for the second run.

  \<^emph>\<open>Theories.\<close>
  \<^item> \<open>Sand_Prelude\<close>: the coordinate type (\<^verbatim>\<open>Coordinates\<close>, JS numbers as
    unbounded \<open>int\<close>), \<^verbatim>\<open>Number.MAX_SAFE_INTEGER\<close>, the JS errors \<open>TypeError\<close> and \<open>RangeError\<close>,
    \<^verbatim>\<open>Array(len)\<close> as \<open>new_Array\<close>, the collection \<open>grid_simps\<close>, and generic
    lemmas on error propagation, counting and reading results out of runs.
  \<^item> \<open>Sand_Grid\<close>: \<^verbatim>\<open>CHARS\<close> as the datatype \<open>tile\<close>, the grid as a list of
    rows, each row a partial map from integer keys to tiles (\<open>None\<close> is JS
    \<^verbatim>\<open>undefined\<close>: a hole, a key past the end, a negative key). \<open>read_cell\<close>
    and \<open>write_cell\<close> are \<^verbatim>\<open>map[d][h]\<close> with the \<open>TypeError\<close> of a missing row;
    \<open>isBlocked\<close> is the source's test \<^verbatim>\<open>!== CHARS.AIR\<close>. The pure views
    \<open>cell\<close>, \<open>set_cell\<close>, \<open>blocked\<close>, \<open>cells_with\<close> and the invariant
    \<open>grid_inv\<close> (finitely many air and sand cells, no sand on the source) carry
    the proofs.
  \<^item> \<open>Rock_Raster\<close>: \<^verbatim>\<open>getRocksToFill\<close>, the loop body \<open>segment_fill\<close> and
    \<^verbatim>\<open>generateRockCoordinatesFromPath\<close> on integer vertices, with their cell
    sets.
  \<^item> \<open>Grid_Builder\<close>: \<^verbatim>\<open>generateMap\<close> on paths whose fields are numbers
    (\<open>maxDepth_of\<close> is the \<^verbatim>\<open>Math.max\<close> accumulation, \<open>new_Array\<close> the
    allocation with its \<open>RangeError\<close>, \<open>place_rocks\<close> the \<^verbatim>\<open>forEach\<close>),
    \<^verbatim>\<open>addFloorToMap\<close> with the semantics of \<^verbatim>\<open>Array.prototype.map\<close> on a sparse
    row; the built grid cell by cell and its invariant.
  \<^item> \<open>Sand_Drop\<close>: \<open>move_unit\<close> (the two writes of a move) and \<^verbatim>\<open>sandDrop\<close>,
    whose flag \<open>is_drop_point\<close> is the object identity
    \<^verbatim>\<open>coordinates === SAND_DROP_POINT\<close> (true for the driver's call only, since
    recursive calls get fresh arrays). The spec's descent is the abstract \<open>fall\<close>
    over a predicate of blocked cells, returning \<open>Rest\<close> or \<open>Escape\<close>;
    \<open>sandDrop_fall\<close> is the refinement: \<^verbatim>\<open>sandDrop\<close> computes \<open>fall\<close> on the
    cells blocked when it starts, and its writes amount to \<open>drop_effect\<close>.
  \<^item> \<open>Sand_Driver\<close>: the loop \<open>drop_loop\<close> and \<^verbatim>\<open>task1\<close>/\<^verbatim>\<open>task2\<close> on the
    parsed paths (returning the final grid and the reported count); the
    inductive \<open>settles\<close> of the states the loop passes through, with the
    invariants kept by rule induction (\<open>settles_inv\<close>, \<open>settles_frame\<close>,
    \<open>settles_sand_ok\<close>).
  \<^item> \<open>Js_Input\<close>: the reader of \<^verbatim>\<open>generateMap\<close> (lines 49--57):
    \<^verbatim>\<open>String.prototype.split\<close> as \<open>js_split\<close>, \<^verbatim>\<open>Number.parseInt\<close> as
    \<open>parseInt\<close>, the fields as JS values \<open>jsnum\<close> (an integer, \<^verbatim>\<open>NaN\<close> or
    \<^verbatim>\<open>undefined\<close>), and the printer \<open>print_paths\<close> of the puzzle format used to
    state the roundtrip.
  \<^item> \<open>Input_Map\<close>: \<^verbatim>\<open>generateMap\<close>, \<^verbatim>\<open>task1\<close> and \<^verbatim>\<open>task2\<close> on the file text
    (\<open>generateMap_input\<close>, \<open>task1_input\<close>, \<open>task2_input\<close>), computing on
    \<open>jsnum\<close> with JS's \<^verbatim>\<open>Math.max\<close>, \<^verbatim>\<open>===\<close>, loop bounds and property writes;
    on numeric input they reduce to the integer model.
  \<^item> \<open>Render\<close>: \<^verbatim>\<open>scaleDownMapAfterResult\<close> on the rows as JS arrays, with
    \<^verbatim>\<open>findIndex\<close>, \<^verbatim>\<open>findLastIndex\<close> and \<^verbatim>\<open>slice\<close>, and the printed lines
    (\<^verbatim>\<open>line.join('')\<close>); \<open>render_grid\<close> reads each row as an array of a
    given length.
  \<^item> \<open>Program\<close>: the whole script on the file text. \<open>write_len\<close> and
    \<open>place_rocks_len\<close> are the effect of the rock writes of \<^verbatim>\<open>generateMap\<close>
    (lines 67--71) on the JS length of each row (a write at an array index past
    the end makes the length that index plus one; a negative key, a key from
    \<open>2^32 - 1\<close> on or a \<^verbatim>\<open>NaN\<close> key is a plain property), and
    \<open>map_lengths_input\<close> the lengths after the builder; \<open>js_length_ok\<close> says
    they are the lengths of a grid. \<open>task1_output\<close>, \<open>task2_output\<close> are the
    runs with the picture each prints and the count it returns; \<open>main\<close> is the
    top level, the printed lines and how the script ends (\<open>Exit\<close> or
    \<open>Uncaught\<close> with the exception), \<open>log_count\<close> the line
    \<^verbatim>\<open>console.log({ sandCount1 })\<close> prints.
  \<^item> This theory: the header, the witness inputs, the condition \<open>js_exact\<close>
    on rock paths under which the integer model is exact JS, and the properties
    that span components.

  \<^emph>\<open>Termination.\<close> No fuel is used. \<^verbatim>\<open>sandDrop\<close> and \<open>fall\<close> are total
  by the measure \<open>limit - depth\<close>: every call descends one row; the JS
  \<^verbatim>\<open>for\<close> loop \<open>js_count_up\<close> by the distance to its bound, and
  \<open>split_acc\<close> by the length of the text left. The driver loop is a
  \<^theory_text>\<open>partial_function (option)\<close>, where \<open>None\<close> would be a run that never
  stops; \<open>drop_loop_terminates\<close> proves it returns from every grid satisfying
  \<open>grid_inv\<close> with rows down to the limit, by induction on \<open>free_measure\<close> (air
  cells, plus one while the source is not air), which every counted unit lowers
  by exactly one. With the facts of the builder (\<open>generateMap_input_facts\<close>:
  the built grid satisfies \<open>grid_inv\<close> and has \<^verbatim>\<open>maxDepth + 5\<close> rows) this
  gives the termination of the whole script.

  \<^emph>\<open>The properties.\<close> C1 the refinement of \<^verbatim>\<open>sandDrop\<close>; C2 termination of
  both runs; C3 and C4 what the counts of the two runs mean in terms of the final
  grid; C5 rock is kept; C6 the spread of the closed-floor pile, which fits in
  1000 columns while \<^verbatim>\<open>maxDepth \<le> 498\<close>; C7 a settled unit is stuck; C8 the
  error paths (\<open>RangeError\<close> of the allocation, \<open>TypeError\<close> of a negative
  depth) on paths where the model is exact JS; C9 to C13 the rasterizer and the
  builder; C14 to C17 behaviours the spec does not describe: a rock on the source
  is erased, the open-floor loop also stops at a blocked source, the loop keeps
  the invariant, cells beyond the 1000 columns act as walls. C18 to C21 and C25
  the reader: the parse/print roundtrip on safe integers, the \<open>RangeError\<close> of
  an input that ends with a newline, the refinement of the text-level runs to the
  integer model, a malformed point cutting its path in two, and the lenient
  \<^verbatim>\<open>parseInt\<close>; C26 the shape of every parse. C22 to C24 and C27 the rendering:
  the crop keeps every non-air cell when its window fits, each printed character
  is a grid cell, the window wraps around when sand or rock lies within five
  columns of the left edge, and a row starting with rock is skipped as if it were
  the floor. C28 to C31 the whole script: it always ends, the row lengths
  computed from the builder's writes are the lengths of the arrays the crop
  slices in both runs, an exception escapes exactly when the builder throws,
  after \<^verbatim>\<open>TASK 1\<close> and nothing else was printed, and otherwise the output is
  the two headers, two pictures of \<^verbatim>\<open>maxDepth + 5\<close> lines and the two counts
  the runs return.

  \<^emph>\<open>Not modelled.\<close> \<^verbatim>\<open>Deno.readTextFileSync\<close>: the model takes the file's
  text as its input, a list of code units in the Latin-1 range of Isabelle's
  \<open>char\<close>. \<^verbatim>\<open>console.log\<close>: the output is the list of printed lines; the
  formatting of the logged object is written out for a natural number.
  JS numbers are unbounded integers, which is exact only on safe integers
  (magnitude at most \<^verbatim>\<open>MAX_SAFE_INTEGER = 2^53 - 1\<close>). Beyond them JS
  \<^verbatim>\<open>parseInt\<close> rounds to the nearest double and the rasterizer's
  \<^verbatim>\<open>d++\<close>/\<^verbatim>\<open>h++\<close> stops advancing; and an array of the code holds at most
  \<open>2^32 - 1\<close> elements, so a \<^verbatim>\<open>push\<close> of \<^verbatim>\<open>generateRockCoordinatesFromPath\<close>
  past that throws a \<open>RangeError\<close>. The model has none of these; the claims
  that depend on them (C8 on the errors, C18 the roundtrip) assume the range in
  which the model is the code (\<open>js_exact\<close>, safe integers). A row's JS length
  is kept beside the grid (\<open>map_lengths_input\<close>) rather than in it, since
  only the rendering reads it. \<^verbatim>\<open>addFloorToMap\<close> copies only array indices;
  the model keeps a non-negative key from \<open>2^32 - 1\<close> on as rock where JS
  drops it, which no read can tell apart (such a cell blocks either way and is
  never printed). The rendering is proved in general and evaluated on short
  rows; no run over the full 1000 columns is evaluated.
\<close>

section \<open>Inputs used by the witnesses\<close>

text \<open>
  Rock paths as \<^verbatim>\<open>generateMap\<close> produces them from the text input, each vertex a
  \<^verbatim>\<open>[depth, horizontal]\<close> pair. \<open>ledge_paths\<close> is one short ledge under the source.
\<close>

definition ledge_paths :: "coord list list" where
  "ledge_paths = [[(2, 499), (2, 501)]]"

text \<open>
  \<open>source_rock_paths\<close> puts a rock on the source cell itself; \<open>shelf_paths\<close> is a
  shelf right under the source, on which the first unit already rests at the source.
\<close>

definition source_rock_paths :: "coord list list" where
  "source_rock_paths = [[(0, 500)], [(3, 400)]]"

definition shelf_paths :: "coord list list" where
  "shelf_paths = [[(1, 499), (1, 501)]]"

section \<open>Where integers are JS numbers\<close>

text \<open>
  The model computes on unbounded integers where the code computes on doubles and
  on arrays of at most \<open>2^32 - 1\<close> elements. The two agree on rock paths whose
  vertices are safe integers (magnitude at most \<^verbatim>\<open>Number.MAX_SAFE_INTEGER\<close>,
  so \<^verbatim>\<open>d++\<close> and \<^verbatim>\<open>h++\<close> of the rasterizer are exact) and whose
  rasterization has fewer than \<open>2^32\<close> coordinates (so no \<^verbatim>\<open>push\<close> of
  \<^verbatim>\<open>generateRockCoordinatesFromPath\<close> throws its \<open>RangeError\<close> and
  \<^verbatim>\<open>flat\<close> keeps every coordinate an array element). \<open>js_exact\<close> is that
  condition; the claims about errors assume it.
\<close>

definition js_exact :: "coord list list \<Rightarrow> bool" where
  "js_exact rockPaths \<longleftrightarrow>
     (\<forall>c \<in> set (concat rockPaths). \<bar>fst c\<bar> \<le> MAX_SAFE_INTEGER \<and> \<bar>snd c\<bar> \<le> MAX_SAFE_INTEGER) \<and>
     length (concat (map generateRockCoordinatesFromPath rockPaths)) < 2 ^ 32"

section \<open>The settling engine\<close>

text \<open>
  C1. One call of \<^verbatim>\<open>sandDrop\<close> from a cell with rows down to the depth limit
  computes the descent of the spec over the cells that are blocked when it starts
  (straight down, then down-left, then down-right, escape at the limit), never
  raises, and leaves the grid with the start cell cleared to air and the final
  cell marked sand whenever the unit moved. It returns true exactly when the unit
  came to rest and either moved or was not called on the \<^verbatim>\<open>SAND_DROP_POINT\<close>
  object itself, and false on escape.
\<close>

theorem sandDrop_implements_descent:
  assumes "0 \<le> depth" "maxDepth < int (length g)"
  shows "sandDrop g (depth, horizontal) is_drop_point maxDepth =
    (case fall (blocked g) maxDepth (depth, horizontal) of
       Rest q \<Rightarrow> Inr (if q = (depth, horizontal) then g
                      else set_cell (set_cell g (depth, horizontal) AIR) q SAND,
                      q \<noteq> (depth, horizontal) \<or> \<not> is_drop_point)
     | Escape q \<Rightarrow> Inr (if q = (depth, horizontal) then g
                        else set_cell (set_cell g (depth, horizontal) AIR) q SAND,
                        False))"
  using sandDrop_fall [OF assms]
  by (cases "fall (blocked g) maxDepth (depth, horizontal)") (simp_all add: drop_effect_def)

theorem sandDrop_implements_descent_witness:
  "0 \<le> (0::int) \<and> 2 < int (length (built_grid ledge_paths)) \<and>
   sandDrop (built_grid ledge_paths) (0, 500) True 2 =
    (case fall (blocked (built_grid ledge_paths)) 2 (0, 500) of
       Rest q \<Rightarrow> Inr (if q = (0, 500) then built_grid ledge_paths
                      else set_cell (set_cell (built_grid ledge_paths) (0, 500) AIR) q SAND,
                      q \<noteq> (0, 500) \<or> \<not> True)
     | Escape q \<Rightarrow> Inr (if q = (0, 500) then built_grid ledge_paths
                        else set_cell (set_cell (built_grid ledge_paths) (0, 500) AIR) q SAND,
                        False))"
proof -
  have len: "2 < int (length (built_grid ledge_paths))"
    by (simp add: length_built_grid maxDepth_of_def ledge_paths_def)
  show ?thesis
    using len sandDrop_implements_descent [OF _ len, of 0 500 True] by simp
qed

section \<open>The two runs\<close>

text \<open>
  C2. Both runs stop: for every list of rock paths, the open-floor loop of
  \<^verbatim>\<open>task1\<close> and the closed-floor loop of \<^verbatim>\<open>task2\<close> return a result (a count
  or an error), never run forever.
\<close>

theorem tasks_terminate: "task1 rockPaths \<noteq> None \<and> task2 rockPaths \<noteq> None"
proof (cases "map_fits rockPaths \<and> (\<forall>c \<in> rock_cells rockPaths. 0 \<le> fst c)")
  case True
  then show ?thesis
    using task1_succeeds task2_succeeds by blast
next
  case False
  then show ?thesis by (auto simp: task1_eq task2_eq)
qed

text \<open>
  C8. On paths where the model is exact JS (\<open>js_exact\<close>), the runs raise
  exactly two errors, both while building the grid: the \<open>RangeError\<close> of
  \<^verbatim>\<open>Array(maxDepth + 5)\<close> when that length reaches \<open>2^32\<close>, and otherwise the
  \<open>TypeError\<close> of a rock vertex with a negative depth (the write
  \<^verbatim>\<open>map[depth][horizontal]\<close> on a row that does not exist); with the length
  valid and every vertex at depth 0 or below, both runs return a count. Outside
  \<open>js_exact\<close> the rasterizer's \<^verbatim>\<open>push\<close> can throw a further \<open>RangeError\<close>.
\<close>

theorem tasks_error_iff:
  assumes "js_exact rockPaths"
  shows "(task1 rockPaths = Some (Inl RangeError) \<longleftrightarrow> 2 ^ 32 \<le> maxDepth_of rockPaths + 5) \<and>
   (task2 rockPaths = Some (Inl RangeError) \<longleftrightarrow> 2 ^ 32 \<le> maxDepth_of rockPaths + 5) \<and>
   (task1 rockPaths = Some (Inl TypeError) \<longleftrightarrow>
      maxDepth_of rockPaths + 5 < 2 ^ 32 \<and> (\<exists>c \<in> set (concat rockPaths). fst c < 0)) \<and>
   (task2 rockPaths = Some (Inl TypeError) \<longleftrightarrow>
      maxDepth_of rockPaths + 5 < 2 ^ 32 \<and> (\<exists>c \<in> set (concat rockPaths). fst c < 0))"
proof -
  have neg: "(\<exists>c \<in> set (concat rockPaths). fst c < 0) \<longleftrightarrow> \<not> (\<forall>c \<in> rock_cells rockPaths. 0 \<le> fst c)"
    unfolding rock_depths_nonneg_iff by (auto simp: not_le)
  have ok: "task1 rockPaths \<noteq> Some (Inl e) \<and> task2 rockPaths \<noteq> Some (Inl e)"
    if "map_fits rockPaths" "\<forall>c \<in> rock_cells rockPaths. 0 \<le> fst c" for e
    using task1_succeeds [OF that] task2_succeeds [OF that] by auto
  show ?thesis
    using neg ok [of TypeError] ok [of RangeError] by (auto simp: task1_eq task2_eq map_fits_def)
qed

theorem tasks_error_iff_witness:
  "js_exact [[(-1, 3)]] \<and> task1 [[(-1, 3)]] = Some (Inl TypeError) \<and> task2 [[(-1, 3)]] = Some (Inl TypeError)"
proof -
  have e: "js_exact [[(-1, 3)]]"
    by (simp add: js_exact_def MAX_SAFE_INTEGER_def generateRockCoordinatesFromPath_def)
  have m: "maxDepth_of [[(-1, 3)]] = 0"
    by (simp add: maxDepth_of_def)
  show ?thesis
    using e m tasks_error_iff [OF e] by simp
qed

text \<open>
  C3. Closed floor: when \<^verbatim>\<open>task2\<close> returns grid \<open>g\<close> and count \<open>n\<close>, the count is
  the number of sand cells of \<open>g\<close> plus one, the unit that blocks the source and is
  never written as sand; and in \<open>g\<close> a unit dropped at the source rests at the
  source (the three cells under it are blocked), which is what stopped the loop.
\<close>

theorem closed_floor_count:
  assumes "task2 rockPaths = Some (Inr (g, n))"
  shows "n = card (cells_with SAND g) + 1 \<and>
         fall (blocked g) (maxDepth_of rockPaths + 2) SAND_DROP_POINT = Rest SAND_DROP_POINT"
proof -
  from assms obtain gf k where "n = k + 1" "card (cells_with SAND g) = k"
    "fall (blocked g) (maxDepth_of rockPaths + 2) SAND_DROP_POINT = Rest SAND_DROP_POINT"
    by (rule task2_final)
  then show ?thesis by simp
qed

theorem closed_floor_count_witness:
  "\<exists>g. task2 ledge_paths = Some (Inr (g, 12)) \<and>
       12 = card (cells_with SAND g) + 1 \<and>
       fall (blocked g) (maxDepth_of ledge_paths + 2) SAND_DROP_POINT = Rest SAND_DROP_POINT"
proof -
  have "map_option (map_sum id snd) (task2 ledge_paths) = Some (Inr 12)"
    by code_simp
  from map_option_map_sum_Inr [OF this] obtain y where
    y: "task2 ledge_paths = Some (Inr y)" "snd y = 12"
    by blast
  obtain g where g: "task2 ledge_paths = Some (Inr (g, 12))"
    using y by (cases y) simp
  show ?thesis
    using g closed_floor_count [OF g] by blast
qed

text \<open>
  C4. Open floor: when \<^verbatim>\<open>task1\<close> returns grid \<open>g\<close> and count \<open>n\<close>, the count is
  the number of sand cells above the depth limit \<^verbatim>\<open>maxDepth\<close>, and at most one sand
  cell lies at or below it: the unit that escaped, which \<^verbatim>\<open>sandDrop\<close> wrote as
  sand on its way down and never cleared, although the spec marks sand only at
  final rest.
\<close>

theorem open_floor_count:
  assumes "task1 rockPaths = Some (Inr (g, n))"
  shows "n = card {p \<in> cells_with SAND g. fst p < maxDepth_of rockPaths} \<and>
         card {p \<in> cells_with SAND g. maxDepth_of rockPaths \<le> fst p} \<le> 1"
proof -
  let ?m = "maxDepth_of rockPaths"
  from assms obtain gl where inv: "grid_inv gl" and cnt: "card (cells_with SAND gl) = n"
    and sok: "sand_ok ?m gl"
    and last: "g = gl \<or>
     (\<exists>q. q \<noteq> SAND_DROP_POINT \<and> fst q = ?m \<and> cell gl q = Some AIR \<and>
          g = set_cell (set_cell gl SAND_DROP_POINT AIR) q SAND)"
    by (rule task1_final)
  have above: "{p \<in> cells_with SAND gl. fst p < ?m} = cells_with SAND gl"
    using sok by (auto simp: sand_ok_def)
  have below: "{p \<in> cells_with SAND gl. ?m \<le> fst p} = {}"
    using sok by (auto simp: sand_ok_def not_le [symmetric])
  from last consider "g = gl"
    | q where "q \<noteq> SAND_DROP_POINT" "fst q = ?m" "cell gl q = Some AIR"
        "g = set_cell (set_cell gl SAND_DROP_POINT AIR) q SAND"
    by blast
  then show ?thesis
  proof cases
    case 1
    show ?thesis unfolding 1 above below using cnt by simp
  next
    case 2
    have sand: "cells_with SAND g = insert q (cells_with SAND gl)"
      unfolding 2(4) by (rule cells_with_SAND_settle [OF inv 2(3) 2(1)])
    have "{p \<in> cells_with SAND g. fst p < ?m} = {p \<in> cells_with SAND gl. fst p < ?m}"
      unfolding sand using 2(2) by auto
    then have "{p \<in> cells_with SAND g. fst p < ?m} = cells_with SAND gl"
      by (simp only: above)
    moreover have "{p \<in> cells_with SAND g. ?m \<le> fst p} = insert q {p \<in> cells_with SAND gl. ?m \<le> fst p}"
      unfolding sand using 2(2) by auto
    then have "{p \<in> cells_with SAND g. ?m \<le> fst p} = {q}"
      by (simp only: below)
    ultimately show ?thesis using cnt by simp
  qed
qed

theorem open_floor_count_witness:
  "\<exists>g. task1 ledge_paths = Some (Inr (g, 1)) \<and>
       1 = card {p \<in> cells_with SAND g. fst p < maxDepth_of ledge_paths} \<and>
       card {p \<in> cells_with SAND g. maxDepth_of ledge_paths \<le> fst p} \<le> 1"
proof -
  have "map_option (map_sum id snd) (task1 ledge_paths) = Some (Inr 1)"
    by code_simp
  from map_option_map_sum_Inr [OF this] obtain y where
    y: "task1 ledge_paths = Some (Inr y)" "snd y = 1"
    by blast
  obtain g where g: "task1 ledge_paths = Some (Inr (g, 1))"
    using y by (cases y) simp
  show ?thesis
    using g open_floor_count [OF g] by blast
qed

section \<open>Invariants of the runs\<close>

text \<open>
  C5. Rock stays rock: every rasterized rock cell other than the source cell still
  holds rock in the final grid of either run.
\<close>

theorem rocks_preserved:
  assumes "task1 rockPaths = Some (Inr (g, n)) \<or> task2 rockPaths = Some (Inr (g, n))"
    and rock: "p \<in> rock_cells rockPaths" and src: "p \<noteq> SAND_DROP_POINT"
  shows "cell g p = Some ROCK"
  using assms(1)
proof
  assume "task1 rockPaths = Some (Inr (g, n))"
  then obtain gl where ok: "\<forall>c \<in> rock_cells rockPaths. 0 \<le> fst c"
    and st: "settles (maxDepth_of rockPaths) (built_grid rockPaths) 0 gl n"
    and last: "g = gl \<or>
     (\<exists>q. q \<noteq> SAND_DROP_POINT \<and> fst q = maxDepth_of rockPaths \<and> cell gl q = Some AIR \<and>
          g = set_cell (set_cell gl SAND_DROP_POINT AIR) q SAND)"
    by (rule task1_final)
  have "cell (built_grid rockPaths) p = Some ROCK"
    using cell_built_grid [OF ok] rock by simp
  with settles_frame [OF st built_grid_limits(1) src] have gl: "cell gl p = Some ROCK"
    by simp
  from last show ?thesis
  proof
    assume "g = gl"
    with gl show ?thesis by simp
  next
    assume "\<exists>q. q \<noteq> SAND_DROP_POINT \<and> fst q = maxDepth_of rockPaths \<and> cell gl q = Some AIR \<and>
          g = set_cell (set_cell gl SAND_DROP_POINT AIR) q SAND"
    then obtain q where "cell gl q = Some AIR" "g = set_cell (set_cell gl SAND_DROP_POINT AIR) q SAND"
      by blast
    with gl src show ?thesis by auto
  qed
next
  assume "task2 rockPaths = Some (Inr (g, n))"
  then obtain gf k where ok: "\<forall>c \<in> rock_cells rockPaths. 0 \<le> fst c"
    and gf: "addFloorToMap (built_grid rockPaths) (maxDepth_of rockPaths + 2) = Inr gf"
    and st: "settles (maxDepth_of rockPaths + 2) gf 0 g k"
    by (rule task2_final)
  have "fst p \<noteq> maxDepth_of rockPaths + 2"
    using rock_cell_depth_bounds(2) [OF rock] by simp
  then have "cell gf p = Some ROCK"
    using cell_addFloorToMap(2) [OF gf] cell_built_grid [OF ok] rock by simp
  moreover have "maxDepth_of rockPaths + 2 < int (length gf)"
    using built_grid_limits(2) cell_addFloorToMap(1) [OF gf] by simp
  ultimately show ?thesis
    using settles_frame [OF st _ src] by simp
qed

theorem rocks_preserved_witness:
  "\<exists>g n. (task1 ledge_paths = Some (Inr (g, n)) \<or> task2 ledge_paths = Some (Inr (g, n))) \<and>
         (2, 499) \<in> rock_cells ledge_paths \<and> (2, 499) \<noteq> SAND_DROP_POINT \<and>
         cell g (2, 499) = Some ROCK"
proof -
  have "map_option (map_sum id snd) (task1 ledge_paths) = Some (Inr 1)"
    by code_simp
  from map_option_map_sum_Inr [OF this] obtain y where y: "task1 ledge_paths = Some (Inr y)"
    by blast
  obtain g n where g: "task1 ledge_paths = Some (Inr (g, n))"
    using y by (cases y) simp
  have rock: "(2, 499) \<in> rock_cells ledge_paths"
    by (simp add: rock_cells_def ledge_paths_def generateRockCoordinatesFromPath_def)
  have src: "(2, 499) \<noteq> SAND_DROP_POINT"
    by (simp add: SAND_DROP_POINT_def)
  show ?thesis
    using g rock src rocks_preserved [OF disjI1 [OF g] rock src] by blast
qed

text \<open>
  C6. The closed-floor pile stays within the spread the spec provisions for: every
  sand cell of the final grid of \<^verbatim>\<open>task2\<close> lies above the floor and at most as far
  sideways from the source as it is deep. With \<^verbatim>\<open>maxDepth \<le> 498\<close> the pile
  therefore fits in the 1000 columns the code allocates.
\<close>

theorem closed_floor_spread:
  assumes "task2 rockPaths = Some (Inr (g, n))" and "cell g p = Some SAND"
  shows "fst p \<le> maxDepth_of rockPaths + 1 \<and> \<bar>snd p - snd SAND_DROP_POINT\<bar> \<le> fst p"
proof -
  from assms(1) obtain gf k where "sand_ok (maxDepth_of rockPaths + 2) g"
    by (rule task2_final)
  then have "fst p < maxDepth_of rockPaths + 2 \<and>
             \<bar>snd p - snd SAND_DROP_POINT\<bar> \<le> fst p - fst SAND_DROP_POINT"
    using assms(2) unfolding sand_ok_def by blast
  then show ?thesis
    by (simp add: SAND_DROP_POINT_def)
qed

theorem closed_floor_spread_witness:
  "\<exists>g n. task2 ledge_paths = Some (Inr (g, n)) \<and> cell g (1, 500) = Some SAND \<and>
         fst (1::int, 500::int) \<le> maxDepth_of ledge_paths + 1 \<and>
         \<bar>snd (1::int, 500::int) - snd SAND_DROP_POINT\<bar> \<le> fst (1::int, 500::int)"
proof -
  have "map_option (map_sum id (\<lambda>(g, n). cell g (1, 500))) (task2 ledge_paths) = Some (Inr (Some SAND))"
    by code_simp
  from map_option_map_sum_Inr [OF this] obtain y where
    y: "task2 ledge_paths = Some (Inr y)" "(case y of (g, n) \<Rightarrow> cell g (1, 500)) = Some SAND"
    by blast
  obtain g n where g: "task2 ledge_paths = Some (Inr (g, n))" "cell g (1, 500) = Some SAND"
    using y by (cases y) simp
  show ?thesis
    using g closed_floor_spread [OF g] by blast
qed

section \<open>One unit\<close>

text \<open>
  C7. When \<^verbatim>\<open>sandDrop\<close>, called on the \<^verbatim>\<open>SAND_DROP_POINT\<close> object at a cell
  with rows down to the limit, reports a settled unit, the unit moved and now
  rests as sand on a cell above the limit whose three cells below (down,
  down-left, down-right) are all blocked; the start cell is air, and the unit
  drifted sideways at most one column per row it fell.
\<close>

theorem settled_unit_stuck:
  assumes "0 \<le> depth" "maxDepth < int (length g)"
    and "sandDrop g (depth, horizontal) True maxDepth = Inr (g', True)"
  shows "\<exists>q. q \<noteq> (depth, horizontal) \<and> cell g' q = Some SAND \<and> cell g' (depth, horizontal) = Some AIR \<and>
             fst q < maxDepth \<and> blocked g' (fst q + 1, snd q) \<and>
             blocked g' (fst q + 1, snd q - 1) \<and> blocked g' (fst q + 1, snd q + 1) \<and>
             \<bar>snd q - horizontal\<bar> \<le> fst q - depth"
proof -
  let ?p = "(depth, horizontal)"
  have run: "sandDrop g ?p True maxDepth = Inr (drop_effect g ?p True (fall (blocked g) maxDepth ?p))"
    by (rule sandDrop_fall [OF assms(1,2)])
  obtain q where rest: "fall (blocked g) maxDepth ?p = Rest q" and q: "q \<noteq> ?p"
    and g': "g' = set_cell (set_cell g ?p AIR) q SAND"
    using assms(3) run by (cases "fall (blocked g) maxDepth ?p") (auto simp: drop_effect_def split: if_splits)
  have stuck: "fst q < maxDepth" "blocked g (fst q + 1, snd q)"
    "blocked g (fst q + 1, snd q - 1)" "blocked g (fst q + 1, snd q + 1)"
    using fall_Rest_stuck [OF rest] by simp_all
  have spread: "\<bar>snd q - horizontal\<bar> \<le> fst q - depth"
    using fall_spread [of "blocked g" maxDepth ?p] rest by simp
  have deeper: "depth < fst q"
  proof (rule ccontr)
    assume "\<not> depth < fst q"
    with fall_depth_mono [of ?p "blocked g" maxDepth] rest have "fst q = depth" by simp
    moreover from this spread have "snd q = horizontal" by simp
    ultimately show False using q by (cases q) simp
  qed
  have rows: "has_row g depth" "has_row g (fst q)"
    using assms(1,2) stuck(1) deeper by (auto simp: has_row_def)
  have below: "blocked g' (fst q + 1, k) = blocked g (fst q + 1, k)" for k
    unfolding g' using deeper by (intro blocked_after_move) simp_all
  have cells: "cell g' q = Some SAND" "cell g' ?p = Some AIR"
    using q rows by (auto simp: g')
  show ?thesis
    using q cells stuck spread by (intro exI [of _ q]) (simp add: below)
qed

theorem settled_unit_stuck_witness:
  "\<exists>g'. 0 \<le> (0::int) \<and> 2 < int (length (built_grid ledge_paths)) \<and>
        sandDrop (built_grid ledge_paths) (0, 500) True 2 = Inr (g', True) \<and>
        (\<exists>q. q \<noteq> (0, 500) \<and> cell g' q = Some SAND \<and> cell g' (0, 500) = Some AIR \<and>
             fst q < 2 \<and> blocked g' (fst q + 1, snd q) \<and>
             blocked g' (fst q + 1, snd q - 1) \<and> blocked g' (fst q + 1, snd q + 1) \<and>
             \<bar>snd q - 500\<bar> \<le> fst q - 0)"
proof -
  have len: "2 < int (length (built_grid ledge_paths))"
    by (simp add: length_built_grid maxDepth_of_def ledge_paths_def)
  have "map_sum id snd (sandDrop (built_grid ledge_paths) (0, 500) True 2) = Inr True"
    by code_simp
  from map_sum_id_Inr [OF this] obtain y where
    y: "sandDrop (built_grid ledge_paths) (0, 500) True 2 = Inr y" "snd y = True"
    by blast
  obtain g' where g': "sandDrop (built_grid ledge_paths) (0, 500) True 2 = Inr (g', True)"
    using y by (cases y) simp
  show ?thesis
    using len g' settled_unit_stuck [OF _ len g'] by blast
qed

section \<open>Behaviours the spec does not describe\<close>

text \<open>
  C14. A rock on the source cell does not stay rock. The first unit moves away
  from the source whenever the cell under it is free, and each move overwrites
  the cell it leaves with air, whatever it held (the start marker or a rock
  rasterized onto it); no later write puts anything but air there. So the final
  grid of either run has air on the source, where the spec keeps rock cells
  blocked for good.
\<close>

theorem source_rock_erased:
  assumes "SAND_DROP_POINT \<in> rock_cells rockPaths" "(1, 500) \<notin> rock_cells rockPaths"
  shows "(task1 rockPaths = Some (Inr (g1, n1)) \<and> 0 < maxDepth_of rockPaths \<longrightarrow>
            cell g1 SAND_DROP_POINT = Some AIR) \<and>
         (task2 rockPaths = Some (Inr (g2, n2)) \<longrightarrow> cell g2 SAND_DROP_POINT = Some AIR)"
proof -
  let ?m = "maxDepth_of rockPaths" and ?g = "built_grid rockPaths"
  have below: "\<not> blocked ?g (1, 500)" if ok: "\<forall>c \<in> rock_cells rockPaths. 0 \<le> fst c"
    using cell_built_grid [OF ok, of "(1, 500)"] assms(2) built_grid_limits(2) [of rockPaths]
          maxDepth_of_nonneg [of rockPaths]
    by (simp add: blocked_def has_row_def air_row_def MAP_WIDTH_def SAND_DROP_POINT_def)
  have t1: "cell g1 SAND_DROP_POINT = Some AIR"
    if run: "task1 rockPaths = Some (Inr (g1, n1))" and pos: "0 < ?m"
  proof -
    have ok: "\<forall>c \<in> rock_cells rockPaths. 0 \<le> fst c" and loop: "drop_loop ?g ?m 0 = Some (Inr (g1, n1))"
      using run by (auto simp: task1_eq split: if_splits)
    from drop_loop_source_air [OF loop pos built_grid_limits(1) below [OF ok]] show ?thesis .
  qed
  have t2: "cell g2 SAND_DROP_POINT = Some AIR" if run: "task2 rockPaths = Some (Inr (g2, n2))"
  proof -
    have ok: "\<forall>c \<in> rock_cells rockPaths. 0 \<le> fst c" and fits: "map_fits rockPaths"
      using run by (auto simp: task2_eq split: if_splits)
    obtain gf where gf: "addFloorToMap ?g (?m + 2) = Inr gf"
      using run ok fits by (auto simp: task2_eq split: sum.splits)
    obtain k where loop: "drop_loop gf (?m + 2) 0 = Some (Inr (g2, k))"
      using run ok fits gf
      by (cases "drop_loop gf (?m + 2) 0") (auto simp: task2_eq map_sum_def split: sum.splits)
    have "\<not> blocked gf (1, 500)"
      using below [OF ok] cell_addFloorToMap(2) [OF gf, of "(1, 500)"] maxDepth_of_nonneg [of rockPaths]
      by (simp add: blocked_def)
    moreover have "?m + 2 < int (length gf)"
      using built_grid_limits(2) cell_addFloorToMap(1) [OF gf] by simp
    moreover have "0 < ?m + 2" using maxDepth_of_nonneg [of rockPaths] by simp
    ultimately show ?thesis using drop_loop_source_air [OF loop] by blast
  qed
  show ?thesis using t1 t2 by blast
qed

theorem source_rock_erased_witness:
  "SAND_DROP_POINT \<in> rock_cells source_rock_paths \<and> (1, 500) \<notin> rock_cells source_rock_paths \<and>
   (\<exists>g1 n1 g2 n2. task1 source_rock_paths = Some (Inr (g1, n1)) \<and> 0 < maxDepth_of source_rock_paths \<and>
      cell g1 SAND_DROP_POINT = Some AIR \<and>
      task2 source_rock_paths = Some (Inr (g2, n2)) \<and> cell g2 SAND_DROP_POINT = Some AIR)"
proof -
  have rocks: "rock_cells source_rock_paths = {(0, 500), (3, 400)}"
    by (simp add: rock_cells_def source_rock_paths_def generateRockCoordinatesFromPath_def)
  have m: "maxDepth_of source_rock_paths = 3"
    by (simp add: maxDepth_of_def source_rock_paths_def)
  have fits: "map_fits source_rock_paths" by (simp add: map_fits_def m)
  have ok: "\<forall>c \<in> rock_cells source_rock_paths. 0 \<le> fst c" by (simp add: rocks)
  obtain g1 n1 where r1: "task1 source_rock_paths = Some (Inr (g1, n1))"
    using task1_succeeds [OF fits ok] by blast
  obtain g2 n2 where r2: "task2 source_rock_paths = Some (Inr (g2, n2))"
    using task2_succeeds [OF fits ok] by blast
  have a: "SAND_DROP_POINT \<in> rock_cells source_rock_paths" "(1, 500) \<notin> rock_cells source_rock_paths"
    by (simp_all add: rocks SAND_DROP_POINT_def)
  show ?thesis
    using a r1 r2 m source_rock_erased [OF a, of g1 n1 g2 n2] by auto
qed

text \<open>
  C15. The open-floor loop does not only stop at an escape: in any state of the
  loop where the three cells under the source are blocked, the next unit rests at
  the source, \<^verbatim>\<open>sandDrop\<close> reports false for it (it is the
  \<^verbatim>\<open>SAND_DROP_POINT\<close> object) and the loop ends, with the grid unchanged and
  that unit not counted, although no unit escaped below the depth limit.
\<close>

theorem open_floor_stops_at_source:
  assumes "0 < lim" "lim < int (length g)"
    and "blocked g (1, 499)" "blocked g (1, 500)" "blocked g (1, 501)"
  shows "drop_loop g lim n = Some (Inr (g, n))"
proof -
  have "fall (blocked g) lim SAND_DROP_POINT = Rest SAND_DROP_POINT"
    using assms by (simp add: SAND_DROP_POINT_def fall.simps [of _ lim 0 500])
  then have "sandDrop g SAND_DROP_POINT True lim = Inr (g, False)"
    using sandDrop_source [OF assms(2)] by (simp add: drop_effect_def)
  then show ?thesis by (simp add: drop_loop.simps)
qed

theorem open_floor_stops_at_source_witness:
  "0 < maxDepth_of shelf_paths \<and> maxDepth_of shelf_paths < int (length (built_grid shelf_paths)) \<and>
   blocked (built_grid shelf_paths) (1, 499) \<and> blocked (built_grid shelf_paths) (1, 500) \<and>
   blocked (built_grid shelf_paths) (1, 501) \<and>
   task1 shelf_paths = Some (Inr (built_grid shelf_paths, 0))"
proof -
  have rocks: "rock_cells shelf_paths = {(1, 499), (1, 500), (1, 501)}"
    by (auto simp: rock_cells_def shelf_paths_def generateRockCoordinatesFromPath_def
                   getRocksToFill_def)
  have m: "maxDepth_of shelf_paths = 1"
    by (simp add: maxDepth_of_def shelf_paths_def)
  have ok: "\<forall>c \<in> rock_cells shelf_paths. 0 \<le> fst c" by (simp add: rocks)
  have fits: "map_fits shelf_paths" by (simp add: map_fits_def m)
  have len: "maxDepth_of shelf_paths < int (length (built_grid shelf_paths))"
    by (rule built_grid_limits(1))
  have b: "blocked (built_grid shelf_paths) (1, h)" if "h \<in> {499, 500, 501}" for h
    using that cell_built_grid [OF ok, of "(1, h)"] by (auto simp: blocked_def rocks)
  have pos: "0 < maxDepth_of shelf_paths" by (simp add: m)
  note stop = open_floor_stops_at_source [OF pos len b [of 499] b [of 500] b [of 501], of 0]
  show ?thesis
    using pos len b [of 499] b [of 500] b [of 501] stop fits ok by (simp add: task1_eq)
qed

text \<open>
  C16. The loop keeps the grid invariant (finitely many air and sand cells, no sand
  on the source) and the number of rows, the count only grows, and each counted
  unit adds one sand cell to the grid; the escape that ends an open-floor run may
  add one more.
\<close>

theorem drop_loop_keeps_invariant:
  assumes "drop_loop g limit n = Some (Inr (g', m))" "grid_inv g" "limit < int (length g)"
  shows "grid_inv g' \<and> length g' = length g \<and> n \<le> m \<and>
         card (cells_with SAND g) + (m - n) \<le> card (cells_with SAND g')"
proof -
  from drop_loop_settles [OF assms(1)] obtain gl k where st: "settles limit g n gl k"
    and ex: "loop_exit limit gl k (Inr (g', m))"
    by blast
  from ex have last: "sandDrop gl SAND_DROP_POINT True limit = Inr (g', False)" and km: "m = k"
    by (simp_all add: loop_exit_Inr)
  from settles_inv [OF st assms(2,3)] have inv: "grid_inv gl" "length gl = length g" "n \<le> k"
    "card (cells_with SAND gl) = card (cells_with SAND g) + (k - n)"
    by simp_all
  have len: "limit < int (length gl)" using assms(3) inv(2) by simp
  from sandDrop_source_stop [OF len last] consider "g' = gl"
    | q where "fall (blocked gl) limit SAND_DROP_POINT = Escape q" "q \<noteq> SAND_DROP_POINT"
        "g' = set_cell (set_cell gl SAND_DROP_POINT AIR) q SAND"
    by (auto split: if_splits)
  then show ?thesis
  proof cases
    case 1
    with inv km show ?thesis by simp
  next
    case (2 q)
    have "cell gl q = Some AIR"
      using fall_final_free [of "blocked gl" limit SAND_DROP_POINT] 2(1,2) by (simp add: blocked_def)
    from settle_step_facts [OF inv(1) this 2(2)] 2(3) inv km show ?thesis by simp
  qed
qed

theorem drop_loop_keeps_invariant_witness:
  "\<exists>g' m. drop_loop (built_grid ledge_paths) 2 0 = Some (Inr (g', m)) \<and>
     grid_inv (built_grid ledge_paths) \<and> 2 < int (length (built_grid ledge_paths)) \<and>
     grid_inv g' \<and> length g' = length (built_grid ledge_paths) \<and> 0 \<le> m \<and>
     card (cells_with SAND (built_grid ledge_paths)) + (m - 0) \<le> card (cells_with SAND g')"
proof -
  have ok: "\<forall>c \<in> rock_cells ledge_paths. 0 \<le> fst c"
    by (simp add: rock_cells_def ledge_paths_def generateRockCoordinatesFromPath_def getRocksToFill_def)
  have inv: "grid_inv (built_grid ledge_paths)" by (rule grid_inv_built_grid [OF ok])
  have len: "2 < int (length (built_grid ledge_paths))"
    by (simp add: length_built_grid maxDepth_of_def ledge_paths_def)
  have "map_option (map_sum id snd) (drop_loop (built_grid ledge_paths) 2 0) = Some (Inr 1)"
    by code_simp
  from map_option_map_sum_Inr [OF this] obtain y where y: "drop_loop (built_grid ledge_paths) 2 0 = Some (Inr y)"
    by blast
  obtain g' m where run: "drop_loop (built_grid ledge_paths) 2 0 = Some (Inr (g', m))"
    using y by (cases y) simp
  show ?thesis
    using run inv len drop_loop_keeps_invariant [OF run inv len] by blast
qed

text \<open>
  C17. A cell outside the 1000 allocated columns is read as \<^verbatim>\<open>undefined\<close>, which
  \<^verbatim>\<open>isBlocked\<close> reports as blocked: the code treats the edge of its fixed-width
  rows as a wall, where the spec asks for an \<open>OutOfBounds\<close> failure.
\<close>

theorem outside_columns_blocked:
  assumes "generateMap rockPaths = Inr (g, maxDepth)" "0 \<le> d" "d < maxDepth + 5"
    and "h < 0 \<or> MAP_WIDTH \<le> h" and "(d, h) \<notin> rock_cells rockPaths"
  shows "isBlocked g d h = Inr True"
proof -
  from assms(1) have ok: "\<forall>c \<in> rock_cells rockPaths. 0 \<le> fst c"
    and g: "g = built_grid rockPaths" and m: "maxDepth = maxDepth_of rockPaths"
    by (auto simp: generateMap_eq split: if_splits)
  have row: "has_row g d"
    using assms(2,3) by (simp add: has_row_def g m length_built_grid)
  have "(d, h) \<noteq> SAND_DROP_POINT"
    using assms(4) by (auto simp: SAND_DROP_POINT_def MAP_WIDTH_def)
  then have "cell g (d, h) = None"
    using cell_built_grid [OF ok, of "(d, h)"] assms(4,5) by (auto simp: g air_row_def)
  with row show ?thesis
    by (simp add: isBlocked_eq blocked_def)
qed

theorem outside_columns_blocked_witness:
  "generateMap ledge_paths = Inr (built_grid ledge_paths, 2) \<and> 0 \<le> (1::int) \<and> (1::int) < 2 + 5 \<and>
   ((1000::int) < 0 \<or> MAP_WIDTH \<le> 1000) \<and> (1, 1000) \<notin> rock_cells ledge_paths \<and>
   isBlocked (built_grid ledge_paths) 1 1000 = Inr True"
proof -
  have run: "generateMap ledge_paths = Inr (built_grid ledge_paths, 2)"
    by (simp add: generateMap_eq rock_cells_def ledge_paths_def generateRockCoordinatesFromPath_def
                  getRocksToFill_def maxDepth_of_def map_fits_def)
  have w: "(1000::int) < 0 \<or> MAP_WIDTH \<le> 1000" by (simp add: MAP_WIDTH_def)
  have r: "(1, 1000) \<notin> rock_cells ledge_paths"
    by (simp add: rock_cells_def ledge_paths_def generateRockCoordinatesFromPath_def getRocksToFill_def)
  show ?thesis
    using run w r outside_columns_blocked [OF run _ _ w r] by simp
qed

end
